theory Spec2Isabelle
  imports Complex_Main "HOL-Library.AList"
begin

section \<open>JavaScript values and the host runtime\<close>

text \<open>
  The bridge (codex-plugin-bridge.js) is glue around built-ins of the JavaScript runtime.
  Values that come out of \<open>JSON.parse\<close> are modelled by the datatype \<open>json\<close>; \<open>undefined\<close>
  (an absent property) is \<open>None\<close> of \<open>json option\<close>. Numbers are IEEE doubles in the
  source; the model keeps the rational value of a finite double and has separate
  constructors for the infinities and NaN. Text is a \<open>string\<close>, one \<open>char\<close> per code unit:
  the texts of the model are the JavaScript strings whose code units are below 256 (the
  session logs, the manifest and the lock file are ASCII JSON text).
\<close>

datatype jsnumber = NumNaN | NumInf bool | Num rat

datatype json =
    JNull
  | JBool bool
  | JNum jsnumber
  | JStr string
  | JArr "json list"
  | JObj "(string \<times> json) list"

datatype error =
    TypeError
  | JsonParseError string
  | IOError

text \<open>
  The built-ins the bridge calls are parameters of the model, collected in one record:
  \<^item> \<open>JSON_parse\<close>: \<open>JSON.parse\<close>; \<open>None\<close> stands for the SyntaxError it throws. An object is
    an association list in which the first binding of a key is the property's value.
  \<^item> \<open>JSON_stringify\<close>, \<open>Number_toString\<close>: \<open>JSON.stringify\<close> and the number-to-text conversion.
  \<^item> \<open>Number_of\<close>: \<open>Number(text)\<close>.
  \<^item> \<open>RegExp_compile\<close>: \<open>new RegExp(pattern)\<close>; \<open>None\<close> stands for the SyntaxError of a
    pattern that does not compile, \<open>Some t\<close> carries the \<open>test\<close> function of the expression.
  \<^item> \<open>Date_parse\<close>: \<open>Date.parse\<close>, \<open>None\<close> for NaN; \<open>Date_now\<close>: the successive readings
    of \<open>Date.now()\<close>, by the number of the reading.
  \<^item> \<open>process_pid\<close>: \<open>process.pid\<close>; \<open>process_kill0 p\<close>: \<open>process.kill(p, 0)\<close> returns
    without throwing.
  \<^item> \<open>sort_paths\<close>: \<open>Array.prototype.sort\<close> with \<open>localeCompare\<close> on path names.
\<close>

record host =
  JSON_parse :: "string \<Rightarrow> json option"
  JSON_stringify :: "json \<Rightarrow> string"
  Number_toString :: "jsnumber \<Rightarrow> string"
  Number_of :: "string \<Rightarrow> jsnumber"
  RegExp_compile :: "string \<Rightarrow> (string \<Rightarrow> bool) option"
  Date_parse :: "string \<Rightarrow> int option"
  Date_now :: "nat \<Rightarrow> int"
  process_pid :: int
  process_kill0 :: "int \<Rightarrow> bool"
  sort_paths :: "string list \<Rightarrow> string list"

subsection \<open>Operators of the language\<close>

text \<open>Truthiness, as \<open>!x\<close>, \<open>x || y\<close> and \<open>if (x)\<close> read it.\<close>

fun truthy :: "json \<Rightarrow> bool" where
  "truthy JNull = False"
| "truthy (JBool b) = b"
| "truthy (JNum n) = (n \<noteq> NumNaN \<and> n \<noteq> Num 0)"
| "truthy (JStr s) = (s \<noteq> [])"
| "truthy (JArr xs) = True"
| "truthy (JObj kvs) = True"

definition truthy_opt :: "json option \<Rightarrow> bool" where
  "truthy_opt v = (case v of None \<Rightarrow> False | Some x \<Rightarrow> truthy x)"

fun typeof :: "json option \<Rightarrow> string" where
  "typeof None = ''undefined''"
| "typeof (Some JNull) = ''object''"
| "typeof (Some (JBool b)) = ''boolean''"
| "typeof (Some (JNum n)) = ''number''"
| "typeof (Some (JStr s)) = ''string''"
| "typeof (Some (JArr xs)) = ''object''"
| "typeof (Some (JObj kvs)) = ''object''"

text \<open>
  Property read \<open>v.k\<close> for the property names the bridge reads from parsed JSON (\<open>type\<close>,
  \<open>payload\<close>, \<open>pid\<close>, \<open>events\<close>, ...): none of them is a member of \<open>Object.prototype\<close>,
  \<open>Array.prototype\<close> or a primitive wrapper, so the read gives the own property of an
  object and \<open>undefined\<close> on an array or a primitive. The read on \<open>null\<close> throws; the
  callers below test for \<open>JNull\<close> where the source can reach such a read.
\<close>

fun get_prop :: "json \<Rightarrow> string \<Rightarrow> json option" where
  "get_prop (JObj kvs) k = map_of kvs k"
| "get_prop v k = None"

definition Array_isArray :: "json option \<Rightarrow> bool" where
  "Array_isArray v = (case v of Some (JArr xs) \<Rightarrow> True | _ \<Rightarrow> False)"

definition Number_isInteger :: "json option \<Rightarrow> bool" where
  "Number_isInteger v =
     (case v of Some (JNum (Num r)) \<Rightarrow> r = of_int \<lfloor>r\<rfloor> | _ \<Rightarrow> False)"

definition Number_isFinite :: "json option \<Rightarrow> bool" where
  "Number_isFinite v = (case v of Some (JNum (Num r)) \<Rightarrow> True | _ \<Rightarrow> False)"

text \<open>\<open>Array.prototype.join\<close> on strings.\<close>

fun js_join :: "string \<Rightarrow> string list \<Rightarrow> string" where
  "js_join sep [] = []"
| "js_join sep [x] = x"
| "js_join sep (x # y # ys) = x @ sep @ js_join sep (y # ys)"

text \<open>
  \<open>String(v)\<close>, the conversion \<open>JSON.parse\<close>, \<open>new RegExp\<close> and \<open>join\<close> apply to an argument
  that is not a string. An array converts by joining its elements with a comma, \<open>null\<close>
  elements as the empty string.
\<close>

fun ToString :: "host \<Rightarrow> json \<Rightarrow> string" where
  "ToString h JNull = ''null''"
| "ToString h (JBool b) = (if b then ''true'' else ''false'')"
| "ToString h (JNum n) = Number_toString h n"
| "ToString h (JStr s) = s"
| "ToString h (JArr xs) =
     js_join '','' (map (\<lambda>v. if v = JNull then [] else ToString h v) xs)"
| "ToString h (JObj kvs) = ''[object Object]''"

definition Array_join :: "host \<Rightarrow> string \<Rightarrow> json list \<Rightarrow> string" where
  "Array_join h sep xs =
     js_join sep (map (\<lambda>v. if v = JNull then [] else ToString h v) xs)"

text \<open>
  \<open>String.prototype.trim\<close> and \<open>split('\n')\<close>. \<open>trim\<close> strips the white space and the line
  terminators of the language from both ends. A \<open>char\<close> is a code unit below 256, and of
  these the stripped ones are tab, line feed, vertical tab, form feed, carriage return,
  space and the no-break space U+00A0.
\<close>

definition is_ws :: "char \<Rightarrow> bool" where
  "is_ws c = (c = CHR '' '' \<or> c = CHR 0x09 \<or> c = CHR 0x0A \<or> c = CHR 0x0B
     \<or> c = CHR 0x0C \<or> c = CHR 0x0D \<or> c = CHR 0xA0)"

definition js_trim :: "string \<Rightarrow> string" where
  "js_trim s = rev (dropWhile is_ws (rev (dropWhile is_ws s)))"

fun split_nl :: "string \<Rightarrow> string list" where
  "split_nl [] = [[]]"
| "split_nl (c # cs) =
     (if c = CHR 0x0A then [] # split_nl cs
      else (case split_nl cs of [] \<Rightarrow> [[c]] | l # ls \<Rightarrow> (c # l) # ls))"

section \<open>Event name mapping\<close>

definition CODEX_EVENT_MAP :: "(string \<times> string list) list" where
  "CODEX_EVENT_MAP =
    [(''exec_approval_request'', [''PermissionRequest'']),
     (''apply_patch_approval_request'', [''PermissionRequest'']),
     (''request_user_input'', [''PermissionRequest'']),
     (''task_started'', [''TaskStarted'']),
     (''session_configured'', [''TaskStarted'']),
     (''task_complete'', [''TaskComplete'', ''Stop'']),
     (''error'', [''ToolError'']),
     (''warning'', [''ToolError'']),
     (''turn_aborted'', [''ToolError'']),
     (''stream_error'', [''ToolError'']),
     (''mcp_startup_complete'', [''MCPStartupComplete''])]"

text \<open>
  \<open>CODEX_EVENT_MAP\<close> is an object literal, so the read \<open>CODEX_EVENT_MAP[rawType]\<close> also
  finds what the object inherits from \<open>Object.prototype\<close>: a function for each method
  name and the prototype object for \<open>__proto__\<close>. Each of these is truthy, is not an
  array and is not iterable.
\<close>

definition Object_prototype_keys :: "string list" where
  "Object_prototype_keys =
    [''constructor'', ''__defineGetter__'', ''__defineSetter__'', ''hasOwnProperty'',
     ''__lookupGetter__'', ''__lookupSetter__'', ''isPrototypeOf'',
     ''propertyIsEnumerable'', ''toString'', ''valueOf'', ''__proto__'',
     ''toLocaleString'']"

datatype map_entry = OwnArray "string list" | Inherited | Undefined

definition CODEX_EVENT_MAP_get :: "string \<Rightarrow> map_entry" where
  "CODEX_EVENT_MAP_get rawType =
     (case map_of CODEX_EVENT_MAP rawType of
        Some names \<Rightarrow> OwnArray names
      | None \<Rightarrow> if rawType \<in> set Object_prototype_keys then Inherited else Undefined)"

text \<open>
  \<open>mapEventNames\<close>: \<open>const mapped = CODEX_EVENT_MAP[rawType] || []; return [...mapped, rawType]\<close>.
  The spread of an inherited member throws a TypeError.
\<close>

definition mapEventNames :: "string \<Rightarrow> error + string list" where
  "mapEventNames rawType =
     (case CODEX_EVENT_MAP_get rawType of
        OwnArray mapped \<Rightarrow> Inr (mapped @ [rawType])
      | Undefined \<Rightarrow> Inr ([] @ [rawType])
      | Inherited \<Rightarrow> Inl TypeError)"

section \<open>Event normalizer\<close>

record event =
  rawType :: string
  payload :: json
  eventTimestampSec :: "int option"

definition is_blank :: "string \<Rightarrow> bool" where
  "is_blank s = (js_trim s = [])"

definition parseEventTimestampSec :: "host \<Rightarrow> json \<Rightarrow> int option" where
  "parseEventTimestampSec h parsed =
     (if \<not> truthy parsed \<or> typeof (Some parsed) \<noteq> ''object'' then None
      else (case get_prop parsed ''timestamp'' of
              Some (JStr ts) \<Rightarrow>
                (if is_blank ts then None
                 else (case Date_parse h ts of
                         None \<Rightarrow> None
                       | Some ms \<Rightarrow> Some (ms div 1000)))
            | _ \<Rightarrow> None))"

text \<open>
  The \<open>response_item\<close> branch of \<open>parseCodexEvent\<close>, from the payload on. The text given
  to \<open>JSON.parse\<close> is \<open>payload.arguments || '{}'\<close>, converted to a string.
\<close>

definition arguments_text :: "host \<Rightarrow> json \<Rightarrow> string" where
  "arguments_text h pl =
     (case get_prop pl ''arguments'' of
        None \<Rightarrow> ''{}''
      | Some a \<Rightarrow> if truthy a then ToString h a else ''{}'')"

definition function_call_event :: "host \<Rightarrow> json \<Rightarrow> json \<Rightarrow> event option" where
  "function_call_event h parsed pl =
     (if \<not> truthy pl \<or> typeof (Some pl) \<noteq> ''object''
         \<or> get_prop pl ''type'' \<noteq> Some (JStr ''function_call'') then None
      else
        let toolName = (case get_prop pl ''name'' of Some (JStr n) \<Rightarrow> n | _ \<Rightarrow> [])
        in if toolName = [] then None
           else (case JSON_parse h (arguments_text h pl) of
                   None \<Rightarrow> None
                 | Some toolArgs \<Rightarrow>
                     (if \<not> truthy toolArgs \<or> typeof (Some toolArgs) \<noteq> ''object'' then None
                      else if get_prop toolArgs ''sandbox_permissions''
                                \<noteq> Some (JStr ''require_escalated'') then None
                      else (case toolArgs of
                              JObj kvs \<Rightarrow>
                                Some \<lparr>rawType =
                                        (if toolName = ''apply_patch''
                                         then ''apply_patch_approval_request''
                                         else ''exec_approval_request''),
                                      payload = JObj
                                        (AList.update ''call_id''
                                           (case get_prop pl ''call_id'' of
                                              Some (JStr c) \<Rightarrow> JStr c
                                            | _ \<Rightarrow> JStr [])
                                           (AList.update ''tool_name'' (JStr toolName) kvs)),
                                      eventTimestampSec = parseEventTimestampSec h parsed\<rparr>
                            | _ \<Rightarrow> None))))"

definition event_msg_event :: "host \<Rightarrow> json \<Rightarrow> json option \<Rightarrow> event option" where
  "event_msg_event h parsed p =
     (case p of
        None \<Rightarrow> None
      | Some pl \<Rightarrow>
          (if \<not> truthy pl \<or> typeof (Some pl) \<noteq> ''object'' then None
           else (case get_prop pl ''type'' of
                   Some (JStr t) \<Rightarrow>
                     Some \<lparr>rawType = t, payload = pl,
                           eventTimestampSec = parseEventTimestampSec h parsed\<rparr>
                 | _ \<Rightarrow> None)))"

definition parseCodexEvent :: "host \<Rightarrow> string \<Rightarrow> event option" where
  "parseCodexEvent h line =
     (case JSON_parse h line of
        None \<Rightarrow> None
      | Some parsed \<Rightarrow>
          (if \<not> truthy parsed \<or> typeof (Some parsed) \<noteq> ''object'' then None
           else if get_prop parsed ''type'' = Some (JStr ''event_msg'') then
             event_msg_event h parsed (get_prop parsed ''payload'')
           else if get_prop parsed ''type'' = Some (JStr ''response_item'') then
             (case get_prop parsed ''payload'' of
                None \<Rightarrow> None
              | Some pl \<Rightarrow> function_call_event h parsed pl)
           else None))"

section \<open>Hook dispatcher\<close>

definition string_part :: "json option \<Rightarrow> string list" where
  "string_part v = (case v of Some (JStr s) \<Rightarrow> [s] | _ \<Rightarrow> [])"

definition command_part :: "host \<Rightarrow> json option \<Rightarrow> string list" where
  "command_part h v =
     (case v of
        Some (JArr xs) \<Rightarrow> [Array_join h '' '' xs]
      | Some (JStr s) \<Rightarrow> [s]
      | _ \<Rightarrow> [])"

definition buildMatcherText :: "host \<Rightarrow> event \<Rightarrow> string" where
  "buildMatcherText h ev =
     (let pl = (if truthy (payload ev) then payload ev else JObj [])
      in js_join '' ''
           ([rawType ev]
            @ string_part (get_prop pl ''tool_name'')
            @ command_part h (get_prop pl ''command'')
            @ string_part (get_prop pl ''reason'')
            @ string_part (get_prop pl ''justification'')
            @ string_part (get_prop pl ''call_id'')))"

text \<open>
  \<open>matchesRule\<close>: a falsy matcher matches; otherwise the matcher is compiled and tested
  inside \<open>try\<close>, and any exception gives \<open>false\<close>.
\<close>

definition matchesRule :: "host \<Rightarrow> json option \<Rightarrow> string \<Rightarrow> bool" where
  "matchesRule h matcher text =
     (if \<not> truthy_opt matcher then True
      else (case matcher of
              None \<Rightarrow> True
            | Some m \<Rightarrow>
                (case RegExp_compile h (ToString h m) of
                   None \<Rightarrow> False
                 | Some test \<Rightarrow> test text)))"

definition safeStringValue :: "host \<Rightarrow> json option \<Rightarrow> string" where
  "safeStringValue h v =
     (case v of
        None \<Rightarrow> []
      | Some JNull \<Rightarrow> []
      | Some (JStr s) \<Rightarrow> s
      | Some (JNum n) \<Rightarrow> ToString h (JNum n)
      | Some (JBool b) \<Rightarrow> ToString h (JBool b)
      | Some x \<Rightarrow> JSON_stringify h x)"

text \<open>
  One call of \<open>runHookCommand\<close>: the shell command, the timeout in seconds and the
  context variables added to the environment. The subprocess's result is only logged
  and never changes what runs next, so a dispatch is the list of these calls. The
  debug log (\<open>logDebug\<close>) is write-only and swallows its own failures; it is left out.
\<close>

record hook_run =
  command :: string
  timeoutSec :: jsnumber
  contextEnv :: "(string \<times> string) list"

record manifest =
  manifestPath :: string
  plugins :: "json list"
  topHooks :: "json list"

definition getAllHookSources :: "manifest \<Rightarrow> json list" where
  "getAllHookSources m = plugins m @ topHooks m"

definition or_empty :: "host \<Rightarrow> json option \<Rightarrow> string" where
  "or_empty h v = (case v of None \<Rightarrow> [] | Some x \<Rightarrow> if truthy x then ToString h x else [])"

definition run_command ::
  "host \<Rightarrow> json \<Rightarrow> string list \<Rightarrow> event \<Rightarrow> string \<Rightarrow> string option \<Rightarrow> json \<Rightarrow> hook_run list" where
  "run_command h source names ev matcherText projectRoot commandDef =
     (if \<not> truthy commandDef then []
      else (case get_prop commandDef ''command'' of
              Some (JStr c) \<Rightarrow>
                (if is_blank c then []
                 else [\<lparr>command = c,
                        timeoutSec =
                          (case get_prop commandDef ''timeout'' of
                             Some (JNum (Num r)) \<Rightarrow> Num r
                           | _ \<Rightarrow> Num 10),
                        contextEnv =
                          [(''CLAUDE_PLUGIN_ROOT'', or_empty h (get_prop source ''rootPath'')),
                           (''CLAUDE_PROJECT_ROOT'',
                              (case projectRoot of None \<Rightarrow> [] | Some r \<Rightarrow> r)),
                           (''CRS_EVENT_TYPE'', (case names of [] \<Rightarrow> [] | n # ns \<Rightarrow> n)),
                           (''CRS_EVENT_RAW_TYPE'', rawType ev),
                           (''CRS_EVENT_MATCHER_TEXT'', matcherText),
                           (''CRS_EVENT_REASON'',
                              safeStringValue h (get_prop (payload ev) ''reason'')),
                           (''CRS_CALL_ID'',
                              safeStringValue h (get_prop (payload ev) ''call_id''))]\<rparr>])
            | _ \<Rightarrow> []))"

definition rule_fires :: "host \<Rightarrow> string list \<Rightarrow> string \<Rightarrow> json \<Rightarrow> bool" where
  "rule_fires h names matcherText eventDef =
     (truthy eventDef
      \<and> (case get_prop eventDef ''eventName'' of
            Some (JStr n) \<Rightarrow> n \<in> set names
          | _ \<Rightarrow> False)
      \<and> matchesRule h (get_prop eventDef ''matcher'') matcherText)"

definition run_rule ::
  "host \<Rightarrow> json \<Rightarrow> string list \<Rightarrow> event \<Rightarrow> string \<Rightarrow> string option \<Rightarrow> json \<Rightarrow> hook_run list" where
  "run_rule h source names ev matcherText projectRoot eventDef =
     (if \<not> rule_fires h names matcherText eventDef then []
      else (case get_prop eventDef ''commands'' of
              Some (JArr commands) \<Rightarrow>
                concat (map (run_command h source names ev matcherText projectRoot) commands)
            | _ \<Rightarrow> []))"

definition run_source ::
  "host \<Rightarrow> string list \<Rightarrow> event \<Rightarrow> string \<Rightarrow> string option \<Rightarrow> json \<Rightarrow> hook_run list" where
  "run_source h names ev matcherText projectRoot source =
     (case get_prop source ''events'' of
        Some (JArr events) \<Rightarrow>
          concat (map (run_rule h source names ev matcherText projectRoot) events)
      | _ \<Rightarrow> [])"

text \<open>
  The loop over the sources. \<open>source.events\<close> on a \<open>null\<close> source throws a TypeError; the
  commands run before it stay run.
\<close>

fun run_sources ::
  "host \<Rightarrow> string list \<Rightarrow> event \<Rightarrow> string \<Rightarrow> string option \<Rightarrow> json list
     \<Rightarrow> hook_run list \<times> error option" where
  "run_sources h names ev matcherText projectRoot [] = ([], None)"
| "run_sources h names ev matcherText projectRoot (source # rest) =
     (if source = JNull then ([], Some TypeError)
      else (case run_sources h names ev matcherText projectRoot rest of
              (later, err) \<Rightarrow>
                (run_source h names ev matcherText projectRoot source @ later, err)))"

definition executeEvent ::
  "host \<Rightarrow> manifest \<Rightarrow> event \<Rightarrow> string option \<Rightarrow> hook_run list \<times> error option" where
  "executeEvent h m ev projectRoot =
     (case mapEventNames (rawType ev) of
        Inl e \<Rightarrow> ([], Some e)
      | Inr names \<Rightarrow>
          run_sources h names ev (buildMatcherText h ev) projectRoot (getAllHookSources m))"

section \<open>Dedup cache\<close>

definition RECENT_EVENT_TTL_MS :: int where
  "RECENT_EVENT_TTL_MS = 30000"

definition RECENT_EVENT_MAX :: nat where
  "RECENT_EVENT_MAX = 2000"

text \<open>
  The run state. \<open>recentEvents\<close> is a JavaScript \<open>Map\<close>, which iterates in insertion order
  and keeps the place of a key whose value is set again: an association list updated
  with \<open>AList.update\<close>. \<open>clock_reads\<close> counts the calls of \<open>Date.now()\<close> made so far; it is
  the model's handle on the clock and no field of the source.
\<close>

record state =
  offsets :: "string \<Rightarrow> nat option"
  remainders :: "string \<Rightarrow> string option"
  recentEvents :: "(string \<times> int) list"
  sinceEpochSec :: "rat option"
  clock_reads :: nat

text \<open>
  The eviction loop: it walks the entries in insertion order, deletes an entry that is
  older than the TTL or met while the map is over capacity, and stops at the first entry
  that is neither. \<open>recentEvents.size\<close> at an entry is the number of entries from it on,
  since every entry before it has been deleted.
\<close>

fun evict :: "int \<Rightarrow> (string \<times> int) list \<Rightarrow> (string \<times> int) list" where
  "evict nowMs [] = []"
| "evict nowMs ((key, seenAt) # rest) =
     (if nowMs - seenAt > RECENT_EVENT_TTL_MS \<or> Suc (length rest) > RECENT_EVENT_MAX
      then evict nowMs rest
      else (key, seenAt) # rest)"

definition recordAndCheckDuplicateEvent :: "host \<Rightarrow> state \<Rightarrow> string \<Rightarrow> bool \<times> state" where
  "recordAndCheckDuplicateEvent h st signature =
     (let nowMs = Date_now h (clock_reads st);
          lastSeenMs = map_of (recentEvents st) signature;
          updated = AList.update signature nowMs (recentEvents st);
          kept = (if length updated > RECENT_EVENT_MAX then evict nowMs updated else updated)
      in ((case lastSeenMs of
             None \<Rightarrow> False
           | Some seen \<Rightarrow> nowMs - seen \<le> RECENT_EVENT_TTL_MS),
          st\<lparr>recentEvents := kept, clock_reads := Suc (clock_reads st)\<rparr>))"

section \<open>Incremental tailer\<close>

definition since_skips :: "state \<Rightarrow> event \<Rightarrow> bool" where
  "since_skips st ev =
     (case sinceEpochSec st of
        None \<Rightarrow> False
      | Some since \<Rightarrow>
          (case eventTimestampSec ev of
             None \<Rightarrow> False
           | Some ts \<Rightarrow> since > 0 \<and> of_int ts < since))"

text \<open>
  The loop over the complete lines of one read. An exception of \<open>executeEvent\<close> leaves
  the loop; the cache entries recorded so far stay.
\<close>

fun process_lines ::
  "host \<Rightarrow> manifest \<Rightarrow> string option \<Rightarrow> state \<Rightarrow> string list
     \<Rightarrow> state \<times> hook_run list \<times> error option" where
  "process_lines h m projectRoot st [] = (st, [], None)"
| "process_lines h m projectRoot st (line # rest) =
     (if is_blank line then process_lines h m projectRoot st rest
      else (case parseCodexEvent h line of
              None \<Rightarrow> process_lines h m projectRoot st rest
            | Some ev \<Rightarrow>
                (if since_skips st ev then process_lines h m projectRoot st rest
                 else (case recordAndCheckDuplicateEvent h st line of
                         (dup, st1) \<Rightarrow>
                           (if dup then process_lines h m projectRoot st1 rest
                            else (case executeEvent h m ev projectRoot of
                                    (runs, Some e) \<Rightarrow> (st1, runs, Some e)
                                  | (runs, None) \<Rightarrow>
                                      (case process_lines h m projectRoot st1 rest of
                                         (st2, later, err) \<Rightarrow> (st2, runs @ later, err))))))))"

text \<open>
  \<open>processSessionFile\<close>, given the bytes of the file at the time of \<open>statSync\<close> (its size
  is their number). The bytes from the offset on are decoded and appended to the stored
  remainder; the offset and the remainder are stored only when the loop ends normally.
\<close>

definition processSessionFile ::
  "host \<Rightarrow> string \<Rightarrow> string \<Rightarrow> state \<Rightarrow> manifest \<Rightarrow> string option
     \<Rightarrow> state \<times> hook_run list \<times> error option" where
  "processSessionFile h filePath bytes st m projectRoot =
     (let fsize = length bytes;
          stored = (case offsets st filePath of None \<Rightarrow> 0 | Some n \<Rightarrow> n);
          currentOffset = (if fsize < stored then 0 else stored);
          remainder =
            (if fsize < stored then []
             else (case remainders st filePath of None \<Rightarrow> [] | Some r \<Rightarrow> r))
      in if fsize = currentOffset then (st, [], None)
         else
           let fragments = split_nl (remainder @ drop currentOffset bytes)
           in (case process_lines h m projectRoot st (butlast fragments) of
                 (st1, runs, Some e) \<Rightarrow> (st1, runs, Some e)
               | (st1, runs, None) \<Rightarrow>
                   (st1\<lparr>offsets := (offsets st1)(filePath \<mapsto> fsize),
                        remainders := (remainders st1)(filePath \<mapsto> last fragments)\<rparr>,
                    runs, None)))"

section \<open>Manifest and session files\<close>

text \<open>
  \<open>path.join\<close> of a directory and a relative path (no normalisation is modelled).
\<close>

definition path_join :: "string \<Rightarrow> string \<Rightarrow> string" where
  "path_join dir rel = dir @ ''/'' @ rel"

definition BRIDGE_MANIFEST_RELATIVE_PATH :: string where
  "BRIDGE_MANIFEST_RELATIVE_PATH = ''plugins/claude-bridge/manifest.json''"

text \<open>
  What the bridge reads of the file system: the text of a regular file by its path
  (\<open>None\<close>: no such file), and the regular files below the sessions root as the directory
  walk of \<open>collectSessionFiles\<close> meets them (none when the root is missing).
\<close>

record session_file =
  sf_name :: string
  sf_path :: string
  sf_mtimeMs :: rat
  sf_bytes :: string

record filesystem =
  file_text :: "string \<Rightarrow> string option"
  session_entries :: "session_file list"

definition readJsonIfExists :: "host \<Rightarrow> filesystem \<Rightarrow> string \<Rightarrow> error + json option" where
  "readJsonIfExists h fs filePath =
     (case file_text fs filePath of
        None \<Rightarrow> Inr None
      | Some raw \<Rightarrow>
          (if is_blank raw then Inr None
           else (case JSON_parse h raw of
                   None \<Rightarrow> Inl (JsonParseError filePath)
                 | Some v \<Rightarrow> Inr (Some v))))"

definition readManifest :: "host \<Rightarrow> filesystem \<Rightarrow> string \<Rightarrow> error + manifest" where
  "readManifest h fs home =
     (let mp = path_join home BRIDGE_MANIFEST_RELATIVE_PATH
      in (case readJsonIfExists h fs mp of
            Inl e \<Rightarrow> Inl e
          | Inr None \<Rightarrow> Inr \<lparr>manifestPath = mp, plugins = [], topHooks = []\<rparr>
          | Inr (Some mf) \<Rightarrow>
              (if \<not> truthy mf \<or> typeof (Some mf) \<noteq> ''object''
               then Inr \<lparr>manifestPath = mp, plugins = [], topHooks = []\<rparr>
               else Inr \<lparr>manifestPath = mp,
                         plugins = (case get_prop mf ''plugins'' of
                                      Some (JArr xs) \<Rightarrow> xs | _ \<Rightarrow> []),
                         topHooks = (case get_prop mf ''topHooks'' of
                                       Some (JArr xs) \<Rightarrow> xs | _ \<Rightarrow> [])\<rparr>)))"

definition ends_with :: "string \<Rightarrow> string \<Rightarrow> bool" where
  "ends_with suffix s =
     (length suffix \<le> length s \<and> drop (length s - length suffix) s = suffix)"

definition collectSessionFiles :: "host \<Rightarrow> filesystem \<Rightarrow> rat option \<Rightarrow> string list" where
  "collectSessionFiles h fs since =
     sort_paths h
       (map sf_path
          (filter
             (\<lambda>f. ends_with ''.jsonl'' (sf_name f)
                  \<and> \<not> (case since of
                         None \<Rightarrow> False
                       | Some s \<Rightarrow> s \<noteq> 0 \<and> of_int \<lfloor>sf_mtimeMs f / 1000\<rfloor> < s))
             (session_entries fs)))"

definition stat_bytes :: "filesystem \<Rightarrow> string \<Rightarrow> string option" where
  "stat_bytes fs filePath =
     (case find (\<lambda>f. sf_path f = filePath) (session_entries fs) of
        None \<Rightarrow> None
      | Some f \<Rightarrow> Some (sf_bytes f))"

text \<open>The loop \<open>for (const filePath of files) processSessionFile(...)\<close>.\<close>

fun process_files ::
  "host \<Rightarrow> filesystem \<Rightarrow> manifest \<Rightarrow> string option \<Rightarrow> state \<Rightarrow> string list
     \<Rightarrow> state \<times> hook_run list \<times> error option" where
  "process_files h fs m projectRoot st [] = (st, [], None)"
| "process_files h fs m projectRoot st (filePath # rest) =
     (case stat_bytes fs filePath of
        None \<Rightarrow> (st, [], Some IOError)
      | Some bytes \<Rightarrow>
          (case processSessionFile h filePath bytes st m projectRoot of
             (st1, runs, Some e) \<Rightarrow> (st1, runs, Some e)
           | (st1, runs, None) \<Rightarrow>
               (case process_files h fs m projectRoot st1 rest of
                  (st2, later, err) \<Rightarrow> (st2, runs @ later, err))))"

section \<open>Run loop\<close>

record options =
  codexHome :: string
  projectRoot :: "string option"
  since :: "rat option"
  emitStop :: bool

definition initial_state :: "options \<Rightarrow> state" where
  "initial_state opts =
     \<lparr>offsets = Map.empty, remainders = Map.empty, recentEvents = [],
      sinceEpochSec = since opts, clock_reads = 0\<rparr>"

definition stop_event :: event where
  "stop_event = \<lparr>rawType = ''Stop'', payload = JObj [], eventTimestampSec = None\<rparr>"

definition runOnce :: "host \<Rightarrow> filesystem \<Rightarrow> options \<Rightarrow> hook_run list \<times> error option" where
  "runOnce h fs opts =
     (case readManifest h fs (codexHome opts) of
        Inl e \<Rightarrow> ([], Some e)
      | Inr m \<Rightarrow>
          (case process_files h fs m (projectRoot opts) (initial_state opts)
                  (collectSessionFiles h fs (since opts)) of
             (st, runs, Some e) \<Rightarrow> (runs, Some e)
           | (st, runs, None) \<Rightarrow>
               (if emitStop opts
                then (case executeEvent h m stop_event (projectRoot opts) of
                        (stop_runs, err) \<Rightarrow> (runs @ stop_runs, err))
                else (runs, None))))"

fun primeSessionOffsets :: "string list \<Rightarrow> state \<Rightarrow> state" where
  "primeSessionOffsets [] st = st"
| "primeSessionOffsets (filePath # rest) st =
     (if offsets st filePath \<noteq> None then primeSessionOffsets rest st
      else primeSessionOffsets rest
             (st\<lparr>offsets := (offsets st)(filePath \<mapsto> 0),
                 remainders := (remainders st)(filePath \<mapsto> [])\<rparr>))"

section \<open>Watch lock\<close>

text \<open>
  The lock path as this process meets it: the lock directory is missing, the path of
  the lock directory is taken by a regular file, the directory is there without a lock
  file, or the lock file is there with its text. Other processes share the path: before
  each file operation of this process the environment takes a turn, given by the head
  of \<open>others\<close>: it leaves the path alone, replaces what is there, or makes the operation
  fail with an I/O error that is none of EEXIST, ENOENT and ENOTDIR. \<open>fs_ops\<close> records
  the operations this process performed on the path, in order.
\<close>

datatype lock_entry = NoDirectory | DirectoryIsFile | NoFile | LockFile string

datatype env_step = Quiet | Change lock_entry | Fault

datatype fs_op = OpMkdir | OpCreate | OpRead | OpUnlink

datatype io_error = EEXIST | ENOENT | ENOTDIR | EOTHER

record lock_world =
  lock_file :: lock_entry
  others :: "env_step list"
  fs_ops :: "fs_op list"

definition env_turn :: "fs_op \<Rightarrow> lock_world \<Rightarrow> bool \<times> lock_world" where
  "env_turn op w =
     (let w1 = w\<lparr>fs_ops := fs_ops w @ [op]\<rparr>
      in (case others w of
            [] \<Rightarrow> (False, w1)
          | Quiet # r \<Rightarrow> (False, w1\<lparr>others := r\<rparr>)
          | Change f # r \<Rightarrow> (False, w1\<lparr>lock_file := f, others := r\<rparr>)
          | Fault # r \<Rightarrow> (True, w1\<lparr>others := r\<rparr>)))"

text \<open>
  \<open>fs.mkdirSync(path.dirname(lockPath), {recursive: true})\<close>: it makes the directory when
  it is missing, succeeds when it is there, and fails with EEXIST when its path is a
  regular file.
\<close>

definition mkdirSync :: "lock_world \<Rightarrow> (io_error + unit) \<times> lock_world" where
  "mkdirSync w =
     (case env_turn OpMkdir w of
        (fault, w1) \<Rightarrow>
          (if fault then (Inl EOTHER, w1)
           else (case lock_file w1 of
                   DirectoryIsFile \<Rightarrow> (Inl EEXIST, w1)
                 | NoDirectory \<Rightarrow> (Inr (), w1\<lparr>lock_file := NoFile\<rparr>)
                 | NoFile \<Rightarrow> (Inr (), w1)
                 | LockFile existing \<Rightarrow> (Inr (), w1))))"

text \<open>
  \<open>openSync(lockPath, 'wx')\<close>, the exclusive create, with the descriptor written through
  the file descriptor and the file closed (one step of the model).
\<close>

definition openSync_wx :: "string \<Rightarrow> lock_world \<Rightarrow> (io_error + unit) \<times> lock_world" where
  "openSync_wx descriptor w =
     (case env_turn OpCreate w of
        (fault, w1) \<Rightarrow>
          (if fault then (Inl EOTHER, w1)
           else (case lock_file w1 of
                   NoDirectory \<Rightarrow> (Inl ENOENT, w1)
                 | DirectoryIsFile \<Rightarrow> (Inl ENOTDIR, w1)
                 | LockFile existing \<Rightarrow> (Inl EEXIST, w1)
                 | NoFile \<Rightarrow> (Inr (), w1\<lparr>lock_file := LockFile descriptor\<rparr>))))"

text \<open>\<open>writeLock\<close>: the directory is made, then the lock file is created.\<close>

definition writeLock :: "string \<Rightarrow> lock_world \<Rightarrow> (io_error + unit) \<times> lock_world" where
  "writeLock descriptor w =
     (case mkdirSync w of
        (Inl err, w1) \<Rightarrow> (Inl err, w1)
      | (Inr u, w1) \<Rightarrow> openSync_wx descriptor w1)"

definition readFileSync :: "lock_world \<Rightarrow> (io_error + string) \<times> lock_world" where
  "readFileSync w =
     (case env_turn OpRead w of
        (fault, w1) \<Rightarrow>
          (if fault then (Inl EOTHER, w1)
           else (case lock_file w1 of
                   NoDirectory \<Rightarrow> (Inl ENOENT, w1)
                 | DirectoryIsFile \<Rightarrow> (Inl ENOTDIR, w1)
                 | NoFile \<Rightarrow> (Inl ENOENT, w1)
                 | LockFile raw \<Rightarrow> (Inr raw, w1))))"

definition unlinkSync :: "lock_world \<Rightarrow> (io_error + unit) \<times> lock_world" where
  "unlinkSync w =
     (case env_turn OpUnlink w of
        (fault, w1) \<Rightarrow>
          (if fault then (Inl EOTHER, w1)
           else (case lock_file w1 of
                   NoDirectory \<Rightarrow> (Inl ENOENT, w1)
                 | DirectoryIsFile \<Rightarrow> (Inl ENOTDIR, w1)
                 | NoFile \<Rightarrow> (Inl ENOENT, w1)
                 | LockFile raw \<Rightarrow> (Inr (), w1\<lparr>lock_file := NoFile\<rparr>))))"

definition integer_value :: "jsnumber \<Rightarrow> int option" where
  "integer_value n =
     (case n of Num r \<Rightarrow> if r = of_int \<lfloor>r\<rfloor> then Some \<lfloor>r\<rfloor> else None | _ \<Rightarrow> None)"

definition isProcessAlive :: "host \<Rightarrow> int option \<Rightarrow> bool" where
  "isProcessAlive h pid =
     (case pid of
        None \<Rightarrow> False
      | Some p \<Rightarrow> if p \<le> 0 then False else process_kill0 h p)"

text \<open>
  \<open>parseWatchLockPid\<close>: the integer \<open>pid\<close> of the parsed descriptor; when \<open>JSON.parse\<close>
  throws, or the read \<open>parsed.pid\<close> throws because the text is \<open>null\<close>, the \<open>catch\<close> branch
  takes the whole trimmed text as a number.
\<close>

definition parseWatchLockPid :: "host \<Rightarrow> string \<Rightarrow> int option" where
  "parseWatchLockPid h rawText =
     (if rawText = [] \<or> is_blank rawText then None
      else (case JSON_parse h rawText of
              Some (JObj kvs) \<Rightarrow>
                (case map_of kvs ''pid'' of
                   Some (JNum n) \<Rightarrow> integer_value n
                 | _ \<Rightarrow> None)
            | Some JNull \<Rightarrow> integer_value (Number_of h (js_trim rawText))
            | Some v \<Rightarrow> None
            | None \<Rightarrow> integer_value (Number_of h (js_trim rawText))))"

definition lock_descriptor :: "host \<Rightarrow> string \<Rightarrow> string" where
  "lock_descriptor h createdAt =
     JSON_stringify h
       (JObj [(''pid'', JNum (Num (of_int (process_pid h)))), (''createdAt'', JStr createdAt)])"

datatype lock_handle = NoHandle | ReleaseHandle

text \<open>
  \<open>acquireWatchLock\<close>. \<open>createdAt\<close> is the text of \<open>new Date().toISOString()\<close>. The result is
  the exception rethrown (\<open>Inl\<close>), \<open>null\<close> (\<open>NoHandle\<close>) or the release function. The
  \<open>catch\<close> around \<open>writeLock\<close> takes every EEXIST for an existing lock, that of the create
  and that of \<open>mkdirSync\<close>.
\<close>

definition acquireWatchLock ::
  "host \<Rightarrow> string \<Rightarrow> lock_world \<Rightarrow> (error + lock_handle) \<times> lock_world" where
  "acquireWatchLock h createdAt w =
     (case writeLock (lock_descriptor h createdAt) w of
        (Inr u, w1) \<Rightarrow> (Inr ReleaseHandle, w1)
      | (Inl err, w1) \<Rightarrow>
          (if err \<noteq> EEXIST then (Inl IOError, w1)
           else (case readFileSync w1 of
                   (rd, w2) \<Rightarrow>
                     (let stale =
                        (case rd of
                           Inl e \<Rightarrow> True
                         | Inr existingRaw \<Rightarrow>
                             \<not> isProcessAlive h (parseWatchLockPid h existingRaw))
                      in if \<not> stale then (Inr NoHandle, w2)
                         else (case unlinkSync w2 of
                                 (Inl e, w3) \<Rightarrow> (Inr NoHandle, w3)
                               | (Inr u, w3) \<Rightarrow>
                                   (case writeLock (lock_descriptor h createdAt) w3 of
                                      (Inl e, w4) \<Rightarrow> (Inr NoHandle, w4)
                                    | (Inr u, w4) \<Rightarrow> (Inr ReleaseHandle, w4)))))))"

text \<open>
  The release function returned by \<open>acquireWatchLock\<close>; \<open>released\<close> is its flag. It
  returns the flag and the world after the call.
\<close>

definition releaseWatchLock :: "host \<Rightarrow> bool \<Rightarrow> lock_world \<Rightarrow> bool \<times> lock_world" where
  "releaseWatchLock h released w =
     (if released then (True, w)
      else (case readFileSync w of
              (Inl e, w1) \<Rightarrow> (True, w1)
            | (Inr existingRaw, w1) \<Rightarrow>
                (if parseWatchLockPid h existingRaw = Some (process_pid h)
                 then (True, snd (unlinkSync w1))
                 else (True, w1))))"

text \<open>
  \<open>watch\<close>, for a run that ends: \<open>boot\<close> is the file system at start, \<open>polls\<close> the file
  system at each pass of the loop, the last pass being the one after the stop request.
  The reaper (\<open>cleanupCompetingWatchers\<close>), which runs before the lock is taken and
  touches neither the lock path nor the run state, is not modelled.
\<close>

fun watch_loop ::
  "host \<Rightarrow> manifest \<Rightarrow> options \<Rightarrow> state \<Rightarrow> filesystem list
     \<Rightarrow> state \<times> hook_run list \<times> error option" where
  "watch_loop h m opts st [] = (st, [], None)"
| "watch_loop h m opts st (fs # rest) =
     (let files = collectSessionFiles h fs (since opts)
      in (case process_files h fs m (projectRoot opts) (primeSessionOffsets files st) files of
            (st1, runs, Some e) \<Rightarrow> (st1, runs, Some e)
          | (st1, runs, None) \<Rightarrow>
              (case watch_loop h m opts st1 rest of
                 (st2, later, err) \<Rightarrow> (st2, runs @ later, err))))"

record watch_result =
  entered_watch :: bool
  hook_runs :: "hook_run list"
  raised :: "error option"
  final_lock :: lock_world

definition watch ::
  "host \<Rightarrow> options \<Rightarrow> string \<Rightarrow> lock_world \<Rightarrow> filesystem \<Rightarrow> filesystem list \<Rightarrow> watch_result" where
  "watch h opts createdAt w boot polls =
     (case readManifest h boot (codexHome opts) of
        Inl e \<Rightarrow> \<lparr>entered_watch = False, hook_runs = [], raised = Some e, final_lock = w\<rparr>
      | Inr m \<Rightarrow>
          (case acquireWatchLock h createdAt w of
             (Inl e, w1) \<Rightarrow>
               \<lparr>entered_watch = False, hook_runs = [], raised = Some e, final_lock = w1\<rparr>
           | (Inr NoHandle, w1) \<Rightarrow>
               \<lparr>entered_watch = False, hook_runs = [], raised = None, final_lock = w1\<rparr>
           | (Inr ReleaseHandle, w1) \<Rightarrow>
               (case watch_loop h m opts
                       (primeSessionOffsets (collectSessionFiles h boot (since opts))
                          (initial_state opts))
                       polls of
                  (st, runs, err) \<Rightarrow>
                    \<lparr>entered_watch = True, hook_runs = runs, raised = err,
                     final_lock = snd (releaseWatchLock h False w1)\<rparr>)))"

section \<open>A host for the examples\<close>

text \<open>
  The theorems below hold for every host. Their examples are evaluated on \<open>test_host\<close>,
  a small host that agrees with Node.js on the inputs the examples use: JSON texts
  whose numbers are integers written without fraction or exponent and whose strings use
  no escape but \<open>\"\<close>, \<open>\\\<close> and \<open>\/\<close> (any other text is rejected); regular
  expressions that are a literal text of letters, digits, spaces, \<open>-\<close>, \<open>_\<close> and \<open>/\<close>,
  with an optional leading \<open>^\<close> (any other pattern is rejected, as Node rejects the
  pattern \<open>(\<close>); timestamps of the form \<open>YYYY-MM-DDTHH:MM:SS.mmmZ\<close>; process 4242 is this
  process, and the live processes are 4242 and 777. Its clock reads 0 and 1000 at the
  first two readings and 40000 times the number of the reading from then on.
\<close>

definition json_ws :: "char \<Rightarrow> bool" where
  "json_ws c = (c = CHR '' '' \<or> c = CHR 0x09 \<or> c = CHR 0x0A \<or> c = CHR 0x0D)"

definition is_digit :: "char \<Rightarrow> bool" where
  "is_digit c = (48 \<le> (of_char c :: nat) \<and> (of_char c :: nat) \<le> 57)"

definition digit_val :: "char \<Rightarrow> nat" where
  "digit_val c = of_char c - 48"

fun read_digits :: "nat \<Rightarrow> string \<Rightarrow> nat \<times> string" where
  "read_digits acc [] = (acc, [])"
| "read_digits acc (c # cs) =
     (if is_digit c then read_digits (10 * acc + digit_val c) cs else (acc, c # cs))"

fun read_string :: "string \<Rightarrow> (string \<times> string) option" where
  "read_string [] = None"
| "read_string [c] = (if c = CHR 0x22 then Some ([], []) else None)"
| "read_string (c # e # cs) =
     (if c = CHR 0x22 then Some ([], e # cs)
      else if c = CHR 0x5C then
        (if e = CHR 0x22 \<or> e = CHR 0x5C \<or> e = CHR ''/'' then
           (case read_string cs of None \<Rightarrow> None | Some (s, r) \<Rightarrow> Some (e # s, r))
         else None)
      else if (of_char c :: nat) < 32 then None
      else (case read_string (e # cs) of None \<Rightarrow> None | Some (s, r) \<Rightarrow> Some (c # s, r)))"

definition read_number :: "string \<Rightarrow> (json \<times> string) option" where
  "read_number cs =
     (let neg = (case cs of [] \<Rightarrow> False | c # r \<Rightarrow> c = CHR ''-'');
          ds = (if neg then tl cs else cs)
      in (case ds of
            [] \<Rightarrow> None
          | d # r \<Rightarrow>
              (if \<not> is_digit d then None
               else if d = CHR ''0'' \<and> (case r of [] \<Rightarrow> False | d2 # r2 \<Rightarrow> is_digit d2) then None
               else (case read_digits 0 ds of
                       (n, rest) \<Rightarrow>
                         (if (case rest of [] \<Rightarrow> False
                                | x # xs \<Rightarrow> x = CHR ''.'' \<or> x = CHR ''e'' \<or> x = CHR ''E'')
                          then None
                          else Some (JNum (Num (if neg then - of_nat n else of_nat n)), rest))))))"

fun read_value :: "nat \<Rightarrow> string \<Rightarrow> (json \<times> string) option"
  and read_elements :: "nat \<Rightarrow> string \<Rightarrow> (json list \<times> string) option"
  and read_members :: "nat \<Rightarrow> string \<Rightarrow> ((string \<times> json) list \<times> string) option" where
  "read_value 0 cs = None"
| "read_value (Suc n) cs =
     (case dropWhile json_ws cs of
        [] \<Rightarrow> None
      | c # r \<Rightarrow>
          (if c = CHR ''{'' then
             (case dropWhile json_ws r of
                [] \<Rightarrow> None
              | c2 # r2 \<Rightarrow>
                  (if c2 = CHR ''}'' then Some (JObj [], r2)
                   else (case read_members n r of
                           None \<Rightarrow> None
                         | Some (kvs, rest) \<Rightarrow>
                             Some (JObj (foldl (\<lambda>al kv. AList.update (fst kv) (snd kv) al) [] kvs),
                                   rest))))
           else if c = CHR ''['' then
             (case dropWhile json_ws r of
                [] \<Rightarrow> None
              | c2 # r2 \<Rightarrow>
                  (if c2 = CHR '']'' then Some (JArr [], r2)
                   else (case read_elements n r of
                           None \<Rightarrow> None
                         | Some (xs, rest) \<Rightarrow> Some (JArr xs, rest))))
           else if c = CHR 0x22 then
             (case read_string r of None \<Rightarrow> None | Some (s, rest) \<Rightarrow> Some (JStr s, rest))
           else if take 4 (c # r) = ''true'' then Some (JBool True, drop 4 (c # r))
           else if take 5 (c # r) = ''false'' then Some (JBool False, drop 5 (c # r))
           else if take 4 (c # r) = ''null'' then Some (JNull, drop 4 (c # r))
           else read_number (c # r)))"
| "read_elements 0 cs = None"
| "read_elements (Suc n) cs =
     (case read_value n cs of
        None \<Rightarrow> None
      | Some (v, rest) \<Rightarrow>
          (case dropWhile json_ws rest of
             [] \<Rightarrow> None
           | c # r \<Rightarrow>
               (if c = CHR '']'' then Some ([v], r)
                else if c = CHR '','' then
                  (case read_elements n r of
                     None \<Rightarrow> None
                   | Some (vs, rest2) \<Rightarrow> Some (v # vs, rest2))
                else None)))"
| "read_members 0 cs = None"
| "read_members (Suc n) cs =
     (case dropWhile json_ws cs of
        [] \<Rightarrow> None
      | q # r0 \<Rightarrow>
          (if q \<noteq> CHR 0x22 then None
           else (case read_string r0 of
                   None \<Rightarrow> None
                 | Some (k, r1) \<Rightarrow>
                     (case dropWhile json_ws r1 of
                        [] \<Rightarrow> None
                      | colon # r2 \<Rightarrow>
                          (if colon \<noteq> CHR '':'' then None
                           else (case read_value n r2 of
                                   None \<Rightarrow> None
                                 | Some (v, rest) \<Rightarrow>
                                     (case dropWhile json_ws rest of
                                        [] \<Rightarrow> None
                                      | c # r \<Rightarrow>
                                          (if c = CHR ''}'' then Some ([(k, v)], r)
                                           else if c = CHR '','' then
                                             (case read_members n r of
                                                None \<Rightarrow> None
                                              | Some (kvs, rest2) \<Rightarrow> Some ((k, v) # kvs, rest2))
                                           else None))))))))"

definition test_JSON_parse :: "string \<Rightarrow> json option" where
  "test_JSON_parse s =
     (case read_value (Suc (length s)) s of
        None \<Rightarrow> None
      | Some (v, rest) \<Rightarrow> if dropWhile json_ws rest = [] then Some v else None)"

definition digit_char :: "nat \<Rightarrow> char" where
  "digit_char n = ''0123456789'' ! (n mod 10)"

function show_nat :: "nat \<Rightarrow> string" where
  "show_nat n =
     (if n < 10 then [digit_char n]
      else show_nat (n div 10) @ [digit_char (n mod 10)])"
  by pat_completeness auto
termination
  by (relation "measure id") auto

declare show_nat.simps [simp del]

definition test_Number_toString :: "jsnumber \<Rightarrow> string" where
  "test_Number_toString n =
     (case n of
        NumNaN \<Rightarrow> ''NaN''
      | NumInf pos \<Rightarrow> (if pos then ''Infinity'' else ''-Infinity'')
      | Num r \<Rightarrow> (if r < 0 then ''-'' else []) @ show_nat (nat \<lfloor>\<bar>r\<bar>\<rfloor>))"

definition quote :: "string \<Rightarrow> string" where
  "quote s =
     [CHR 0x22]
     @ concat (map (\<lambda>c. if c = CHR 0x22 \<or> c = CHR 0x5C then [CHR 0x5C, c] else [c]) s)
     @ [CHR 0x22]"

fun test_JSON_stringify :: "json \<Rightarrow> string" where
  "test_JSON_stringify JNull = ''null''"
| "test_JSON_stringify (JBool b) = (if b then ''true'' else ''false'')"
| "test_JSON_stringify (JNum n) =
     (case n of Num r \<Rightarrow> test_Number_toString n | _ \<Rightarrow> ''null'')"
| "test_JSON_stringify (JStr s) = quote s"
| "test_JSON_stringify (JArr xs) = ''['' @ js_join '','' (map test_JSON_stringify xs) @ '']''"
| "test_JSON_stringify (JObj kvs) =
     ''{'' @ js_join '','' (map (\<lambda>kv. quote (fst kv) @ '':'' @ test_JSON_stringify (snd kv)) kvs)
     @ ''}''"

definition test_Number_of :: "string \<Rightarrow> jsnumber" where
  "test_Number_of s =
     (if js_trim s = [] then Num 0
      else (case read_number (js_trim s) of
              Some (JNum n, []) \<Rightarrow> n
            | _ \<Rightarrow> NumNaN))"

definition plain_char :: "char \<Rightarrow> bool" where
  "plain_char c =
     (is_digit c \<or> c = CHR '' '' \<or> c = CHR ''-'' \<or> c = CHR ''_'' \<or> c = CHR ''/''
      \<or> (65 \<le> (of_char c :: nat) \<and> (of_char c :: nat) \<le> 90)
      \<or> (97 \<le> (of_char c :: nat) \<and> (of_char c :: nat) \<le> 122))"

fun contains :: "string \<Rightarrow> string \<Rightarrow> bool" where
  "contains pat [] = (pat = [])"
| "contains pat (c # cs) = (take (length pat) (c # cs) = pat \<or> contains pat cs)"

definition test_RegExp_compile :: "string \<Rightarrow> (string \<Rightarrow> bool) option" where
  "test_RegExp_compile pat =
     (case pat of
        [] \<Rightarrow> Some (\<lambda>text. True)
      | c # cs \<Rightarrow>
          (if c = CHR ''^'' \<and> list_all plain_char cs
           then Some (\<lambda>text. take (length cs) text = cs)
           else if list_all plain_char (c # cs) then Some (contains (c # cs))
           else None))"

definition two_digits :: "string \<Rightarrow> nat \<Rightarrow> int" where
  "two_digits s i = int (10 * digit_val (s ! i) + digit_val (s ! (i + 1)))"

definition days_from_civil :: "int \<Rightarrow> int \<Rightarrow> int \<Rightarrow> int" where
  "days_from_civil y m d =
     (let y1 = (if m \<le> 2 then y - 1 else y);
          era = y1 div 400;
          yoe = y1 - era * 400;
          doy = (153 * (if m > 2 then m - 3 else m + 9) + 2) div 5 + d - 1;
          doe = yoe * 365 + yoe div 4 - yoe div 100 + doy
      in era * 146097 + doe - 719468)"

definition test_Date_parse :: "string \<Rightarrow> int option" where
  "test_Date_parse s =
     (if length s = 24
         \<and> list_all (\<lambda>i. is_digit (s ! i)) [0, 1, 2, 3, 5, 6, 8, 9, 11, 12, 14, 15, 17, 18, 20, 21, 22]
         \<and> s ! 4 = CHR ''-'' \<and> s ! 7 = CHR ''-'' \<and> s ! 10 = CHR ''T'' \<and> s ! 13 = CHR '':''
         \<and> s ! 16 = CHR '':'' \<and> s ! 19 = CHR ''.'' \<and> s ! 23 = CHR ''Z''
         \<and> 1 \<le> two_digits s 5 \<and> two_digits s 5 \<le> 12
         \<and> 1 \<le> two_digits s 8 \<and> two_digits s 8 \<le> 28
         \<and> two_digits s 11 \<le> 23 \<and> two_digits s 14 \<le> 59 \<and> two_digits s 17 \<le> 59
      then Some
        ((((days_from_civil (100 * two_digits s 0 + two_digits s 2) (two_digits s 5)
              (two_digits s 8) * 24
            + two_digits s 11) * 60
           + two_digits s 14) * 60
          + two_digits s 17) * 1000
         + 10 * two_digits s 20 + int (digit_val (s ! 22)))
      else None)"

fun insert_path :: "string \<Rightarrow> string list \<Rightarrow> string list" where
  "insert_path p [] = [p]"
| "insert_path p (q # qs) =
     (if lexordp_eq (map (of_char :: char \<Rightarrow> nat) p) (map of_char q) then p # q # qs
      else q # insert_path p qs)"

definition test_host :: host where
  "test_host =
     \<lparr>JSON_parse = test_JSON_parse,
      JSON_stringify = test_JSON_stringify,
      Number_toString = test_Number_toString,
      Number_of = test_Number_of,
      RegExp_compile = test_RegExp_compile,
      Date_parse = test_Date_parse,
      Date_now = (\<lambda>n. if n < 2 then 1000 * int n else 40000 * int n),
      process_pid = 4242,
      process_kill0 = (\<lambda>p. p = 4242 \<or> p = 777),
      sort_paths = (\<lambda>ps. foldr insert_path ps [])\<rparr>"

section \<open>Example inputs\<close>

text \<open>
  The manifest of the repository's bridge test (one plugin with a rule for \<open>Stop\<close> and a
  rule for \<open>TaskComplete\<close>), with shorter command lines.
\<close>

definition test_home :: string where
  "test_home = ''/codex''"

definition test_manifest_path :: string where
  "test_manifest_path = ''/codex/plugins/claude-bridge/manifest.json''"

definition two_rule_manifest_text :: string where
  \<open>two_rule_manifest_text = ''{"version":1,"projectRoot":null,"plugins":[{"id":"home:demo-stop-plugin","sourceType":"home","name":"demo-stop-plugin","rootPath":"/codex/plugins/claude-home/demo-stop-plugin","events":[{"eventName":"Stop","matcher":null,"commands":[{"command":"echo stop >> stop.log","timeout":10}]},{"eventName":"TaskComplete","matcher":null,"commands":[{"command":"echo complete >> task-complete.log","timeout":10}]}]}],"topHooks":[]}''\<close>

definition fs_with_manifest :: "string \<Rightarrow> session_file list \<Rightarrow> filesystem" where
  "fs_with_manifest txt files =
     \<lparr>file_text = (\<lambda>p. if p = test_manifest_path then Some txt else None),
      session_entries = files\<rparr>"

definition rm_event :: event where
  "rm_event =
     \<lparr>rawType = ''exec_approval_request'',
      payload = JObj [(''type'', JStr ''exec_approval_request''),
                      (''command'', JArr [JStr ''rm'', JStr ''-rf'', JStr ''/tmp''])],
      eventTimestampSec = None\<rparr>"

definition two_rule_plugins :: "json list" where
  "two_rule_plugins =
     [JObj [(''id'', JStr ''home:demo-stop-plugin''), (''sourceType'', JStr ''home''),
            (''name'', JStr ''demo-stop-plugin''),
            (''rootPath'', JStr ''/codex/plugins/claude-home/demo-stop-plugin''),
            (''events'',
               JArr [JObj [(''eventName'', JStr ''Stop''), (''matcher'', JNull),
                           (''commands'',
                              JArr [JObj [(''command'', JStr ''echo stop >> stop.log''),
                                          (''timeout'', JNum (Num 10))]])],
                     JObj [(''eventName'', JStr ''TaskComplete''), (''matcher'', JNull),
                           (''commands'',
                              JArr [JObj [(''command'', JStr ''echo complete >> task-complete.log''),
                                          (''timeout'', JNum (Num 10))]])]])]]"

definition two_rule_manifest :: manifest where
  "two_rule_manifest =
     \<lparr>manifestPath = test_manifest_path, plugins = two_rule_plugins, topHooks = []\<rparr>"

definition hook_env :: "string \<Rightarrow> string \<Rightarrow> string \<Rightarrow> (string \<times> string) list" where
  "hook_env name rt mtext =
     [(''CLAUDE_PLUGIN_ROOT'', ''/codex/plugins/claude-home/demo-stop-plugin''),
      (''CLAUDE_PROJECT_ROOT'', []),
      (''CRS_EVENT_TYPE'', name), (''CRS_EVENT_RAW_TYPE'', rt),
      (''CRS_EVENT_MATCHER_TEXT'', mtext), (''CRS_EVENT_REASON'', []),
      (''CRS_CALL_ID'', [])]"

definition stop_run :: hook_run where
  "stop_run =
     \<lparr>command = ''echo stop >> stop.log'', timeoutSec = Num 10,
      contextEnv = hook_env ''Stop'' ''Stop'' ''Stop''\<rparr>"

definition stop_options :: "rat option \<Rightarrow> options" where
  "stop_options floor_sec =
     \<lparr>codexHome = test_home, projectRoot = None, since = floor_sec, emitStop = True\<rparr>"

text \<open>
  A tool call line: a \<open>response_item\<close> record whose \<open>arguments\<close> property is the JSON
  text \<open>args\<close>, quoted.
\<close>

definition exec_args_text :: string where
  \<open>exec_args_text = ''{"command":["rm","-rf","/tmp"],"sandbox_permissions":"require_escalated","justification":"cleanup"}''\<close>

definition plain_args_text :: string where
  \<open>plain_args_text = ''{"command":["ls"]}''\<close>

definition tool_line :: "string \<Rightarrow> string \<Rightarrow> string" where
  \<open>tool_line name args = ''{"type":"response_item","timestamp":"2026-02-28T10:00:00.000Z","payload":{"type":"function_call","name":"'' @ name @ ''","arguments":'' @ quote args @ '',"call_id":"call_1"}}''\<close>

definition tool_payload :: "string \<Rightarrow> string \<Rightarrow> json" where
  "tool_payload name args =
     JObj [(''type'', JStr ''function_call''), (''name'', JStr name),
           (''arguments'', JStr args), (''call_id'', JStr ''call_1'')]"

definition tool_props :: "string \<Rightarrow> string \<Rightarrow> (string \<times> json) list" where
  "tool_props name args =
     [(''type'', JStr ''response_item''), (''timestamp'', JStr ''2026-02-28T10:00:00.000Z''),
      (''payload'', tool_payload name args)]"

text \<open>The event the normalizer builds from an accepted tool call.\<close>

definition tool_event :: "host \<Rightarrow> json \<Rightarrow> json \<Rightarrow> string \<Rightarrow> (string \<times> json) list \<Rightarrow> event" where
  "tool_event h parsed pl name args =
     \<lparr>rawType = (if name = ''apply_patch'' then ''apply_patch_approval_request''
                 else ''exec_approval_request''),
      payload = JObj (AList.update ''call_id''
                  (case get_prop pl ''call_id'' of Some (JStr c) \<Rightarrow> JStr c | _ \<Rightarrow> JStr [])
                  (AList.update ''tool_name'' (JStr name) args)),
      eventTimestampSec = parseEventTimestampSec h parsed\<rparr>"

definition no_manifest_fs :: filesystem where
  "no_manifest_fs = \<lparr>file_text = (\<lambda>p. None), session_entries = []\<rparr>"

definition malformed_manifest_text :: string where
  \<open>malformed_manifest_text = ''{"plugins":[''\<close>

definition once_options :: options where
  "once_options = \<lparr>codexHome = test_home, projectRoot = None, since = None, emitStop = False\<rparr>"

text \<open>
  The session log lines of the repository's bridge test: an \<open>event_msg\<close> record with a
  timestamp and a payload that holds only the raw type.
\<close>

definition session_line :: "string \<Rightarrow> string \<Rightarrow> string" where
  \<open>session_line ts rt = ''{"type":"event_msg","timestamp":"'' @ ts @ ''","payload":{"type":"'' @ rt @ ''"}}''\<close>

definition session_json :: "string \<Rightarrow> string \<Rightarrow> json" where
  "session_json ts rt =
     JObj [(''type'', JStr ''event_msg''), (''timestamp'', JStr ts),
           (''payload'', JObj [(''type'', JStr rt)])]"

definition line_started :: string where
  "line_started = session_line ''2026-02-28T10:00:00.000Z'' ''task_started''"

definition line_message1 :: string where
  "line_message1 = session_line ''2026-02-28T10:00:01.000Z'' ''agent_message''"

definition line_message2 :: string where
  "line_message2 = session_line ''2026-02-28T10:00:02.000Z'' ''agent_message''"

definition line_complete :: string where
  "line_complete = session_line ''2026-02-28T10:00:03.000Z'' ''task_complete''"

definition newline :: string where
  "newline = [CHR 0x0A]"

definition partial_line :: string where
  \<open>partial_line = ''{"type":"eve''\<close>

definition session_path :: string where
  "session_path = ''/codex/sessions/2026/02/28/session.jsonl''"

definition stop_on_complete_run :: hook_run where
  "stop_on_complete_run =
     \<lparr>command = ''echo stop >> stop.log'', timeoutSec = Num 10,
      contextEnv = hook_env ''TaskComplete'' ''task_complete'' ''task_complete''\<rparr>"

definition complete_run :: hook_run where
  "complete_run =
     \<lparr>command = ''echo complete >> task-complete.log'', timeoutSec = Num 10,
      contextEnv = hook_env ''TaskComplete'' ''task_complete'' ''task_complete''\<rparr>"

definition simple_event :: "string \<Rightarrow> int \<Rightarrow> event" where
  "simple_event rt sec =
     \<lparr>rawType = rt, payload = JObj [(''type'', JStr rt)], eventTimestampSec = Some sec\<rparr>"

definition after_first_read :: state where
  "after_first_read =
     \<lparr>offsets = [session_path \<mapsto> 107], remainders = [session_path \<mapsto> partial_line],
      recentEvents = [(line_complete, 0)], sinceEpochSec = None, clock_reads = 1\<rparr>"

definition after_truncation :: state where
  "after_truncation =
     \<lparr>offsets = [session_path \<mapsto> 94], remainders = [session_path \<mapsto> []],
      recentEvents = [(line_complete, 0), (line_started, 1000)], sinceEpochSec = None,
      clock_reads = 2\<rparr>"

text \<open>Lock files and lock worlds of the examples.\<close>

definition lock_text :: "string \<Rightarrow> string" where
  \<open>lock_text pid = ''{"pid":'' @ pid @ '',"createdAt":"2026-02-28T09:00:00.000Z"}''\<close>

definition quiet_world :: "lock_entry \<Rightarrow> lock_world" where
  "quiet_world f = \<lparr>lock_file = f, others = [], fs_ops = []\<rparr>"

definition test_created_at :: string where
  "test_created_at = ''2026-02-28T10:00:00.000Z''"

definition own_lock_text :: string where
  \<open>own_lock_text = ''{"pid":4242,"createdAt":"2026-02-28T10:00:00.000Z"}''\<close>

definition racing_world :: lock_world where
  "racing_world =
     \<lparr>lock_file = LockFile (lock_text ''555''),
      others = [Quiet, Quiet, Quiet, Quiet, Quiet, Change (LockFile (lock_text ''777''))],
      fs_ops = []\<rparr>"

definition watch_options :: options where
  "watch_options = \<lparr>codexHome = test_home, projectRoot = None, since = None, emitStop = False\<rparr>"

text \<open>
  A sequence of dedup checks, one per signature, each reading the clock once; and the
  two policies the specification words, for comparison with the code: the sliding
  window over a plain map (a signature is a duplicate if it was last seen within the
  TTL, and every check records the current time), and the eviction that purges every
  entry older than the TTL first and then drops entries in insertion order while the
  cache is over capacity.
\<close>

fun check_all :: "host \<Rightarrow> state \<Rightarrow> string list \<Rightarrow> bool list \<times> state" where
  "check_all h st [] = ([], st)"
| "check_all h st (s # ss) =
     (case recordAndCheckDuplicateEvent h st s of
        (d, st1) \<Rightarrow> (case check_all h st1 ss of (ds, st2) \<Rightarrow> (d # ds, st2)))"

fun spec_window :: "(nat \<Rightarrow> int) \<Rightarrow> nat \<Rightarrow> (string \<Rightarrow> int option) \<Rightarrow> string list \<Rightarrow> bool list" where
  "spec_window clock k seen [] = []"
| "spec_window clock k seen (s # ss) =
     (case seen s of None \<Rightarrow> False | Some t \<Rightarrow> clock k - t \<le> RECENT_EVENT_TTL_MS)
     # spec_window clock (Suc k) (seen(s \<mapsto> clock k)) ss"

definition spec_eviction :: "int \<Rightarrow> (string \<times> int) list \<Rightarrow> (string \<times> int) list" where
  "spec_eviction nowMs entries =
     (let fresh = filter (\<lambda>e. \<not> nowMs - snd e > RECENT_EVENT_TTL_MS) entries
      in drop (length fresh - RECENT_EVENT_MAX) fresh)"

definition cache_ok :: "state \<Rightarrow> bool" where
  "cache_ok st =
     (distinct (map fst (recentEvents st)) \<and> length (recentEvents st) \<le> RECENT_EVENT_MAX)"

text \<open>
  Lines and clocks of the dedup examples: \<open>warmup_lines n\<close> are \<open>n + 1\<close> different texts,
  the text \<open>a\<close> first; \<open>fast_host\<close> reads the clock one millisecond later at each check;
  \<open>refresh_host\<close> reads time 0 for the first 2000 checks, then 40000, 40001, ...
\<close>

definition filler :: "nat \<Rightarrow> string" where
  "filler n = replicate (Suc n) CHR ''x''"

definition warmup_lines :: "nat \<Rightarrow> string list" where
  "warmup_lines n = ''a'' # map filler [0..<n]"

definition fast_host :: host where
  "fast_host = test_host\<lparr>Date_now := (\<lambda>k. int k)\<rparr>"

definition refresh_host :: host where
  "refresh_host =
     test_host\<lparr>Date_now := (\<lambda>k. if k < 2000 then 0 else 40000 + int (k - 2000))\<rparr>"

definition late_state :: state where
  "late_state =
     \<lparr>offsets = Map.empty, remainders = Map.empty, recentEvents = [],
      sinceEpochSec = None, clock_reads = 2\<rparr>"

text \<open>
  The once-mode scenario: a manifest with the single rule \<open>TaskComplete\<close> and the session
  log of the repository's bridge test, four lines that each end with a newline.
\<close>

definition one_rule_manifest_text :: string where
  \<open>one_rule_manifest_text = ''{"plugins":[{"rootPath":"/codex/plugins/claude-home/demo-stop-plugin","events":[{"eventName":"TaskComplete","matcher":null,"commands":[{"command":"echo complete >> out.log","timeout":10}]}]}],"topHooks":[]}''\<close>

definition one_command :: json where
  "one_command = JObj [(''command'', JStr ''echo complete >> out.log''), (''timeout'', JNum (Num 10))]"

definition one_rule :: json where
  "one_rule =
     JObj [(''eventName'', JStr ''TaskComplete''), (''matcher'', JNull),
           (''commands'', JArr [one_command])]"

definition one_rule_source :: json where
  "one_rule_source =
     JObj [(''rootPath'', JStr ''/codex/plugins/claude-home/demo-stop-plugin''),
           (''events'', JArr [one_rule])]"

definition one_rule_manifest :: manifest where
  "one_rule_manifest =
     \<lparr>manifestPath = test_manifest_path, plugins = [one_rule_source], topHooks = []\<rparr>"

definition session_lines :: "string list" where
  "session_lines = [line_started, line_message1, line_message2, line_complete]"

definition session_events :: "event list" where
  "session_events =
     [simple_event ''task_started'' 1772272800, simple_event ''agent_message'' 1772272801,
      simple_event ''agent_message'' 1772272802, simple_event ''task_complete'' 1772272803]"

definition session_log :: session_file where
  "session_log =
     \<lparr>sf_name = ''session.jsonl'', sf_path = session_path, sf_mtimeMs = 1772272803000,
      sf_bytes = concat (map (\<lambda>l. l @ [CHR 0x0A]) session_lines)\<rparr>"

definition out_log_run :: hook_run where
  "out_log_run =
     \<lparr>command = ''echo complete >> out.log'', timeoutSec = Num 10,
      contextEnv = hook_env ''TaskComplete'' ''task_complete'' ''task_complete''\<rparr>"

text \<open>
  Events that carry every part of the matcher text, the command as an array of words
  and as one string.
\<close>

definition full_event :: event where
  "full_event =
     \<lparr>rawType = ''exec_approval_request'',
      payload = JObj [(''command'', JArr [JStr ''rm'', JStr ''-rf'', JStr ''/tmp'']),
                      (''reason'', JStr ''cleanup''), (''justification'', JStr ''disk full''),
                      (''tool_name'', JStr ''shell''), (''call_id'', JStr ''call_1'')],
      eventTimestampSec = None\<rparr>"

definition worded_event :: event where
  "worded_event =
     \<lparr>rawType = ''exec_approval_request'',
      payload = JObj [(''command'', JStr ''ls -l''), (''reason'', JStr ''listing''),
                      (''justification'', JStr ''no network''),
                      (''tool_name'', JStr ''shell''), (''call_id'', JStr ''call_2'')],
      eventTimestampSec = None\<rparr>"

text \<open>
  The four lines of the session log followed by the start of a fifth, and the state
  after the first read of that file.
\<close>

definition four_line_log :: string where
  "four_line_log = concat (map (\<lambda>l. l @ [CHR 0x0A]) session_lines) @ partial_line"

definition after_four_lines :: state where
  "after_four_lines =
     \<lparr>offsets = [session_path \<mapsto> 391], remainders = [session_path \<mapsto> partial_line],
      recentEvents = [(line_started, 0), (line_message1, 1000), (line_message2, 80000),
                      (line_complete, 120000)],
      sinceEpochSec = None, clock_reads = 4\<rparr>"

text \<open>
  The same read under a since floor equal to the timestamp of the last line: the three
  lines stamped before the floor are skipped and leave no entry in the dedup cache.
\<close>

definition floor_options :: options where
  "floor_options = once_options\<lparr>since := Some 1772272803\<rparr>"

definition after_floor_read :: state where
  "after_floor_read =
     \<lparr>offsets = [session_path \<mapsto> 391], remainders = [session_path \<mapsto> partial_line],
      recentEvents = [(line_complete, 0)], sinceEpochSec = Some 1772272803, clock_reads = 1\<rparr>"

section \<open>Properties\<close>

subsection \<open>Event name mapping\<close>

lemma mapEventNames_Stop: "mapEventNames ''Stop'' = Inr [''Stop'']"
  by (simp add: mapEventNames_def CODEX_EVENT_MAP_get_def CODEX_EVENT_MAP_def
      Object_prototype_keys_def)

lemma mapEventNames_task_complete:
  "mapEventNames ''task_complete'' = Inr [''TaskComplete'', ''Stop'', ''task_complete'']"
  by (simp add: mapEventNames_def CODEX_EVENT_MAP_get_def CODEX_EVENT_MAP_def)

text \<open>
  Outside the names inherited from \<open>Object.prototype\<close> the mapper returns a list, and the
  list holds the raw type.
\<close>

lemma mapEventNames_outside_prototype:
  "rt \<notin> set Object_prototype_keys \<Longrightarrow>
     \<exists>names. mapEventNames rt = Inr names \<and> rt \<in> set names"
  by (simp add: mapEventNames_def CODEX_EVENT_MAP_get_def split: option.splits)

text \<open>
  C7. The claim: for every raw type the list the mapper returns contains the raw type.
  For the raw type \<open>constructor\<close> the mapper returns no list: the table read finds the
  inherited \<open>Object\<close> function, which is truthy, and its spread throws a TypeError.
\<close>

theorem mapEventNames_constructor_throws:
  "mapEventNames ''constructor'' = Inl TypeError
   \<and> \<not> (\<exists>names. mapEventNames ''constructor'' = Inr names \<and> ''constructor'' \<in> set names)"
  by (simp add: mapEventNames_def CODEX_EVENT_MAP_get_def CODEX_EVENT_MAP_def
      Object_prototype_keys_def)

subsection \<open>Matcher evaluation\<close>

text \<open>
  C9. A rule whose matcher is absent, \<open>null\<close> or empty matches every text; a matcher that
  does not compile matches no text (and \<open>matchesRule\<close> returns a truth value in every
  case, it never raises); a matcher that compiles matches exactly when the regular
  expression matches the text. A rule fires only if its matcher matches the synthesized
  text. That text is built from the event alone: the raw type, then the tool name if it
  is a string, then the command (an array joined by single spaces, its \<open>null\<close> elements
  empty, or a string), then the reason, the justification and the call identifier, each
  if it is a string, all joined by single spaces. With all five present as strings the
  text is the six parts in that order; with none of them, or with a payload that is
  not an object, it is the raw type alone.
\<close>

theorem matcher_evaluation:
  "(\<not> truthy_opt matcher \<longrightarrow> matchesRule h matcher mt)
   \<and> (truthy m \<and> RegExp_compile h (ToString h m) = None \<longrightarrow> \<not> matchesRule h (Some m) mt)
   \<and> (truthy m \<and> RegExp_compile h (ToString h m) = Some test
        \<longrightarrow> matchesRule h (Some m) mt = test mt)
   \<and> (rule_fires h names (buildMatcherText h ev) eventDef
        \<longrightarrow> matchesRule h (get_prop eventDef ''matcher'') (buildMatcherText h ev))
   \<and> buildMatcherText h \<lparr>rawType = rt, payload = JObj kvs, eventTimestampSec = ts\<rparr>
       = js_join '' ''
           ([rt]
            @ (case map_of kvs ''tool_name'' of Some (JStr s) \<Rightarrow> [s] | _ \<Rightarrow> [])
            @ (case map_of kvs ''command'' of
                 Some (JArr xs) \<Rightarrow>
                   [js_join '' '' (map (\<lambda>v. if v = JNull then [] else ToString h v) xs)]
               | Some (JStr s) \<Rightarrow> [s]
               | _ \<Rightarrow> [])
            @ (case map_of kvs ''reason'' of Some (JStr s) \<Rightarrow> [s] | _ \<Rightarrow> [])
            @ (case map_of kvs ''justification'' of Some (JStr s) \<Rightarrow> [s] | _ \<Rightarrow> [])
            @ (case map_of kvs ''call_id'' of Some (JStr s) \<Rightarrow> [s] | _ \<Rightarrow> []))
   \<and> (map_of kvs ''tool_name'' = Some (JStr tool) \<and> map_of kvs ''command'' = Some (JStr cmd)
        \<and> map_of kvs ''reason'' = Some (JStr reason)
        \<and> map_of kvs ''justification'' = Some (JStr just)
        \<and> map_of kvs ''call_id'' = Some (JStr callid)
        \<longrightarrow> buildMatcherText h \<lparr>rawType = rt, payload = JObj kvs, eventTimestampSec = ts\<rparr>
              = rt @ '' '' @ tool @ '' '' @ cmd @ '' '' @ reason @ '' '' @ just @ '' '' @ callid)
   \<and> (map_of kvs ''tool_name'' = None \<and> map_of kvs ''command'' = None
        \<and> map_of kvs ''reason'' = None \<and> map_of kvs ''justification'' = None
        \<and> map_of kvs ''call_id'' = None
        \<longrightarrow> buildMatcherText h \<lparr>rawType = rt, payload = JObj kvs, eventTimestampSec = ts\<rparr> = rt)
   \<and> ((\<forall>props. pl \<noteq> JObj props)
        \<longrightarrow> buildMatcherText h \<lparr>rawType = rt, payload = pl, eventTimestampSec = ts\<rparr> = rt)"
proof -
  have build: "buildMatcherText h \<lparr>rawType = rt, payload = JObj kvs, eventTimestampSec = ts\<rparr>
       = js_join '' ''
           ([rt]
            @ (case map_of kvs ''tool_name'' of Some (JStr s) \<Rightarrow> [s] | _ \<Rightarrow> [])
            @ (case map_of kvs ''command'' of
                 Some (JArr xs) \<Rightarrow>
                   [js_join '' '' (map (\<lambda>v. if v = JNull then [] else ToString h v) xs)]
               | Some (JStr s) \<Rightarrow> [s]
               | _ \<Rightarrow> [])
            @ (case map_of kvs ''reason'' of Some (JStr s) \<Rightarrow> [s] | _ \<Rightarrow> [])
            @ (case map_of kvs ''justification'' of Some (JStr s) \<Rightarrow> [s] | _ \<Rightarrow> [])
            @ (case map_of kvs ''call_id'' of Some (JStr s) \<Rightarrow> [s] | _ \<Rightarrow> []))"
  proof -
    have cp: "command_part h v =
        (case v of
           Some (JArr xs) \<Rightarrow>
             [js_join '' '' (map (\<lambda>v. if v = JNull then [] else ToString h v) xs)]
         | Some (JStr s) \<Rightarrow> [s]
         | _ \<Rightarrow> [])" for v
      by (simp add: command_part_def Array_join_def split: option.splits json.splits)
    show ?thesis
      by (simp add: buildMatcherText_def string_part_def cp)
  qed
  have full: "map_of kvs ''tool_name'' = Some (JStr tool) \<and> map_of kvs ''command'' = Some (JStr cmd)
        \<and> map_of kvs ''reason'' = Some (JStr reason)
        \<and> map_of kvs ''justification'' = Some (JStr just)
        \<and> map_of kvs ''call_id'' = Some (JStr callid)
        \<longrightarrow> buildMatcherText h \<lparr>rawType = rt, payload = JObj kvs, eventTimestampSec = ts\<rparr>
              = rt @ '' '' @ tool @ '' '' @ cmd @ '' '' @ reason @ '' '' @ just @ '' '' @ callid"
    by (simp add: build)
  have bare: "map_of kvs ''tool_name'' = None \<and> map_of kvs ''command'' = None
        \<and> map_of kvs ''reason'' = None \<and> map_of kvs ''justification'' = None
        \<and> map_of kvs ''call_id'' = None
        \<longrightarrow> buildMatcherText h \<lparr>rawType = rt, payload = JObj kvs, eventTimestampSec = ts\<rparr> = rt"
    by (simp add: build)
  have other: "(\<forall>props. pl \<noteq> JObj props)
        \<longrightarrow> buildMatcherText h \<lparr>rawType = rt, payload = pl, eventTimestampSec = ts\<rparr> = rt"
    by (cases pl) (simp_all add: buildMatcherText_def string_part_def command_part_def)
  have m1: "\<not> truthy_opt matcher \<longrightarrow> matchesRule h matcher mt"
    by (simp add: matchesRule_def)
  have m2: "truthy m \<and> RegExp_compile h (ToString h m) = None \<longrightarrow> \<not> matchesRule h (Some m) mt"
    by (simp add: matchesRule_def truthy_opt_def)
  have m3: "truthy m \<and> RegExp_compile h (ToString h m) = Some test
        \<longrightarrow> matchesRule h (Some m) mt = test mt"
    by (simp add: matchesRule_def truthy_opt_def)
  have m4: "rule_fires h names (buildMatcherText h ev) eventDef
        \<longrightarrow> matchesRule h (get_prop eventDef ''matcher'') (buildMatcherText h ev)"
    by (simp add: rule_fires_def)
  show ?thesis
    by (intro conjI m1 m2 m3 m4 build full bare other)
qed

lemma rm_event_text: "buildMatcherText test_host rm_event = ''exec_approval_request rm -rf /tmp''"
  by (simp add: buildMatcherText_def rm_event_def string_part_def command_part_def
      Array_join_def)

theorem matcher_evaluation_witness:
  "buildMatcherText test_host rm_event = ''exec_approval_request rm -rf /tmp''
   \<and> matchesRule test_host None (buildMatcherText test_host rm_event)
   \<and> matchesRule test_host (Some JNull) (buildMatcherText test_host rm_event)
   \<and> matchesRule test_host (Some (JStr [])) (buildMatcherText test_host rm_event)
   \<and> \<not> matchesRule test_host (Some (JStr ''('')) (buildMatcherText test_host rm_event)
   \<and> \<not> matchesRule test_host (Some (JStr ''^deploy'')) (buildMatcherText test_host rm_event)
   \<and> matchesRule test_host (Some (JStr ''rm -rf'')) (buildMatcherText test_host rm_event)
   \<and> buildMatcherText test_host full_event
       = ''exec_approval_request shell rm -rf /tmp cleanup disk full call_1''
   \<and> buildMatcherText test_host worded_event
       = ''exec_approval_request shell ls -l listing no network call_2''
   \<and> buildMatcherText test_host (simple_event ''task_complete'' 0) = ''task_complete''
   \<and> buildMatcherText test_host
        \<lparr>rawType = ''Stop'', payload = JNull, eventTimestampSec = None\<rparr> = ''Stop''
   \<and> matchesRule test_host (Some (JStr ''call_1'')) (buildMatcherText test_host full_event)
   \<and> \<not> matchesRule test_host (Some (JStr ''^shell'')) (buildMatcherText test_host full_event)"
proof -
  let ?t = "''exec_approval_request rm -rf /tmp''"
  let ?f = "''exec_approval_request shell rm -rf /tmp cleanup disk full call_1''"
  note T = matcher_evaluation [where h = test_host]
  note build = T [THEN conjunct2, THEN conjunct2, THEN conjunct2, THEN conjunct2, THEN conjunct1]
  note full = T [THEN conjunct2, THEN conjunct2, THEN conjunct2, THEN conjunct2, THEN conjunct2,
      THEN conjunct1, rule_format]
  note bare = T [THEN conjunct2, THEN conjunct2, THEN conjunct2, THEN conjunct2, THEN conjunct2,
      THEN conjunct2, THEN conjunct1, rule_format]
  note other = T [THEN conjunct2, THEN conjunct2, THEN conjunct2, THEN conjunct2, THEN conjunct2,
      THEN conjunct2, THEN conjunct2, rule_format]
  have c1: "RegExp_compile test_host (ToString test_host (JStr ''('')) = None"
    by (simp add: test_host_def test_RegExp_compile_def plain_char_def is_digit_def)
  have c2: "RegExp_compile test_host (ToString test_host (JStr ''^deploy''))
              = Some (\<lambda>text. take (length ''deploy'') text = ''deploy'')"
    by (simp add: test_host_def test_RegExp_compile_def plain_char_def is_digit_def)
  have c3: "RegExp_compile test_host (ToString test_host (JStr ''rm -rf''))
              = Some (contains ''rm -rf'')"
    by (simp add: test_host_def test_RegExp_compile_def plain_char_def is_digit_def)
  have c4: "RegExp_compile test_host (ToString test_host (JStr ''call_1''))
              = Some (contains ''call_1'')"
    by (simp add: test_host_def test_RegExp_compile_def plain_char_def is_digit_def)
  have c5: "RegExp_compile test_host (ToString test_host (JStr ''^shell''))
              = Some (\<lambda>text. take (length ''shell'') text = ''shell'')"
    by (simp add: test_host_def test_RegExp_compile_def plain_char_def is_digit_def)
  have t1: "buildMatcherText test_host rm_event = ?t"
    using build [of "rawType rm_event" _ "eventTimestampSec rm_event"]
    by (simp add: rm_event_def)
  have t2: "buildMatcherText test_host full_event = ?f"
    using build [of "rawType full_event" _ "eventTimestampSec full_event"]
    by (simp add: full_event_def)
  have t3: "buildMatcherText test_host worded_event
              = ''exec_approval_request shell ls -l listing no network call_2''"
    using full [of _ "''shell''" "''ls -l''" "''listing''" "''no network''" "''call_2''"
        "''exec_approval_request''" None]
    by (simp add: worded_event_def)
  have t4: "buildMatcherText test_host (simple_event ''task_complete'' 0) = ''task_complete''"
    using bare [of "[(''type'', JStr ''task_complete'')]" "''task_complete''" "Some 0"]
    by (simp add: simple_event_def)
  have t5: "buildMatcherText test_host
        \<lparr>rawType = ''Stop'', payload = JNull, eventTimestampSec = None\<rparr> = ''Stop''"
    by (rule other) simp
  have m0: "matchesRule test_host None ?t" "matchesRule test_host (Some JNull) ?t"
    "matchesRule test_host (Some (JStr [])) ?t"
    by (rule T [THEN conjunct1, rule_format], simp add: truthy_opt_def)+
  have m1: "\<not> matchesRule test_host (Some (JStr ''('')) ?t"
    using T [THEN conjunct2, THEN conjunct1, rule_format, of "JStr ''(''" ?t] c1
    by simp
  have m2: "\<not> matchesRule test_host (Some (JStr ''^deploy'')) ?t"
    using T [THEN conjunct2, THEN conjunct2, THEN conjunct1, rule_format,
        of "JStr ''^deploy''" "\<lambda>text. take (length ''deploy'') text = ''deploy''" ?t] c2
    by simp
  have m3: "matchesRule test_host (Some (JStr ''rm -rf'')) ?t"
    using T [THEN conjunct2, THEN conjunct2, THEN conjunct1, rule_format,
        of "JStr ''rm -rf''" "contains ''rm -rf''" ?t] c3
    by simp
  have m4: "matchesRule test_host (Some (JStr ''call_1'')) ?f"
    using T [THEN conjunct2, THEN conjunct2, THEN conjunct1, rule_format,
        of "JStr ''call_1''" "contains ''call_1''" ?f] c4
    by simp
  have m5: "\<not> matchesRule test_host (Some (JStr ''^shell'')) ?f"
    using T [THEN conjunct2, THEN conjunct2, THEN conjunct1, rule_format,
        of "JStr ''^shell''" "\<lambda>text. take (length ''shell'') text = ''shell''" ?f] c5
    by simp
  show ?thesis
    by (simp only: t1 t2 t3 t4 t5) (intro conjI refl m0 m1 m2 m3 m4 m5)
qed

subsection \<open>Evaluation on the example host\<close>

lemmas parse_simps = test_JSON_parse_def json_ws_def is_digit_def digit_val_def read_number_def

lemma not_blank_first: "s \<noteq> [] \<Longrightarrow> \<not> is_ws (hd s) \<Longrightarrow> \<not> is_blank s"
  by (cases s) (auto simp: is_blank_def js_trim_def)

lemma parse_two_rule:
  "test_JSON_parse two_rule_manifest_text =
     Some (JObj [(''version'', JNum (Num 1)), (''projectRoot'', JNull),
                 (''plugins'', JArr two_rule_plugins), (''topHooks'', JArr [])])"
  by (simp add: parse_simps two_rule_manifest_text_def two_rule_plugins_def)

lemma read_two_rule:
  "readManifest test_host (fs_with_manifest two_rule_manifest_text files) test_home
     = Inr two_rule_manifest"
  using parse_two_rule
  by (simp add: readManifest_def readJsonIfExists_def fs_with_manifest_def path_join_def
      BRIDGE_MANIFEST_RELATIVE_PATH_def test_home_def test_manifest_path_def test_host_def
      two_rule_manifest_def not_blank_first two_rule_manifest_text_def is_ws_def)

lemmas dispatch_simps = buildMatcherText_def string_part_def command_part_def
  getAllHookSources_def run_source_def run_rule_def rule_fires_def matchesRule_def
  truthy_opt_def run_command_def is_blank_def js_trim_def is_ws_def or_empty_def
  safeStringValue_def hook_env_def

lemma exec_stop: "executeEvent test_host two_rule_manifest stop_event None = ([stop_run], None)"
  by (simp add: executeEvent_def mapEventNames_Stop stop_event_def two_rule_manifest_def
      two_rule_plugins_def stop_run_def dispatch_simps)

subsection \<open>The terminal event of \<open>--emit-stop\<close>\<close>

text \<open>
  C10. The event dispatched under \<open>--emit-stop\<close> has raw type \<open>Stop\<close> and an empty
  payload, and its expanded name list is exactly \<open>[Stop]\<close>. When the pass over the files
  has ended, \<open>runOnce\<close> dispatches it with \<open>executeEvent\<close> directly: the dispatch takes
  neither the since floor nor the dedup cache, so it is the same for every floor and
  every cache the pass left, and with no session file the run is this dispatch alone.
  The dispatch runs the rules against the name list \<open>[Stop]\<close> and the matcher text
  \<open>Stop\<close>, and a rule whose event name is not \<open>Stop\<close> runs nothing.
\<close>

theorem emit_stop_dispatch:
  "rawType stop_event = ''Stop'' \<and> payload stop_event = JObj []
   \<and> mapEventNames (rawType stop_event) = Inr [''Stop'']
   \<and> (readManifest h fs (codexHome opts) = Inr m \<and> emitStop opts
        \<and> process_files h fs m (projectRoot opts) (initial_state opts)
             (collectSessionFiles h fs (since opts)) = (st, runs, None)
       \<longrightarrow> runOnce h fs opts
             = (runs @ fst (executeEvent h m stop_event (projectRoot opts)),
                snd (executeEvent h m stop_event (projectRoot opts))))
   \<and> (readManifest h fs (codexHome opts) = Inr m \<and> emitStop opts
        \<and> collectSessionFiles h fs (since opts) = []
       \<longrightarrow> runOnce h fs opts = executeEvent h m stop_event (projectRoot opts))
   \<and> executeEvent h m stop_event pr
       = run_sources h [''Stop''] stop_event ''Stop'' pr (plugins m @ topHooks m)
   \<and> (get_prop eventDef ''eventName'' \<noteq> Some (JStr ''Stop'')
       \<longrightarrow> run_rule h source [''Stop''] stop_event ''Stop'' pr eventDef = [])"
proof -
  have names: "mapEventNames (rawType stop_event) = Inr [''Stop'']"
    by (simp add: stop_event_def mapEventNames_Stop)
  have mtext: "buildMatcherText h stop_event = ''Stop''"
    by (simp add: buildMatcherText_def stop_event_def string_part_def command_part_def)
  have once: "readManifest h fs (codexHome opts) = Inr m \<and> emitStop opts
        \<and> process_files h fs m (projectRoot opts) (initial_state opts)
             (collectSessionFiles h fs (since opts)) = (st, runs, None)
       \<longrightarrow> runOnce h fs opts
             = (runs @ fst (executeEvent h m stop_event (projectRoot opts)),
                snd (executeEvent h m stop_event (projectRoot opts)))"
    by (simp add: runOnce_def split: prod.splits)
  have nofiles: "readManifest h fs (codexHome opts) = Inr m \<and> emitStop opts
        \<and> collectSessionFiles h fs (since opts) = []
       \<longrightarrow> runOnce h fs opts = executeEvent h m stop_event (projectRoot opts)"
    by (simp add: runOnce_def split: prod.splits)
  have exec: "executeEvent h m stop_event pr
       = run_sources h [''Stop''] stop_event ''Stop'' pr (plugins m @ topHooks m)"
    by (simp add: executeEvent_def names mtext getAllHookSources_def)
  have rule: "get_prop eventDef ''eventName'' \<noteq> Some (JStr ''Stop'')
       \<longrightarrow> run_rule h source [''Stop''] stop_event ''Stop'' pr eventDef = []"
    by (auto simp: run_rule_def rule_fires_def split: option.splits json.splits)
  show ?thesis
    using names once nofiles exec rule by (simp add: stop_event_def)
qed

theorem emit_stop_dispatch_witness:
  "runOnce test_host (fs_with_manifest two_rule_manifest_text []) (stop_options None)
     = ([stop_run], None)
   \<and> runOnce test_host (fs_with_manifest two_rule_manifest_text []) (stop_options (Some 1772272800))
     = ([stop_run], None)
   \<and> run_rule test_host (hd two_rule_plugins) [''Stop''] stop_event ''Stop'' None
        (JObj [(''eventName'', JStr ''TaskComplete''), (''matcher'', JNull),
               (''commands'',
                  JArr [JObj [(''command'', JStr ''echo complete >> task-complete.log''),
                              (''timeout'', JNum (Num 10))]])]) = []"
proof -
  have nofile: "collectSessionFiles test_host (fs_with_manifest two_rule_manifest_text []) s = []" for s
    by (simp add: collectSessionFiles_def fs_with_manifest_def test_host_def)
  have opts: "codexHome (stop_options s) = test_home" "emitStop (stop_options s)"
    "projectRoot (stop_options s) = None" "since (stop_options s) = s" for s
    by (simp_all add: stop_options_def)
  have a: "runOnce test_host (fs_with_manifest two_rule_manifest_text []) (stop_options None)
             = executeEvent test_host two_rule_manifest stop_event None"
    using emit_stop_dispatch [where h = test_host and m = two_rule_manifest
        and fs = "fs_with_manifest two_rule_manifest_text []" and opts = "stop_options None"]
    by (simp add: read_two_rule nofile opts)
  have b: "runOnce test_host (fs_with_manifest two_rule_manifest_text [])
             (stop_options (Some 1772272800))
             = executeEvent test_host two_rule_manifest stop_event None"
    using emit_stop_dispatch [where h = test_host and m = two_rule_manifest
        and fs = "fs_with_manifest two_rule_manifest_text []"
        and opts = "stop_options (Some 1772272800)"]
    by (simp add: read_two_rule nofile opts)
  have c: "run_rule test_host (hd two_rule_plugins) [''Stop''] stop_event ''Stop'' None
        (JObj [(''eventName'', JStr ''TaskComplete''), (''matcher'', JNull),
               (''commands'',
                  JArr [JObj [(''command'', JStr ''echo complete >> task-complete.log''),
                              (''timeout'', JNum (Num 10))]])]) = []"
    using emit_stop_dispatch [where source = "hd two_rule_plugins" and pr = None
        and h = test_host
        and eventDef = "JObj [(''eventName'', JStr ''TaskComplete''), (''matcher'', JNull),
               (''commands'',
                  JArr [JObj [(''command'', JStr ''echo complete >> task-complete.log''),
                              (''timeout'', JNum (Num 10))]])]"]
    by simp
  show ?thesis
    using a b c by (simp add: exec_stop)
qed

subsection \<open>Normalization of tool calls\<close>

lemma get_prop_Some_obj: "get_prop v k = Some x \<Longrightarrow> truthy v \<and> typeof (Some v) = ''object''"
  by (cases v) auto

lemma fce_accept:
  assumes "get_prop pl ''type'' = Some (JStr ''function_call'')"
    and "get_prop pl ''name'' = Some (JStr name)" and "name \<noteq> []"
    and "JSON_parse h (arguments_text h pl) = Some (JObj args)"
    and "map_of args ''sandbox_permissions'' = Some (JStr ''require_escalated'')"
  shows "function_call_event h parsed pl = Some (tool_event h parsed pl name args)"
  using assms get_prop_Some_obj [OF assms(1)]
  by (simp add: function_call_event_def tool_event_def)

lemma fce_reject_type:
  "get_prop pl ''type'' \<noteq> Some (JStr ''function_call'') \<Longrightarrow> function_call_event h parsed pl = None"
  by (simp add: function_call_event_def)

lemma fce_reject_name:
  "(\<forall>n. get_prop pl ''name'' \<noteq> Some (JStr n)) \<or> get_prop pl ''name'' = Some (JStr [])
     \<Longrightarrow> function_call_event h parsed pl = None"
  by (auto simp: function_call_event_def split: option.splits json.splits)

lemma fce_reject_parse:
  "JSON_parse h (arguments_text h pl) = None \<Longrightarrow> function_call_event h parsed pl = None"
  by (simp add: function_call_event_def Let_def)

lemma fce_reject_perm:
  "JSON_parse h (arguments_text h pl) = Some a \<Longrightarrow>
   get_prop a ''sandbox_permissions'' \<noteq> Some (JStr ''require_escalated'') \<Longrightarrow>
   function_call_event h parsed pl = None"
  by (simp add: function_call_event_def Let_def)

lemma fce_Some:
  assumes "function_call_event h parsed pl = Some ev"
  shows "\<exists>name args. get_prop pl ''type'' = Some (JStr ''function_call'')
          \<and> get_prop pl ''name'' = Some (JStr name) \<and> name \<noteq> []
          \<and> JSON_parse h (arguments_text h pl) = Some (JObj args)
          \<and> map_of args ''sandbox_permissions'' = Some (JStr ''require_escalated'')
          \<and> ev = tool_event h parsed pl name args"
proof -
  have t: "get_prop pl ''type'' = Some (JStr ''function_call'')"
    using assms fce_reject_type by fastforce
  obtain name where n: "get_prop pl ''name'' = Some (JStr name)" "name \<noteq> []"
    using assms fce_reject_name [of pl h parsed] by fastforce
  obtain a where a: "JSON_parse h (arguments_text h pl) = Some a"
    using assms fce_reject_parse [of h pl parsed] by fastforce
  have perm: "get_prop a ''sandbox_permissions'' = Some (JStr ''require_escalated'')"
    using assms fce_reject_perm [OF a, of parsed] by fastforce
  then obtain args where args: "a = JObj args"
    by (cases a) auto
  have "function_call_event h parsed pl = Some (tool_event h parsed pl name args)"
    using fce_accept [OF t n] a perm args by simp
  with assms t n a perm args show ?thesis by auto
qed

text \<open>
  C6. For a record of type \<open>response_item\<close> with payload \<open>pl\<close>: the record is accepted only
  if the payload is a \<open>function_call\<close> with a non-empty tool name whose arguments text
  decodes to an object with \<open>sandbox_permissions\<close> equal to \<open>require_escalated\<close>, and then
  the raw type is the patch approval name exactly when the tool is \<open>apply_patch\<close> and the
  exec approval name otherwise; every such record is accepted; a failure to parse the
  arguments, a missing or empty tool name and a request without the escalation each
  discard the record. The arguments text is the \<open>arguments\<close> string when that is a
  non-empty string.
\<close>

theorem function_call_normalization:
  assumes "JSON_parse h line = Some (JObj props)"
    and "map_of props ''type'' = Some (JStr ''response_item'')"
    and "map_of props ''payload'' = Some pl"
  shows
   "(parseCodexEvent h line = Some ev \<longrightarrow>
       (\<exists>name args. get_prop pl ''type'' = Some (JStr ''function_call'')
          \<and> get_prop pl ''name'' = Some (JStr name) \<and> name \<noteq> []
          \<and> JSON_parse h (arguments_text h pl) = Some (JObj args)
          \<and> map_of args ''sandbox_permissions'' = Some (JStr ''require_escalated'')
          \<and> ev = tool_event h (JObj props) pl name args
          \<and> rawType ev = (if name = ''apply_patch'' then ''apply_patch_approval_request''
                           else ''exec_approval_request'')))
    \<and> (get_prop pl ''type'' = Some (JStr ''function_call'')
         \<and> get_prop pl ''name'' = Some (JStr nm) \<and> nm \<noteq> []
         \<and> JSON_parse h (arguments_text h pl) = Some (JObj kvs)
         \<and> map_of kvs ''sandbox_permissions'' = Some (JStr ''require_escalated'')
        \<longrightarrow> parseCodexEvent h line = Some (tool_event h (JObj props) pl nm kvs))
    \<and> (JSON_parse h (arguments_text h pl) = None \<longrightarrow> parseCodexEvent h line = None)
    \<and> ((\<forall>n. get_prop pl ''name'' \<noteq> Some (JStr n)) \<or> get_prop pl ''name'' = Some (JStr [])
        \<longrightarrow> parseCodexEvent h line = None)
    \<and> (JSON_parse h (arguments_text h pl) = Some a
         \<and> get_prop a ''sandbox_permissions'' \<noteq> Some (JStr ''require_escalated'')
        \<longrightarrow> parseCodexEvent h line = None)
    \<and> (get_prop pl ''arguments'' = Some (JStr s) \<and> s \<noteq> [] \<longrightarrow> arguments_text h pl = s)"
proof -
  have pc: "parseCodexEvent h line = function_call_event h (JObj props) pl"
    using assms by (simp add: parseCodexEvent_def)
  have p1: "function_call_event h (JObj props) pl = Some ev \<longrightarrow>
       (\<exists>name args. get_prop pl ''type'' = Some (JStr ''function_call'')
          \<and> get_prop pl ''name'' = Some (JStr name) \<and> name \<noteq> []
          \<and> JSON_parse h (arguments_text h pl) = Some (JObj args)
          \<and> map_of args ''sandbox_permissions'' = Some (JStr ''require_escalated'')
          \<and> ev = tool_event h (JObj props) pl name args
          \<and> rawType ev = (if name = ''apply_patch'' then ''apply_patch_approval_request''
                           else ''exec_approval_request''))"
  proof
    assume "function_call_event h (JObj props) pl = Some ev"
    from fce_Some [OF this] obtain name args where
      f: "get_prop pl ''type'' = Some (JStr ''function_call'')"
        "get_prop pl ''name'' = Some (JStr name)" "name \<noteq> []"
        "JSON_parse h (arguments_text h pl) = Some (JObj args)"
        "map_of args ''sandbox_permissions'' = Some (JStr ''require_escalated'')"
        "ev = tool_event h (JObj props) pl name args"
      by blast
    have "rawType ev = (if name = ''apply_patch'' then ''apply_patch_approval_request''
                           else ''exec_approval_request'')"
      using f(6) by (simp add: tool_event_def)
    with f show "\<exists>name args. get_prop pl ''type'' = Some (JStr ''function_call'')
          \<and> get_prop pl ''name'' = Some (JStr name) \<and> name \<noteq> []
          \<and> JSON_parse h (arguments_text h pl) = Some (JObj args)
          \<and> map_of args ''sandbox_permissions'' = Some (JStr ''require_escalated'')
          \<and> ev = tool_event h (JObj props) pl name args
          \<and> rawType ev = (if name = ''apply_patch'' then ''apply_patch_approval_request''
                           else ''exec_approval_request'')"
      by blast
  qed
  have p2: "get_prop pl ''type'' = Some (JStr ''function_call'')
         \<and> get_prop pl ''name'' = Some (JStr nm) \<and> nm \<noteq> []
         \<and> JSON_parse h (arguments_text h pl) = Some (JObj kvs)
         \<and> map_of kvs ''sandbox_permissions'' = Some (JStr ''require_escalated'')
        \<longrightarrow> function_call_event h (JObj props) pl = Some (tool_event h (JObj props) pl nm kvs)"
    using fce_accept [of pl nm h kvs "JObj props"] by blast
  have p3: "JSON_parse h (arguments_text h pl) = None
        \<longrightarrow> function_call_event h (JObj props) pl = None"
    using fce_reject_parse by blast
  have p4: "(\<forall>n. get_prop pl ''name'' \<noteq> Some (JStr n)) \<or> get_prop pl ''name'' = Some (JStr [])
        \<longrightarrow> function_call_event h (JObj props) pl = None"
    using fce_reject_name [of pl h "JObj props"] by blast
  have p5: "JSON_parse h (arguments_text h pl) = Some a
         \<and> get_prop a ''sandbox_permissions'' \<noteq> Some (JStr ''require_escalated'')
        \<longrightarrow> function_call_event h (JObj props) pl = None"
    using fce_reject_perm [of h pl a "JObj props"] by blast
  have p6: "get_prop pl ''arguments'' = Some (JStr s) \<and> s \<noteq> [] \<longrightarrow> arguments_text h pl = s"
    by (simp add: arguments_text_def)
  show ?thesis
    unfolding pc by (intro conjI p1 p2 p3 p4 p5 p6)
qed

lemma parse_tool_line_shell:
  "test_JSON_parse (tool_line ''shell'' exec_args_text)
     = Some (JObj (tool_props ''shell'' exec_args_text))"
  by (simp add: parse_simps tool_line_def exec_args_text_def quote_def tool_props_def
      tool_payload_def)

lemma parse_tool_line_patch:
  "test_JSON_parse (tool_line ''apply_patch'' exec_args_text)
     = Some (JObj (tool_props ''apply_patch'' exec_args_text))"
  by (simp add: parse_simps tool_line_def exec_args_text_def quote_def tool_props_def
      tool_payload_def)

lemma parse_tool_line_plain:
  "test_JSON_parse (tool_line ''shell'' plain_args_text)
     = Some (JObj (tool_props ''shell'' plain_args_text))"
  by (simp add: parse_simps tool_line_def plain_args_text_def quote_def tool_props_def
      tool_payload_def)

lemma parse_tool_line_bad:
  "test_JSON_parse (tool_line ''shell'' ''{oops'')
     = Some (JObj (tool_props ''shell'' ''{oops''))"
  by (simp add: parse_simps tool_line_def quote_def tool_props_def tool_payload_def)

lemma parse_tool_line_noname:
  "test_JSON_parse (tool_line [] exec_args_text)
     = Some (JObj (tool_props [] exec_args_text))"
  by (simp add: parse_simps tool_line_def exec_args_text_def quote_def tool_props_def
      tool_payload_def)

lemma parse_exec_args:
  "test_JSON_parse exec_args_text
     = Some (JObj [(''command'', JArr [JStr ''rm'', JStr ''-rf'', JStr ''/tmp'']),
                   (''sandbox_permissions'', JStr ''require_escalated''),
                   (''justification'', JStr ''cleanup'')])"
  by (simp add: parse_simps exec_args_text_def)

lemma parse_plain_args:
  "test_JSON_parse plain_args_text = Some (JObj [(''command'', JArr [JStr ''ls''])])"
  by (simp add: parse_simps plain_args_text_def)

lemma parse_bad_args: "test_JSON_parse ''{oops'' = None"
  by (simp add: parse_simps)

theorem function_call_normalization_witness:
  "(\<exists>e. parseCodexEvent test_host (tool_line ''shell'' exec_args_text) = Some e
        \<and> rawType e = ''exec_approval_request'')
   \<and> (\<exists>e. parseCodexEvent test_host (tool_line ''apply_patch'' exec_args_text) = Some e
        \<and> rawType e = ''apply_patch_approval_request'')
   \<and> parseCodexEvent test_host (tool_line ''shell'' plain_args_text) = None
   \<and> parseCodexEvent test_host (tool_line ''shell'' ''{oops'') = None
   \<and> parseCodexEvent test_host (tool_line [] exec_args_text) = None"
proof -
  have host: "JSON_parse test_host = test_JSON_parse"
    by (simp add: test_host_def)
  have args: "a \<noteq> [] \<Longrightarrow> arguments_text test_host (tool_payload n a) = a" for n a
    by (simp add: arguments_text_def tool_payload_def)
  have p2: "map_of (tool_props n a) ''type'' = Some (JStr ''response_item'')" for n a
    by (simp add: tool_props_def)
  have p3: "map_of (tool_props n a) ''payload'' = Some (tool_payload n a)" for n a
    by (simp add: tool_props_def)
  have pl: "get_prop (tool_payload n a) ''type'' = Some (JStr ''function_call'')"
    "get_prop (tool_payload n a) ''name'' = Some (JStr n)" for n a
    by (simp_all add: tool_payload_def)
  have ne: "exec_args_text \<noteq> []" "plain_args_text \<noteq> []" "''{oops'' \<noteq> []"
    by (simp_all add: exec_args_text_def plain_args_text_def)
  note T = function_call_normalization [where h = test_host, unfolded host, OF _ p2 p3]
  have a1: "parseCodexEvent test_host (tool_line ''shell'' exec_args_text)
              = Some (tool_event test_host (JObj (tool_props ''shell'' exec_args_text))
                        (tool_payload ''shell'' exec_args_text) ''shell''
                        [(''command'', JArr [JStr ''rm'', JStr ''-rf'', JStr ''/tmp'']),
                         (''sandbox_permissions'', JStr ''require_escalated''),
                         (''justification'', JStr ''cleanup'')])"
    by (rule T [OF parse_tool_line_shell, THEN conjunct2, THEN conjunct1, rule_format])
      (simp add: pl args ne parse_exec_args)
  have a2: "parseCodexEvent test_host (tool_line ''apply_patch'' exec_args_text)
              = Some (tool_event test_host (JObj (tool_props ''apply_patch'' exec_args_text))
                        (tool_payload ''apply_patch'' exec_args_text) ''apply_patch''
                        [(''command'', JArr [JStr ''rm'', JStr ''-rf'', JStr ''/tmp'']),
                         (''sandbox_permissions'', JStr ''require_escalated''),
                         (''justification'', JStr ''cleanup'')])"
    by (rule T [OF parse_tool_line_patch, THEN conjunct2, THEN conjunct1, rule_format])
      (simp add: pl args ne parse_exec_args)
  have a3: "parseCodexEvent test_host (tool_line ''shell'' plain_args_text) = None"
    by (rule T [OF parse_tool_line_plain, THEN conjunct2, THEN conjunct2, THEN conjunct2,
          THEN conjunct2, THEN conjunct1, rule_format,
          where a = "JObj [(''command'', JArr [JStr ''ls''])]"])
      (simp add: args ne parse_plain_args)
  have a4: "parseCodexEvent test_host (tool_line ''shell'' ''{oops'') = None"
    by (rule T [OF parse_tool_line_bad, THEN conjunct2, THEN conjunct2, THEN conjunct1,
          rule_format])
      (simp add: args parse_bad_args)
  have a5: "parseCodexEvent test_host (tool_line [] exec_args_text) = None"
    by (rule T [OF parse_tool_line_noname, THEN conjunct2, THEN conjunct2, THEN conjunct2,
          THEN conjunct1, rule_format])
      (simp add: pl)
  show ?thesis
    using a1 a2 a3 a4 a5 by (simp add: tool_event_def)
qed

subsection \<open>Reading the manifest\<close>

lemma parse_malformed_manifest: "test_JSON_parse malformed_manifest_text = None"
  by (simp add: parse_simps malformed_manifest_text_def)

lemma test_manifest_path_eq:
  "path_join test_home BRIDGE_MANIFEST_RELATIVE_PATH = test_manifest_path"
  by (simp add: path_join_def test_home_def BRIDGE_MANIFEST_RELATIVE_PATH_def
      test_manifest_path_def)

text \<open>
  C3, as stated: a manifest file that is absent or holds malformed JSON reads as the
  empty rule set, without an error. It fails for malformed JSON: \<open>readJsonIfExists\<close>
  throws an \<open>Error\<close> that names the file, and \<open>readManifest\<close> does not catch it.
\<close>

theorem malformed_manifest_raises:
  "readManifest test_host (fs_with_manifest malformed_manifest_text []) test_home
     = Inl (JsonParseError test_manifest_path)
   \<and> readManifest test_host (fs_with_manifest malformed_manifest_text []) test_home
     \<noteq> Inr \<lparr>manifestPath = test_manifest_path, plugins = [], topHooks = []\<rparr>"
  using parse_malformed_manifest
  by (simp add: readManifest_def readJsonIfExists_def test_manifest_path_eq
      fs_with_manifest_def test_host_def not_blank_first malformed_manifest_text_def is_ws_def)

text \<open>
  C3, amended. With \<open>mp\<close> the manifest path: a manifest file that is absent, that is
  empty or blank (only characters that \<open>trim\<close> strips, the no-break space among them),
  or whose text parses to a value that is not an object (\<open>null\<close>, a
  number, a string, a truth value) reads as the empty rule set and raises no error. A
  manifest whose text is malformed JSON raises the parse error naming \<open>mp\<close>, and a
  once-mode run ends with that error before any file is read.
\<close>

theorem manifest_reading:
  assumes "mp = path_join home BRIDGE_MANIFEST_RELATIVE_PATH"
  shows
   "(file_text fs mp = None
       \<longrightarrow> readManifest h fs home = Inr \<lparr>manifestPath = mp, plugins = [], topHooks = []\<rparr>)
    \<and> (file_text fs mp = Some raw \<and> is_blank raw
       \<longrightarrow> readManifest h fs home = Inr \<lparr>manifestPath = mp, plugins = [], topHooks = []\<rparr>)
    \<and> (file_text fs mp = Some raw \<and> \<not> is_blank raw \<and> JSON_parse h raw = Some v
         \<and> (\<not> truthy v \<or> typeof (Some v) \<noteq> ''object'')
       \<longrightarrow> readManifest h fs home = Inr \<lparr>manifestPath = mp, plugins = [], topHooks = []\<rparr>)
    \<and> (file_text fs mp = Some raw \<and> \<not> is_blank raw \<and> JSON_parse h raw = None
       \<longrightarrow> readManifest h fs home = Inl (JsonParseError mp)
           \<and> (codexHome opts = home \<longrightarrow> runOnce h fs opts = ([], Some (JsonParseError mp))))"
  using assms
  by (auto simp: readManifest_def readJsonIfExists_def runOnce_def)

theorem manifest_reading_witness:
  "readManifest test_host no_manifest_fs test_home
     = Inr \<lparr>manifestPath = test_manifest_path, plugins = [], topHooks = []\<rparr>
   \<and> readManifest test_host (fs_with_manifest ''  '' []) test_home
     = Inr \<lparr>manifestPath = test_manifest_path, plugins = [], topHooks = []\<rparr>
   \<and> readManifest test_host (fs_with_manifest [CHR 0xA0, CHR 0x0A] []) test_home
     = Inr \<lparr>manifestPath = test_manifest_path, plugins = [], topHooks = []\<rparr>
   \<and> readManifest test_host (fs_with_manifest ''42'' []) test_home
     = Inr \<lparr>manifestPath = test_manifest_path, plugins = [], topHooks = []\<rparr>
   \<and> readManifest test_host (fs_with_manifest malformed_manifest_text []) test_home
     = Inl (JsonParseError test_manifest_path)
   \<and> runOnce test_host (fs_with_manifest malformed_manifest_text []) once_options
     = ([], Some (JsonParseError test_manifest_path))"
proof -
  note T = manifest_reading [OF test_manifest_path_eq [symmetric], where h = test_host]
  have host: "JSON_parse test_host = test_JSON_parse"
    by (simp add: test_host_def)
  have a1: "readManifest test_host no_manifest_fs test_home
     = Inr \<lparr>manifestPath = test_manifest_path, plugins = [], topHooks = []\<rparr>"
    by (rule T [THEN conjunct1, rule_format]) (simp add: no_manifest_fs_def)
  have a2: "readManifest test_host (fs_with_manifest ''  '' []) test_home
     = Inr \<lparr>manifestPath = test_manifest_path, plugins = [], topHooks = []\<rparr>"
    by (rule T [THEN conjunct2, THEN conjunct1, rule_format, where raw = "''  ''"])
      (simp add: fs_with_manifest_def is_blank_def js_trim_def is_ws_def)
  have a2': "readManifest test_host (fs_with_manifest [CHR 0xA0, CHR 0x0A] []) test_home
     = Inr \<lparr>manifestPath = test_manifest_path, plugins = [], topHooks = []\<rparr>"
    by (rule T [THEN conjunct2, THEN conjunct1, rule_format, where raw = "[CHR 0xA0, CHR 0x0A]"])
      (simp add: fs_with_manifest_def is_blank_def js_trim_def is_ws_def)
  have a3: "readManifest test_host (fs_with_manifest ''42'' []) test_home
     = Inr \<lparr>manifestPath = test_manifest_path, plugins = [], topHooks = []\<rparr>"
    by (rule T [THEN conjunct2, THEN conjunct2, THEN conjunct1, rule_format,
          where raw = "''42''" and v = "JNum (Num 42)"])
      (simp add: fs_with_manifest_def not_blank_first is_ws_def host parse_simps)
  have nb: "\<not> is_blank malformed_manifest_text"
    by (simp add: malformed_manifest_text_def not_blank_first is_ws_def)
  have a4: "readManifest test_host (fs_with_manifest malformed_manifest_text []) test_home
              = Inl (JsonParseError test_manifest_path)
            \<and> (codexHome once_options = test_home
                \<longrightarrow> runOnce test_host (fs_with_manifest malformed_manifest_text []) once_options
                      = ([], Some (JsonParseError test_manifest_path)))"
    by (rule T [THEN conjunct2, THEN conjunct2, THEN conjunct2, rule_format,
          where raw = malformed_manifest_text])
      (simp add: fs_with_manifest_def host parse_malformed_manifest nb)
  show ?thesis
    using a1 a2 a2' a3 a4 by (simp add: once_options_def)
qed

subsection \<open>Incremental tailer\<close>

lemma split_nl_nonempty: "split_nl s \<noteq> []"
  by (induction s) (auto split: list.splits)

lemma split_nl_join: "js_join [CHR 0x0A] (split_nl s) = s"
proof (induction s)
  case Nil
  show ?case by simp
next
  case (Cons c cs)
  obtain l ls where sp: "split_nl cs = l # ls"
    using split_nl_nonempty [of cs] by (cases "split_nl cs") auto
  show ?case
  proof (cases "c = CHR 0x0A")
    case True
    with Cons sp show ?thesis by simp
  next
    case False
    with Cons sp show ?thesis by (cases ls) auto
  qed
qed

lemma split_nl_no_newline: "list_all (\<lambda>l. CHR 0x0A \<notin> set l) (split_nl s)"
  by (induction s) (auto split: list.splits)

lemma split_nl_unique:
  "xs \<noteq> [] \<Longrightarrow> list_all (\<lambda>l. CHR 0x0A \<notin> set l) xs \<Longrightarrow> split_nl (js_join [CHR 0x0A] xs) = xs"
proof (induction xs)
  case Nil
  then show ?case by simp
next
  case (Cons x xs)
  have x: "CHR 0x0A \<notin> set x" using Cons.prems by simp
  show ?case
  proof (cases xs)
    case Nil
    from x have "split_nl x = [x]" by (induction x) auto
    with Nil show ?thesis by simp
  next
    case (Cons y ys)
    have rest: "split_nl (js_join [CHR 0x0A] xs) = xs"
      using Cons.IH Cons.prems Cons by simp
    from x have "split_nl (x @ CHR 0x0A # js_join [CHR 0x0A] xs) = x # xs"
      using rest by (induction x) auto
    with Cons show ?thesis by simp
  qed
qed

lemma process_lines_keeps:
  "process_lines h m pr st ls = (st1, runs, err) \<Longrightarrow>
     offsets st1 = offsets st \<and> remainders st1 = remainders st
     \<and> sinceEpochSec st1 = sinceEpochSec st"
proof (induction ls arbitrary: st st1 runs err)
  case Nil
  then show ?case by simp
next
  case (Cons l ls)
  have rec: "offsets (snd (recordAndCheckDuplicateEvent h s l)) = offsets s
     \<and> remainders (snd (recordAndCheckDuplicateEvent h s l)) = remainders s
     \<and> sinceEpochSec (snd (recordAndCheckDuplicateEvent h s l)) = sinceEpochSec s" for s
    by (simp add: recordAndCheckDuplicateEvent_def Let_def)
  from Cons.prems show ?case
    using Cons.IH rec [of st]
    by (auto split: if_splits option.splits prod.splits)
qed

lemma process_lines_single:
  "process_lines h m pr s [l] =
     (if is_blank l then (s, [], None)
      else (case parseCodexEvent h l of
              None \<Rightarrow> (s, [], None)
            | Some ev \<Rightarrow>
                (if since_skips s ev then (s, [], None)
                 else (case recordAndCheckDuplicateEvent h s l of
                         (dup, s1) \<Rightarrow>
                           (if dup then (s1, [], None)
                            else (case executeEvent h m ev pr of
                                    (rs, e) \<Rightarrow> (s1, rs, e)))))))"
  by (simp split: option.splits prod.splits)

lemma process_lines_Cons:
  "process_lines h m pr s (l # ls) =
     (case process_lines h m pr s [l] of
        (s1, r1, Some e) \<Rightarrow> (s1, r1, Some e)
      | (s1, r1, None) \<Rightarrow>
          (case process_lines h m pr s1 ls of (s2, r2, e) \<Rightarrow> (s2, r1 @ r2, e)))"
  by (simp split: option.splits prod.splits)

lemma process_lines_append:
  "process_lines h m pr s (xs @ ys) =
     (case process_lines h m pr s xs of
        (s1, r1, Some e) \<Rightarrow> (s1, r1, Some e)
      | (s1, r1, None) \<Rightarrow>
          (case process_lines h m pr s1 ys of (s2, r2, e) \<Rightarrow> (s2, r1 @ r2, e)))"
proof (induction xs arbitrary: s)
  case Nil
  show ?case by (simp split: prod.splits)
next
  case (Cons l xs)
  obtain s1 r1 e1 where one: "process_lines h m pr s [l] = (s1, r1, e1)"
    by (metis prod.collapse)
  obtain s2 r2 e2 where two: "process_lines h m pr s1 xs = (s2, r2, e2)"
    by (metis prod.collapse)
  obtain s3 r3 e3 where three: "process_lines h m pr s2 ys = (s3, r3, e3)"
    by (metis prod.collapse)
  have full: "process_lines h m pr s ((l # xs) @ ys) =
     (case process_lines h m pr s [l] of
        (s1, r1, Some e) \<Rightarrow> (s1, r1, Some e)
      | (s1, r1, None) \<Rightarrow>
          (case process_lines h m pr s1 (xs @ ys) of (s2, r2, e) \<Rightarrow> (s2, r1 @ r2, e)))"
    using process_lines_Cons [of h m pr s l "xs @ ys"] by simp
  have ih: "process_lines h m pr s1 (xs @ ys) =
     (case e2 of Some e \<Rightarrow> (s2, r2, Some e) | None \<Rightarrow> (s3, r2 @ r3, e3))"
    by (simp add: Cons.IH [of s1] two three split: option.splits)
  show ?case
  proof (cases e1)
    case (Some e)
    then show ?thesis
      by (simp only: full process_lines_Cons [of h m pr s l xs] one) simp
  next
    case None
    show ?thesis
    proof (cases e2)
      case (Some e)
      have a: "process_lines h m pr s ((l # xs) @ ys) = (s2, r1 @ r2, Some e)"
        by (simp only: full one \<open>e1 = None\<close>) (simp add: ih Some)
      have b: "process_lines h m pr s (l # xs) = (s2, r1 @ r2, Some e)"
        by (simp only: process_lines_Cons [of h m pr s l xs] one \<open>e1 = None\<close>)
          (simp add: two Some)
      show ?thesis
        by (simp only: a b) simp
    next
      case None
      have a: "process_lines h m pr s ((l # xs) @ ys) = (s3, r1 @ r2 @ r3, e3)"
        by (simp only: full one \<open>e1 = None\<close>) (simp add: ih None)
      have b: "process_lines h m pr s (l # xs) = (s2, r1 @ r2, None)"
        by (simp only: process_lines_Cons [of h m pr s l xs] one \<open>e1 = None\<close>)
          (simp add: two None)
      show ?thesis
        by (simp only: a b) (simp add: three)
    qed
  qed
qed

text \<open>
  C4. One step of the tailer on a file with bytes \<open>bytes\<close>, stored offset \<open>stored\<close> (0 when
  none is stored) and stored remainder \<open>rem\<close>. If the size equals the offset, or the file
  is empty, nothing is read or dispatched and the state is unchanged. If the size is
  less than the stored offset, the text read is the whole file with no remainder in
  front (offset 0, remainder empty); otherwise it is the stored remainder followed by
  exactly the bytes from the offset to the size. The text is split on newline: the
  fragments joined by newlines give the text back and none holds a newline. All
  fragments but the last go through the line loop in order; the last is not processed
  and becomes the stored remainder, and the stored offset becomes the file size. (When a
  dispatch raises, the exception leaves the step and nothing is stored.) The line loop
  itself changes no offset and no remainder, and it takes every fragment as a candidate
  line: on no line it does nothing; on one line it skips a blank line, a line that is
  no event and an event whose timestamp is below a positive since floor, it records the line in the dedup cache
  and skips it if it is a duplicate, and it dispatches the event otherwise; on a list
  of lines it is the loop on any front part followed, unless a dispatch raised there,
  by the loop on the rest, from the state the front part left and with the hook runs
  of both in order. These three laws fix the loop on every list of fragments.
\<close>

theorem tailer_step:
  assumes "stored = (case offsets st filePath of None \<Rightarrow> 0 | Some n \<Rightarrow> n)"
    and "rem = (case remainders st filePath of None \<Rightarrow> [] | Some r \<Rightarrow> r)"
    and "chunk = (if length bytes < stored then bytes else rem @ drop stored bytes)"
    and "process_lines h m pr st (butlast (split_nl chunk)) = (st1, runs, err)"
  shows
   "(length bytes = stored \<or> bytes = []
       \<longrightarrow> processSessionFile h filePath bytes st m pr = (st, [], None))
    \<and> (length bytes \<noteq> stored \<and> bytes \<noteq> [] \<and> err = None
       \<longrightarrow> processSessionFile h filePath bytes st m pr
           = (st1\<lparr>offsets := (offsets st1)(filePath \<mapsto> length bytes),
                  remainders := (remainders st1)(filePath \<mapsto> last (split_nl chunk))\<rparr>,
              runs, None))
    \<and> (length bytes \<noteq> stored \<and> bytes \<noteq> [] \<and> err \<noteq> None
       \<longrightarrow> processSessionFile h filePath bytes st m pr = (st1, runs, err))
    \<and> split_nl chunk = butlast (split_nl chunk) @ [last (split_nl chunk)]
    \<and> js_join [CHR 0x0A] (split_nl chunk) = chunk
    \<and> list_all (\<lambda>l. CHR 0x0A \<notin> set l) (split_nl chunk)
    \<and> (stored \<le> length bytes
       \<longrightarrow> take stored bytes @ drop stored bytes = bytes
           \<and> length (drop stored bytes) = length bytes - stored)
    \<and> offsets st1 = offsets st \<and> remainders st1 = remainders st
    \<and> process_lines h m pr s [] = (s, [], None)
    \<and> process_lines h m pr s [l] =
         (if is_blank l then (s, [], None)
          else (case parseCodexEvent h l of
                  None \<Rightarrow> (s, [], None)
                | Some ev \<Rightarrow>
                    (if (case sinceEpochSec s of
                           None \<Rightarrow> False
                         | Some sinceSec \<Rightarrow>
                             (case eventTimestampSec ev of
                                None \<Rightarrow> False
                              | Some ts \<Rightarrow> sinceSec > 0 \<and> of_int ts < sinceSec))
                     then (s, [], None)
                     else (case recordAndCheckDuplicateEvent h s l of
                             (dup, s1) \<Rightarrow>
                               (if dup then (s1, [], None)
                                else (case executeEvent h m ev pr of
                                        (rs, e) \<Rightarrow> (s1, rs, e)))))))
    \<and> process_lines h m pr s (xs @ ys) =
         (case process_lines h m pr s xs of
            (s1, r1, Some e) \<Rightarrow> (s1, r1, Some e)
          | (s1, r1, None) \<Rightarrow>
              (case process_lines h m pr s1 ys of (s2, r2, e) \<Rightarrow> (s2, r1 @ r2, e)))"
proof -
  have noop: "length bytes = stored \<or> bytes = []
       \<longrightarrow> processSessionFile h filePath bytes st m pr = (st, [], None)"
    using assms(1) by (auto simp: processSessionFile_def Let_def)
  have frag: "length bytes \<noteq> stored \<and> bytes \<noteq> [] \<longrightarrow>
      processSessionFile h filePath bytes st m pr
        = (case process_lines h m pr st (butlast (split_nl chunk)) of
             (s1, rs, Some e) \<Rightarrow> (s1, rs, Some e)
           | (s1, rs, None) \<Rightarrow>
               (s1\<lparr>offsets := (offsets s1)(filePath \<mapsto> length bytes),
                   remainders := (remainders s1)(filePath \<mapsto> last (split_nl chunk))\<rparr>,
                rs, None))"
    using assms(1,2,3) by (auto simp: processSessionFile_def Let_def)
  have ok: "length bytes \<noteq> stored \<and> bytes \<noteq> [] \<and> err = None
       \<longrightarrow> processSessionFile h filePath bytes st m pr
           = (st1\<lparr>offsets := (offsets st1)(filePath \<mapsto> length bytes),
                  remainders := (remainders st1)(filePath \<mapsto> last (split_nl chunk))\<rparr>,
              runs, None)"
    using frag assms(4) by simp
  have bad: "length bytes \<noteq> stored \<and> bytes \<noteq> [] \<and> err \<noteq> None
       \<longrightarrow> processSessionFile h filePath bytes st m pr = (st1, runs, err)"
    using frag assms(4) by auto
  have parts: "split_nl chunk = butlast (split_nl chunk) @ [last (split_nl chunk)]"
    using split_nl_nonempty [of chunk] by simp
  have bytes: "stored \<le> length bytes
       \<longrightarrow> take stored bytes @ drop stored bytes = bytes
           \<and> length (drop stored bytes) = length bytes - stored"
    by simp
  have keeps: "offsets st1 = offsets st" "remainders st1 = remainders st"
    using process_lines_keeps [OF assms(4)] by simp_all
  have none: "process_lines h m pr s [] = (s, [], None)"
    by simp
  have single: "process_lines h m pr s [l] =
         (if is_blank l then (s, [], None)
          else (case parseCodexEvent h l of
                  None \<Rightarrow> (s, [], None)
                | Some ev \<Rightarrow>
                    (if (case sinceEpochSec s of
                           None \<Rightarrow> False
                         | Some sinceSec \<Rightarrow>
                             (case eventTimestampSec ev of
                                None \<Rightarrow> False
                              | Some ts \<Rightarrow> sinceSec > 0 \<and> of_int ts < sinceSec))
                     then (s, [], None)
                     else (case recordAndCheckDuplicateEvent h s l of
                             (dup, s1) \<Rightarrow>
                               (if dup then (s1, [], None)
                                else (case executeEvent h m ev pr of
                                        (rs, e) \<Rightarrow> (s1, rs, e)))))))"
    by (simp only: process_lines_single since_skips_def)
  show ?thesis
    by (intro conjI noop ok bad parts split_nl_join split_nl_no_newline bytes keeps none
        single process_lines_append)
qed


lemmas date_simps = test_Date_parse_def is_digit_def two_digits_def digit_val_def
  days_from_civil_def

lemma parse_line_complete:
  "test_JSON_parse line_complete = Some (session_json ''2026-02-28T10:00:03.000Z'' ''task_complete'')"
  by (simp add: parse_simps line_complete_def session_line_def session_json_def)

lemma event_line_complete:
  "parseCodexEvent test_host line_complete = Some (simple_event ''task_complete'' 1772272803)"
  using parse_line_complete
  by (simp add: parseCodexEvent_def test_host_def session_json_def event_msg_event_def
      parseEventTimestampSec_def simple_event_def is_blank_def js_trim_def is_ws_def date_simps)

lemma not_blank_line: "\<not> is_blank (session_line ts rt)"
  by (rule not_blank_first) (simp_all add: session_line_def is_ws_def)

lemma exec_complete:
  "executeEvent test_host two_rule_manifest (simple_event ''task_complete'' sec) None
     = ([stop_on_complete_run, complete_run], None)"
  by (simp add: executeEvent_def mapEventNames_task_complete simple_event_def
      two_rule_manifest_def two_rule_plugins_def stop_on_complete_run_def complete_run_def
      dispatch_simps)

lemma host_fields:
  "JSON_parse test_host = test_JSON_parse"
  "Date_parse test_host = test_Date_parse"
  "Date_now test_host n = (if n < 2 then 1000 * int n else 40000 * int n)"
  "RegExp_compile test_host = test_RegExp_compile"
  "process_pid test_host = 4242"
  "sort_paths test_host ps = foldr insert_path ps []"
  "process_kill0 test_host p = (p = 4242 \<or> p = 777)"
  by (simp_all add: test_host_def)

lemma not_blank_complete: "\<not> is_blank line_complete"
  by (simp add: line_complete_def not_blank_line)

lemma lines_complete:
  "process_lines test_host two_rule_manifest None (initial_state once_options) [line_complete]
     = ((initial_state once_options)\<lparr>recentEvents := [(line_complete, 0)], clock_reads := 1\<rparr>,
        [stop_on_complete_run, complete_run], None)"
  by (simp add: event_line_complete exec_complete not_blank_complete
      since_skips_def initial_state_def once_options_def recordAndCheckDuplicateEvent_def
      RECENT_EVENT_MAX_def host_fields)


lemma parse_line_started:
  "test_JSON_parse line_started = Some (session_json ''2026-02-28T10:00:00.000Z'' ''task_started'')"
  by (simp add: parse_simps line_started_def session_line_def session_json_def)

lemma event_line_started:
  "parseCodexEvent test_host line_started = Some (simple_event ''task_started'' 1772272800)"
  using parse_line_started
  by (simp add: parseCodexEvent_def host_fields session_json_def event_msg_event_def
      parseEventTimestampSec_def simple_event_def is_blank_def js_trim_def is_ws_def date_simps)

lemma mapEventNames_task_started:
  "mapEventNames ''task_started'' = Inr [''TaskStarted'', ''task_started'']"
  by (simp add: mapEventNames_def CODEX_EVENT_MAP_get_def CODEX_EVENT_MAP_def)

lemma exec_started:
  "executeEvent test_host two_rule_manifest (simple_event ''task_started'' sec) None = ([], None)"
  by (simp add: executeEvent_def mapEventNames_task_started simple_event_def
      two_rule_manifest_def two_rule_plugins_def dispatch_simps)

lemma not_blank_started: "\<not> is_blank line_started"
  by (simp add: line_started_def not_blank_line)

lemma no_newline_lines:
  "CHR 0x0A \<notin> set line_complete" "CHR 0x0A \<notin> set line_started"
  "CHR 0x0A \<notin> set partial_line"
  by (simp_all add: line_complete_def line_started_def session_line_def partial_line_def)

lemma line_lengths: "length line_complete = 94" "length line_started = 93"
  "length partial_line = 12"
  by (simp_all add: line_complete_def line_started_def session_line_def partial_line_def)

lemma line_distinct: "line_started \<noteq> line_complete"
  using line_lengths by auto

lemma line_nonempty: "line_complete \<noteq> []" "line_started \<noteq> []" "partial_line \<noteq> []"
  using line_lengths by auto

lemma mapEventNames_agent_message: "mapEventNames ''agent_message'' = Inr [''agent_message'']"
  by (simp add: mapEventNames_def CODEX_EVENT_MAP_get_def CODEX_EVENT_MAP_def
      Object_prototype_keys_def)

lemma parse_line_message1:
  "test_JSON_parse line_message1 = Some (session_json ''2026-02-28T10:00:01.000Z'' ''agent_message'')"
  by (simp add: parse_simps line_message1_def session_line_def session_json_def)

lemma parse_line_message2:
  "test_JSON_parse line_message2 = Some (session_json ''2026-02-28T10:00:02.000Z'' ''agent_message'')"
  by (simp add: parse_simps line_message2_def session_line_def session_json_def)

lemma event_line_message1:
  "parseCodexEvent test_host line_message1 = Some (simple_event ''agent_message'' 1772272801)"
  using parse_line_message1
  by (simp add: parseCodexEvent_def host_fields session_json_def event_msg_event_def
      parseEventTimestampSec_def simple_event_def is_blank_def js_trim_def is_ws_def date_simps)

lemma event_line_message2:
  "parseCodexEvent test_host line_message2 = Some (simple_event ''agent_message'' 1772272802)"
  using parse_line_message2
  by (simp add: parseCodexEvent_def host_fields session_json_def event_msg_event_def
      parseEventTimestampSec_def simple_event_def is_blank_def js_trim_def is_ws_def date_simps)

lemma exec_message:
  "executeEvent test_host two_rule_manifest (simple_event ''agent_message'' sec) None = ([], None)"
  by (simp add: executeEvent_def mapEventNames_agent_message simple_event_def
      two_rule_manifest_def two_rule_plugins_def dispatch_simps)

lemma four_lines_differ:
  "line_started \<noteq> line_message1" "line_started \<noteq> line_message2"
  "line_message1 \<noteq> line_started" "line_message2 \<noteq> line_started"
  "line_message1 \<noteq> line_message2" "line_message2 \<noteq> line_message1"
  "line_message1 \<noteq> line_complete" "line_message2 \<noteq> line_complete"
  "line_complete \<noteq> line_message1" "line_complete \<noteq> line_message2"
  "line_complete \<noteq> line_started"
  by (simp_all add: line_started_def line_message1_def line_message2_def line_complete_def
      session_line_def)

lemma message_lines:
  "CHR 0x0A \<notin> set line_message1" "CHR 0x0A \<notin> set line_message2"
  "length line_message1 = 94" "length line_message2 = 94"
  "\<not> is_blank line_message1" "\<not> is_blank line_message2"
  by (simp_all add: line_message1_def line_message2_def not_blank_line)
    (simp_all add: session_line_def)

lemma four_line_split:
  "split_nl four_line_log
     = [line_started, line_message1, line_message2, line_complete, partial_line]"
proof -
  have "four_line_log = js_join [CHR 0x0A]
          [line_started, line_message1, line_message2, line_complete, partial_line]"
    by (simp add: four_line_log_def session_lines_def)
  then show ?thesis
    using split_nl_unique
      [of "[line_started, line_message1, line_message2, line_complete, partial_line]"]
      no_newline_lines message_lines(1,2)
    by simp
qed

lemma four_line_length: "length four_line_log = 391" "four_line_log \<noteq> []"
  by (simp_all add: four_line_log_def session_lines_def line_lengths message_lines)

lemma four_lines_run:
  "process_lines test_host two_rule_manifest None (initial_state once_options)
       [line_started, line_message1, line_message2, line_complete]
     = ((initial_state once_options)
          \<lparr>recentEvents := [(line_started, 0), (line_message1, 1000), (line_message2, 80000),
                             (line_complete, 120000)],
           clock_reads := 4\<rparr>,
        [stop_on_complete_run, complete_run], None)"
  using four_lines_differ line_distinct
  by (simp add: event_line_started event_line_message1 event_line_message2 event_line_complete
      exec_started exec_message exec_complete not_blank_started not_blank_complete
      message_lines since_skips_def initial_state_def once_options_def
      recordAndCheckDuplicateEvent_def RECENT_EVENT_MAX_def host_fields)

theorem tailer_step_witness:
  "processSessionFile test_host session_path (line_complete @ newline @ partial_line)
       (initial_state once_options) two_rule_manifest None
     = (after_first_read, [stop_on_complete_run, complete_run], None)
   \<and> processSessionFile test_host session_path (line_complete @ newline @ partial_line)
       after_first_read two_rule_manifest None
     = (after_first_read, [], None)
   \<and> processSessionFile test_host session_path (line_started @ newline)
       after_first_read two_rule_manifest None
     = (after_truncation, [], None)
   \<and> processSessionFile test_host session_path four_line_log
       (initial_state once_options) two_rule_manifest None
     = (after_four_lines, [stop_on_complete_run, complete_run], None)
   \<and> processSessionFile test_host session_path four_line_log
       (initial_state floor_options) two_rule_manifest None
     = (after_floor_read, [stop_on_complete_run, complete_run], None)"
proof -
  let ?b1 = "line_complete @ newline @ partial_line"
  let ?b2 = "line_started @ newline"
  have s1: "split_nl ?b1 = [line_complete, partial_line]"
    using split_nl_unique [of "[line_complete, partial_line]"] no_newline_lines
    by (simp add: newline_def)
  have s2: "split_nl ?b2 = [line_started, []]"
    using split_nl_unique [of "[line_started, []]"] no_newline_lines
    by (simp add: newline_def)
  have s1': "split_nl (line_complete @ CHR 0x0A # partial_line) = [line_complete, partial_line]"
    using s1 by (simp add: newline_def)
  have s2': "split_nl (line_started @ [CHR 0x0A]) = [line_started, []]"
    using s2 by (simp add: newline_def)
  have s3: "split_nl partial_line = [partial_line]"
    using split_nl_unique [of "[partial_line]"] no_newline_lines by simp
  have len: "length ?b1 = 107" "length ?b2 = 94"
    by (simp_all add: line_lengths newline_def)
  have l3: "process_lines test_host two_rule_manifest None after_first_read [line_started]
     = (after_first_read\<lparr>recentEvents := [(line_complete, 0), (line_started, 1000)],
          clock_reads := 2\<rparr>, [], None)"
    using line_distinct
    by (simp add: event_line_started exec_started not_blank_started since_skips_def
        after_first_read_def recordAndCheckDuplicateEvent_def RECENT_EVENT_MAX_def host_fields)
  have p1: "process_lines test_host two_rule_manifest None (initial_state once_options)
              (butlast (split_nl ?b1))
     = ((initial_state once_options)\<lparr>recentEvents := [(line_complete, 0)], clock_reads := 1\<rparr>,
        [stop_on_complete_run, complete_run], None)"
    by (simp add: s1 lines_complete del: process_lines.simps)
  have p2: "process_lines test_host two_rule_manifest None after_first_read
              (butlast (split_nl partial_line)) = (after_first_read, [], None)"
    by (simp add: s3)
  have p3: "process_lines test_host two_rule_manifest None after_first_read
              (butlast (split_nl ?b2))
     = (after_first_read\<lparr>recentEvents := [(line_complete, 0), (line_started, 1000)],
          clock_reads := 2\<rparr>, [], None)"
    by (simp add: s2 l3 del: process_lines.simps)
  have o1: "(0::nat) = (case offsets (initial_state once_options) session_path of
                 None \<Rightarrow> 0 | Some n \<Rightarrow> n)"
    "[] = (case remainders (initial_state once_options) session_path of
                 None \<Rightarrow> [] | Some r \<Rightarrow> r)"
    "?b1 = (if length ?b1 < 0 then ?b1 else [] @ drop 0 ?b1)"
    by (simp_all add: initial_state_def)
  have o2: "(107::nat) = (case offsets after_first_read session_path of
                 None \<Rightarrow> 0 | Some n \<Rightarrow> n)"
    "partial_line = (case remainders after_first_read session_path of
                 None \<Rightarrow> [] | Some r \<Rightarrow> r)"
    "partial_line = (if length ?b1 < 107 then ?b1 else partial_line @ drop 107 ?b1)"
    "?b2 = (if length ?b2 < 107 then ?b2 else partial_line @ drop 107 ?b2)"
    by (simp_all add: after_first_read_def line_lengths newline_def)
  have a1: "processSessionFile test_host session_path ?b1
       (initial_state once_options) two_rule_manifest None
     = (after_first_read, [stop_on_complete_run, complete_run], None)"
    using tailer_step [OF o1 p1, THEN conjunct2, THEN conjunct1]
    by (simp add: line_lengths line_nonempty newline_def s1'
        after_first_read_def initial_state_def once_options_def)
  have a2: "processSessionFile test_host session_path ?b1 after_first_read two_rule_manifest None
     = (after_first_read, [], None)"
    using tailer_step [OF o2(1,2,3) p2, THEN conjunct1]
    by (simp add: line_lengths newline_def)
  have a3: "processSessionFile test_host session_path ?b2 after_first_read two_rule_manifest None
     = (after_truncation, [], None)"
    using tailer_step [OF o2(1,2,4) p3, THEN conjunct2, THEN conjunct1]
    by (simp add: line_lengths line_nonempty newline_def s2'
        after_first_read_def after_truncation_def)
  have o4: "(0::nat) = (case offsets (initial_state once_options) session_path of
                 None \<Rightarrow> 0 | Some n \<Rightarrow> n)"
    "[] = (case remainders (initial_state once_options) session_path of
                 None \<Rightarrow> [] | Some r \<Rightarrow> r)"
    "four_line_log = (if length four_line_log < 0 then four_line_log
                      else [] @ drop 0 four_line_log)"
    by (simp_all add: initial_state_def)
  have p4: "process_lines test_host two_rule_manifest None (initial_state once_options)
              (butlast (split_nl four_line_log))
     = ((initial_state once_options)
          \<lparr>recentEvents := [(line_started, 0), (line_message1, 1000), (line_message2, 80000),
                             (line_complete, 120000)],
           clock_reads := 4\<rparr>,
        [stop_on_complete_run, complete_run], None)"
    by (simp add: four_line_split four_lines_run del: process_lines.simps)
  have a4: "processSessionFile test_host session_path four_line_log
       (initial_state once_options) two_rule_manifest None
     = (after_four_lines, [stop_on_complete_run, complete_run], None)"
    using tailer_step [OF o4 p4, THEN conjunct2, THEN conjunct1]
    by (simp add: four_line_length four_line_split
        after_four_lines_def initial_state_def once_options_def)
  have o5: "(0::nat) = (case offsets (initial_state floor_options) session_path of
                 None \<Rightarrow> 0 | Some n \<Rightarrow> n)"
    "[] = (case remainders (initial_state floor_options) session_path of
                 None \<Rightarrow> [] | Some r \<Rightarrow> r)"
    by (simp_all add: initial_state_def)
  have sk: "since_skips st (simple_event rt sec) =
      (case sinceEpochSec st of None \<Rightarrow> False | Some x \<Rightarrow> x > 0 \<and> of_int sec < x)"
    for st rt sec
    by (simp add: since_skips_def simple_event_def split: option.splits)
  have p5: "process_lines test_host two_rule_manifest None (initial_state floor_options)
              (butlast (split_nl four_line_log))
     = ((initial_state floor_options)\<lparr>recentEvents := [(line_complete, 0)], clock_reads := 1\<rparr>,
        [stop_on_complete_run, complete_run], None)"
    by (simp add: four_line_split event_line_started event_line_message1 event_line_message2
        event_line_complete exec_complete not_blank_started not_blank_complete message_lines
        sk initial_state_def floor_options_def once_options_def
        recordAndCheckDuplicateEvent_def RECENT_EVENT_MAX_def host_fields)
  have a5: "processSessionFile test_host session_path four_line_log
       (initial_state floor_options) two_rule_manifest None
     = (after_floor_read, [stop_on_complete_run, complete_run], None)"
    using tailer_step [OF o5 o4(3) p5, THEN conjunct2, THEN conjunct1]
    by (simp add: four_line_length four_line_split
        after_floor_read_def initial_state_def floor_options_def once_options_def)
  show ?thesis
    using a1 a2 a3 a4 a5 by simp
qed

subsection \<open>Watch lock\<close>

lemma env_turn_ops: "fs_ops (snd (env_turn op w)) = fs_ops w @ [op]"
  by (simp add: env_turn_def Let_def split: list.splits env_step.splits)

lemma env_turn_quiet: "others w = [] \<Longrightarrow> env_turn op w = (False, w\<lparr>fs_ops := fs_ops w @ [op]\<rparr>)"
  by (simp add: env_turn_def)

lemma mkdirSync_ops: "fs_ops (snd (mkdirSync w)) = fs_ops w @ [OpMkdir]"
  using env_turn_ops [of OpMkdir w]
  by (cases "env_turn OpMkdir w") (auto simp: mkdirSync_def split: lock_entry.splits)

lemma openSync_wx_ops: "fs_ops (snd (openSync_wx d w)) = fs_ops w @ [OpCreate]"
  using env_turn_ops [of OpCreate w]
  by (cases "env_turn OpCreate w") (auto simp: openSync_wx_def split: lock_entry.splits)

lemma readFileSync_ops: "fs_ops (snd (readFileSync w)) = fs_ops w @ [OpRead]"
  using env_turn_ops [of OpRead w]
  by (cases "env_turn OpRead w") (auto simp: readFileSync_def split: lock_entry.splits)

lemma unlinkSync_ops: "fs_ops (snd (unlinkSync w)) = fs_ops w @ [OpUnlink]"
  using env_turn_ops [of OpUnlink w]
  by (cases "env_turn OpUnlink w") (auto simp: unlinkSync_def split: lock_entry.splits)

lemma writeLock_ops:
  "fs_ops (snd (writeLock d w)) = fs_ops w @ [OpMkdir]
   \<or> fs_ops (snd (writeLock d w)) = fs_ops w @ [OpMkdir, OpCreate]"
proof -
  obtain r1 w1 where a: "mkdirSync w = (r1, w1)" by fastforce
  have o1: "fs_ops w1 = fs_ops w @ [OpMkdir]"
    using mkdirSync_ops [of w] a by simp
  show ?thesis
    using o1 openSync_wx_ops [of d w1]
    by (cases r1) (simp_all add: writeLock_def a)
qed

lemma openSync_wx_ok: "openSync_wx d w = (Inr u, w1) \<Longrightarrow> lock_file w1 = LockFile d"
  by (cases "env_turn OpCreate w")
    (auto simp: openSync_wx_def split: lock_entry.splits if_splits)

lemma writeLock_ok: "writeLock d w = (Inr u, w1) \<Longrightarrow> lock_file w1 = LockFile d"
  by (auto simp: writeLock_def split: prod.splits sum.splits dest: openSync_wx_ok)

lemma quiet_mkdirSync:
  "others w = [] \<Longrightarrow>
     mkdirSync w =
       (case lock_file w of
          DirectoryIsFile \<Rightarrow> (Inl EEXIST, w\<lparr>fs_ops := fs_ops w @ [OpMkdir]\<rparr>)
        | NoDirectory \<Rightarrow> (Inr (), w\<lparr>fs_ops := fs_ops w @ [OpMkdir], lock_file := NoFile\<rparr>)
        | NoFile \<Rightarrow> (Inr (), w\<lparr>fs_ops := fs_ops w @ [OpMkdir]\<rparr>)
        | LockFile existing \<Rightarrow> (Inr (), w\<lparr>fs_ops := fs_ops w @ [OpMkdir]\<rparr>))"
  by (simp add: mkdirSync_def env_turn_quiet split: lock_entry.splits)

lemma quiet_openSync_wx:
  "others w = [] \<Longrightarrow>
     openSync_wx d w =
       (case lock_file w of
          NoDirectory \<Rightarrow> (Inl ENOENT, w\<lparr>fs_ops := fs_ops w @ [OpCreate]\<rparr>)
        | DirectoryIsFile \<Rightarrow> (Inl ENOTDIR, w\<lparr>fs_ops := fs_ops w @ [OpCreate]\<rparr>)
        | LockFile existing \<Rightarrow> (Inl EEXIST, w\<lparr>fs_ops := fs_ops w @ [OpCreate]\<rparr>)
        | NoFile \<Rightarrow> (Inr (), w\<lparr>fs_ops := fs_ops w @ [OpCreate], lock_file := LockFile d\<rparr>))"
  by (simp add: openSync_wx_def env_turn_quiet split: lock_entry.splits)

lemma quiet_writeLock:
  "others w = [] \<Longrightarrow>
     writeLock d w =
       (case lock_file w of
          DirectoryIsFile \<Rightarrow> (Inl EEXIST, w\<lparr>fs_ops := fs_ops w @ [OpMkdir]\<rparr>)
        | LockFile existing \<Rightarrow> (Inl EEXIST, w\<lparr>fs_ops := fs_ops w @ [OpMkdir, OpCreate]\<rparr>)
        | NoDirectory \<Rightarrow>
            (Inr (), w\<lparr>fs_ops := fs_ops w @ [OpMkdir, OpCreate], lock_file := LockFile d\<rparr>)
        | NoFile \<Rightarrow>
            (Inr (), w\<lparr>fs_ops := fs_ops w @ [OpMkdir, OpCreate], lock_file := LockFile d\<rparr>))"
  by (simp add: writeLock_def quiet_mkdirSync quiet_openSync_wx split: lock_entry.splits)

lemma quiet_readFileSync:
  "others w = [] \<Longrightarrow>
     readFileSync w =
       (case lock_file w of
          NoDirectory \<Rightarrow> (Inl ENOENT, w\<lparr>fs_ops := fs_ops w @ [OpRead]\<rparr>)
        | DirectoryIsFile \<Rightarrow> (Inl ENOTDIR, w\<lparr>fs_ops := fs_ops w @ [OpRead]\<rparr>)
        | NoFile \<Rightarrow> (Inl ENOENT, w\<lparr>fs_ops := fs_ops w @ [OpRead]\<rparr>)
        | LockFile raw \<Rightarrow> (Inr raw, w\<lparr>fs_ops := fs_ops w @ [OpRead]\<rparr>))"
  by (simp add: readFileSync_def env_turn_quiet split: lock_entry.splits)

lemma quiet_unlinkSync:
  "others w = [] \<Longrightarrow>
     unlinkSync w =
       (case lock_file w of
          NoDirectory \<Rightarrow> (Inl ENOENT, w\<lparr>fs_ops := fs_ops w @ [OpUnlink]\<rparr>)
        | DirectoryIsFile \<Rightarrow> (Inl ENOTDIR, w\<lparr>fs_ops := fs_ops w @ [OpUnlink]\<rparr>)
        | NoFile \<Rightarrow> (Inl ENOENT, w\<lparr>fs_ops := fs_ops w @ [OpUnlink]\<rparr>)
        | LockFile raw \<Rightarrow> (Inr (), w\<lparr>fs_ops := fs_ops w @ [OpUnlink], lock_file := NoFile\<rparr>))"
  by (simp add: unlinkSync_def env_turn_quiet split: lock_entry.splits)

lemma acquire_busy:
  assumes "others w = []" and "lock_file w = LockFile raw"
    and "isProcessAlive h (parseWatchLockPid h raw)"
  shows "acquireWatchLock h c w
           = (Inr NoHandle, w\<lparr>fs_ops := fs_ops w @ [OpMkdir, OpCreate, OpRead]\<rparr>)"
  using assms
  by (simp add: acquireWatchLock_def quiet_writeLock quiet_readFileSync)

lemma acquire_stale:
  assumes "others w = []" and "lock_file w = LockFile raw"
    and "\<not> isProcessAlive h (parseWatchLockPid h raw)"
  shows "acquireWatchLock h c w
           = (Inr ReleaseHandle,
              w\<lparr>fs_ops := fs_ops w @ [OpMkdir, OpCreate, OpRead, OpUnlink, OpMkdir, OpCreate],
                lock_file := LockFile (lock_descriptor h c)\<rparr>)"
  using assms
  by (simp add: acquireWatchLock_def quiet_writeLock quiet_readFileSync quiet_unlinkSync)

lemma acquire_free:
  assumes "others w = []" and "lock_file w = NoFile \<or> lock_file w = NoDirectory"
  shows "acquireWatchLock h c w
           = (Inr ReleaseHandle,
              w\<lparr>fs_ops := fs_ops w @ [OpMkdir, OpCreate],
                lock_file := LockFile (lock_descriptor h c)\<rparr>)"
  using assms
  by (auto simp: acquireWatchLock_def quiet_writeLock)

lemma acquire_blocked:
  assumes "others w = []" and "lock_file w = DirectoryIsFile"
  shows "acquireWatchLock h c w
           = (Inr NoHandle, w\<lparr>fs_ops := fs_ops w @ [OpMkdir, OpRead, OpUnlink]\<rparr>)"
  using assms
  by (simp add: acquireWatchLock_def quiet_writeLock quiet_readFileSync quiet_unlinkSync)

lemma acquire_ops:
  "drop (length (fs_ops w)) (fs_ops (snd (acquireWatchLock h c w)))
     \<in> set [[OpMkdir], [OpMkdir, OpCreate],
             [OpMkdir, OpRead], [OpMkdir, OpCreate, OpRead],
             [OpMkdir, OpRead, OpUnlink], [OpMkdir, OpCreate, OpRead, OpUnlink],
             [OpMkdir, OpRead, OpUnlink, OpMkdir], [OpMkdir, OpCreate, OpRead, OpUnlink, OpMkdir],
             [OpMkdir, OpRead, OpUnlink, OpMkdir, OpCreate],
             [OpMkdir, OpCreate, OpRead, OpUnlink, OpMkdir, OpCreate]]"
proof -
  obtain r1 w1 where a: "writeLock (lock_descriptor h c) w = (r1, w1)" by fastforce
  obtain r2 w2 where b: "readFileSync w1 = (r2, w2)" by fastforce
  obtain r3 w3 where c: "unlinkSync w2 = (r3, w3)" by fastforce
  obtain r4 w4 where d: "writeLock (lock_descriptor h c) w3 = (r4, w4)" by fastforce
  let ?n = "length (fs_ops w)"
  have o1: "drop ?n (fs_ops w1) \<in> {[OpMkdir], [OpMkdir, OpCreate]}"
    using writeLock_ops [of "lock_descriptor h c" w] a by auto
  have o2: "fs_ops w2 = fs_ops w1 @ [OpRead]"
    using readFileSync_ops [of w1] b by simp
  have o3: "fs_ops w3 = fs_ops w1 @ [OpRead, OpUnlink]"
    using unlinkSync_ops [of w2] c o2 by simp
  have o4: "fs_ops w4 = fs_ops w3 @ [OpMkdir] \<or> fs_ops w4 = fs_ops w3 @ [OpMkdir, OpCreate]"
    using writeLock_ops [of "lock_descriptor h c" w3] d by simp
  have len: "?n \<le> length (fs_ops w1)"
    using writeLock_ops [of "lock_descriptor h c" w] a by auto
  have which: "snd (acquireWatchLock h c w) \<in> {w1, w2, w3, w4}"
    by (simp add: acquireWatchLock_def a b c d Let_def split: sum.splits)
  have d2: "drop ?n (fs_ops w2) = drop ?n (fs_ops w1) @ [OpRead]"
    using o2 len by simp
  have d3: "drop ?n (fs_ops w3) = drop ?n (fs_ops w1) @ [OpRead, OpUnlink]"
    using o3 len by simp
  have d4: "drop ?n (fs_ops w4) = drop ?n (fs_ops w1) @ [OpRead, OpUnlink, OpMkdir]
            \<or> drop ?n (fs_ops w4) = drop ?n (fs_ops w1) @ [OpRead, OpUnlink, OpMkdir, OpCreate]"
    using o4 o3 len by auto
  from which o1 d2 d3 d4 show ?thesis
    by auto
qed

lemma acquire_held:
  "acquireWatchLock h c w = (Inr ReleaseHandle, w1) \<Longrightarrow>
     lock_file w1 = LockFile (lock_descriptor h c)"
  by (auto simp: acquireWatchLock_def Let_def
      split: prod.splits sum.splits if_splits dest: writeLock_ok)

lemma release_quiet:
  assumes "others w = []"
  shows "releaseWatchLock h False w =
     (True,
      if (case lock_file w of LockFile raw \<Rightarrow> parseWatchLockPid h raw = Some (process_pid h)
          | _ \<Rightarrow> False)
      then w\<lparr>fs_ops := fs_ops w @ [OpRead, OpUnlink], lock_file := NoFile\<rparr>
      else w\<lparr>fs_ops := fs_ops w @ [OpRead]\<rparr>)"
  using assms
  by (auto simp: releaseWatchLock_def quiet_readFileSync quiet_unlinkSync split: lock_entry.splits)

lemma release_ops:
  "fs_ops (snd (releaseWatchLock h False w)) =
     (if (case fst (readFileSync w) of Inl e \<Rightarrow> False
          | Inr raw \<Rightarrow> parseWatchLockPid h raw = Some (process_pid h))
      then fs_ops w @ [OpRead, OpUnlink] else fs_ops w @ [OpRead])"
proof -
  obtain r1 w1 where a: "readFileSync w = (r1, w1)" by fastforce
  have o1: "fs_ops w1 = fs_ops w @ [OpRead]"
    using readFileSync_ops [of w] a by simp
  show ?thesis
    using o1 unlinkSync_ops [of w1]
    by (simp add: releaseWatchLock_def a split: sum.splits)
qed

text \<open>
  C1. With no other process touching the lock path during the call: if the lock file
  exists and its recorded PID is a live process, acquisition returns no release handle
  after making the directory, one create attempt and one read, leaves the file as it
  is, and \<open>watch\<close> returns without entering the loop (no hook runs); if the recorded PID
  is not alive, the stale file is deleted and \<open>writeLock\<close> is retried once, after which
  the file holds this process's descriptor; if there is no lock file, the first
  \<open>writeLock\<close> takes the lock; and if the path of the lock directory is a regular file,
  the EEXIST of \<open>mkdirSync\<close> is taken for an existing lock, the read and the unlink fail,
  and acquisition returns no handle without a create. Whatever other processes do, the
  operations of one acquisition are a \<open>writeLock\<close> (the directory made, then at most one
  create), then at most a read, an unlink and one more \<open>writeLock\<close>, and a handle is
  returned only when the file holds this process's descriptor. Release reads the file
  and unlinks it exactly when the text it read records this process's PID; a second
  call of the release function does nothing.
\<close>

theorem watch_lock:
  "(others w = [] \<and> lock_file w = LockFile raw \<and> isProcessAlive h (parseWatchLockPid h raw)
      \<longrightarrow> acquireWatchLock h c w
            = (Inr NoHandle, w\<lparr>fs_ops := fs_ops w @ [OpMkdir, OpCreate, OpRead]\<rparr>)
          \<and> (readManifest h boot (codexHome opts) = Inr m
               \<longrightarrow> watch h opts c w boot polls
                     = \<lparr>entered_watch = False, hook_runs = [], raised = None,
                        final_lock = w\<lparr>fs_ops := fs_ops w @ [OpMkdir, OpCreate, OpRead]\<rparr>\<rparr>))
   \<and> (others w = [] \<and> lock_file w = LockFile raw
        \<and> \<not> isProcessAlive h (parseWatchLockPid h raw)
      \<longrightarrow> acquireWatchLock h c w
            = (Inr ReleaseHandle,
               w\<lparr>fs_ops := fs_ops w
                    @ [OpMkdir, OpCreate, OpRead, OpUnlink, OpMkdir, OpCreate],
                 lock_file := LockFile (lock_descriptor h c)\<rparr>))
   \<and> (others w = [] \<and> (lock_file w = NoFile \<or> lock_file w = NoDirectory)
      \<longrightarrow> acquireWatchLock h c w
            = (Inr ReleaseHandle,
               w\<lparr>fs_ops := fs_ops w @ [OpMkdir, OpCreate],
                 lock_file := LockFile (lock_descriptor h c)\<rparr>))
   \<and> (others w = [] \<and> lock_file w = DirectoryIsFile
      \<longrightarrow> acquireWatchLock h c w
            = (Inr NoHandle, w\<lparr>fs_ops := fs_ops w @ [OpMkdir, OpRead, OpUnlink]\<rparr>))
   \<and> drop (length (fs_ops w)) (fs_ops (snd (acquireWatchLock h c w)))
        \<in> set [[OpMkdir], [OpMkdir, OpCreate],
                [OpMkdir, OpRead], [OpMkdir, OpCreate, OpRead],
                [OpMkdir, OpRead, OpUnlink], [OpMkdir, OpCreate, OpRead, OpUnlink],
                [OpMkdir, OpRead, OpUnlink, OpMkdir],
                [OpMkdir, OpCreate, OpRead, OpUnlink, OpMkdir],
                [OpMkdir, OpRead, OpUnlink, OpMkdir, OpCreate],
                [OpMkdir, OpCreate, OpRead, OpUnlink, OpMkdir, OpCreate]]
   \<and> (acquireWatchLock h c w = (Inr ReleaseHandle, w1)
      \<longrightarrow> lock_file w1 = LockFile (lock_descriptor h c))
   \<and> (others w = []
      \<longrightarrow> releaseWatchLock h False w =
           (True,
            if (case lock_file w of
                  LockFile r \<Rightarrow> parseWatchLockPid h r = Some (process_pid h)
                | _ \<Rightarrow> False)
            then w\<lparr>fs_ops := fs_ops w @ [OpRead, OpUnlink], lock_file := NoFile\<rparr>
            else w\<lparr>fs_ops := fs_ops w @ [OpRead]\<rparr>))
   \<and> fs_ops (snd (releaseWatchLock h False w)) =
        (if (case fst (readFileSync w) of Inl e \<Rightarrow> False
             | Inr r \<Rightarrow> parseWatchLockPid h r = Some (process_pid h))
         then fs_ops w @ [OpRead, OpUnlink] else fs_ops w @ [OpRead])
   \<and> releaseWatchLock h True w = (True, w)"
proof -
  have busy: "others w = [] \<and> lock_file w = LockFile raw
        \<and> isProcessAlive h (parseWatchLockPid h raw)
      \<longrightarrow> acquireWatchLock h c w
            = (Inr NoHandle, w\<lparr>fs_ops := fs_ops w @ [OpMkdir, OpCreate, OpRead]\<rparr>)
          \<and> (readManifest h boot (codexHome opts) = Inr m
               \<longrightarrow> watch h opts c w boot polls
                     = \<lparr>entered_watch = False, hook_runs = [], raised = None,
                        final_lock = w\<lparr>fs_ops := fs_ops w @ [OpMkdir, OpCreate, OpRead]\<rparr>\<rparr>)"
    using acquire_busy [of w raw h c] by (simp add: watch_def)
  have stale: "others w = [] \<and> lock_file w = LockFile raw
        \<and> \<not> isProcessAlive h (parseWatchLockPid h raw)
      \<longrightarrow> acquireWatchLock h c w
            = (Inr ReleaseHandle,
               w\<lparr>fs_ops := fs_ops w
                    @ [OpMkdir, OpCreate, OpRead, OpUnlink, OpMkdir, OpCreate],
                 lock_file := LockFile (lock_descriptor h c)\<rparr>)"
    using acquire_stale [of w raw h c] by simp
  have free: "others w = [] \<and> (lock_file w = NoFile \<or> lock_file w = NoDirectory)
      \<longrightarrow> acquireWatchLock h c w
            = (Inr ReleaseHandle,
               w\<lparr>fs_ops := fs_ops w @ [OpMkdir, OpCreate],
                 lock_file := LockFile (lock_descriptor h c)\<rparr>)"
    using acquire_free [of w h c] by blast
  have blocked: "others w = [] \<and> lock_file w = DirectoryIsFile
      \<longrightarrow> acquireWatchLock h c w
            = (Inr NoHandle, w\<lparr>fs_ops := fs_ops w @ [OpMkdir, OpRead, OpUnlink]\<rparr>)"
    using acquire_blocked [of w h c] by simp
  have held: "acquireWatchLock h c w = (Inr ReleaseHandle, w1)
      \<longrightarrow> lock_file w1 = LockFile (lock_descriptor h c)"
    using acquire_held by blast
  have rel: "others w = []
      \<longrightarrow> releaseWatchLock h False w =
           (True,
            if (case lock_file w of
                  LockFile r \<Rightarrow> parseWatchLockPid h r = Some (process_pid h)
                | _ \<Rightarrow> False)
            then w\<lparr>fs_ops := fs_ops w @ [OpRead, OpUnlink], lock_file := NoFile\<rparr>
            else w\<lparr>fs_ops := fs_ops w @ [OpRead]\<rparr>)"
    using release_quiet [of w h] by simp
  have again: "releaseWatchLock h True w = (True, w)"
    by (simp add: releaseWatchLock_def)
  show ?thesis
    by (intro conjI busy stale free blocked acquire_ops held rel release_ops again)
qed

lemma lock_pid_777: "parseWatchLockPid test_host (lock_text ''777'') = Some 777"
  by (simp add: parseWatchLockPid_def host_fields lock_text_def not_blank_first is_ws_def
      parse_simps integer_value_def)

lemma lock_pid_555: "parseWatchLockPid test_host (lock_text ''555'') = Some 555"
  by (simp add: parseWatchLockPid_def host_fields lock_text_def not_blank_first is_ws_def
      parse_simps integer_value_def)

lemma own_descriptor: "lock_descriptor test_host test_created_at = own_lock_text"
  by (simp add: lock_descriptor_def test_host_def test_created_at_def own_lock_text_def
      quote_def test_Number_toString_def show_nat.simps digit_char_def)

lemma lock_pid_own: "parseWatchLockPid test_host own_lock_text = Some 4242"
  by (simp add: parseWatchLockPid_def host_fields own_lock_text_def not_blank_first is_ws_def
      parse_simps integer_value_def)

lemma racing_acquire:
  "acquireWatchLock test_host test_created_at racing_world
     = (Inr NoHandle,
        \<lparr>lock_file = LockFile (lock_text ''777''), others = [],
         fs_ops = [OpMkdir, OpCreate, OpRead, OpUnlink, OpMkdir, OpCreate]\<rparr>)"
  by (simp add: acquireWatchLock_def racing_world_def writeLock_def mkdirSync_def
      openSync_wx_def readFileSync_def unlinkSync_def env_turn_def lock_pid_555
      isProcessAlive_def host_fields)

theorem watch_lock_witness:
  "acquireWatchLock test_host test_created_at (quiet_world (LockFile (lock_text ''777'')))
     = (Inr NoHandle,
        \<lparr>lock_file = LockFile (lock_text ''777''), others = [],
         fs_ops = [OpMkdir, OpCreate, OpRead]\<rparr>)
   \<and> watch test_host watch_options test_created_at (quiet_world (LockFile (lock_text ''777'')))
       (fs_with_manifest two_rule_manifest_text []) []
     = \<lparr>entered_watch = False, hook_runs = [], raised = None,
        final_lock = \<lparr>lock_file = LockFile (lock_text ''777''), others = [],
                       fs_ops = [OpMkdir, OpCreate, OpRead]\<rparr>\<rparr>
   \<and> acquireWatchLock test_host test_created_at (quiet_world (LockFile (lock_text ''555'')))
     = (Inr ReleaseHandle,
        \<lparr>lock_file = LockFile own_lock_text, others = [],
         fs_ops = [OpMkdir, OpCreate, OpRead, OpUnlink, OpMkdir, OpCreate]\<rparr>)
   \<and> acquireWatchLock test_host test_created_at (quiet_world NoDirectory)
     = (Inr ReleaseHandle,
        \<lparr>lock_file = LockFile own_lock_text, others = [], fs_ops = [OpMkdir, OpCreate]\<rparr>)
   \<and> acquireWatchLock test_host test_created_at (quiet_world DirectoryIsFile)
     = (Inr NoHandle,
        \<lparr>lock_file = DirectoryIsFile, others = [], fs_ops = [OpMkdir, OpRead, OpUnlink]\<rparr>)
   \<and> acquireWatchLock test_host test_created_at racing_world
     = (Inr NoHandle,
        \<lparr>lock_file = LockFile (lock_text ''777''), others = [],
         fs_ops = [OpMkdir, OpCreate, OpRead, OpUnlink, OpMkdir, OpCreate]\<rparr>)
   \<and> releaseWatchLock test_host False (quiet_world (LockFile own_lock_text))
     = (True, \<lparr>lock_file = NoFile, others = [], fs_ops = [OpRead, OpUnlink]\<rparr>)
   \<and> releaseWatchLock test_host False (quiet_world (LockFile (lock_text ''777'')))
     = (True, \<lparr>lock_file = LockFile (lock_text ''777''), others = [], fs_ops = [OpRead]\<rparr>)"
proof -
  note T = watch_lock [where h = test_host and c = test_created_at]
  have a1: "acquireWatchLock test_host test_created_at (quiet_world (LockFile (lock_text ''777'')))
     = (Inr NoHandle,
        (quiet_world (LockFile (lock_text ''777'')))
          \<lparr>fs_ops := fs_ops (quiet_world (LockFile (lock_text ''777'')))
             @ [OpMkdir, OpCreate, OpRead]\<rparr>)
     \<and> (readManifest test_host (fs_with_manifest two_rule_manifest_text [])
            (codexHome watch_options) = Inr two_rule_manifest
          \<longrightarrow> watch test_host watch_options test_created_at
                (quiet_world (LockFile (lock_text ''777'')))
                (fs_with_manifest two_rule_manifest_text []) []
              = \<lparr>entered_watch = False, hook_runs = [], raised = None,
                 final_lock = (quiet_world (LockFile (lock_text ''777'')))
                   \<lparr>fs_ops := fs_ops (quiet_world (LockFile (lock_text ''777'')))
                      @ [OpMkdir, OpCreate, OpRead]\<rparr>\<rparr>)"
    by (rule T [THEN conjunct1, rule_format, where raw = "lock_text ''777''"])
      (simp add: quiet_world_def lock_pid_777 isProcessAlive_def host_fields)
  have a2: "acquireWatchLock test_host test_created_at (quiet_world (LockFile (lock_text ''555'')))
     = (Inr ReleaseHandle,
        (quiet_world (LockFile (lock_text ''555'')))
          \<lparr>fs_ops := fs_ops (quiet_world (LockFile (lock_text ''555'')))
             @ [OpMkdir, OpCreate, OpRead, OpUnlink, OpMkdir, OpCreate],
           lock_file := LockFile (lock_descriptor test_host test_created_at)\<rparr>)"
    by (rule T [THEN conjunct2, THEN conjunct1, rule_format, where raw = "lock_text ''555''"])
      (simp add: quiet_world_def lock_pid_555 isProcessAlive_def host_fields)
  have a5: "acquireWatchLock test_host test_created_at (quiet_world NoDirectory)
     = (Inr ReleaseHandle,
        (quiet_world NoDirectory)
          \<lparr>fs_ops := fs_ops (quiet_world NoDirectory) @ [OpMkdir, OpCreate],
           lock_file := LockFile (lock_descriptor test_host test_created_at)\<rparr>)"
    by (rule T [THEN conjunct2, THEN conjunct2, THEN conjunct1, rule_format])
      (simp add: quiet_world_def)
  have a6: "acquireWatchLock test_host test_created_at (quiet_world DirectoryIsFile)
     = (Inr NoHandle,
        (quiet_world DirectoryIsFile)
          \<lparr>fs_ops := fs_ops (quiet_world DirectoryIsFile) @ [OpMkdir, OpRead, OpUnlink]\<rparr>)"
    by (rule T [THEN conjunct2, THEN conjunct2, THEN conjunct2, THEN conjunct1, rule_format])
      (simp add: quiet_world_def)
  note R = T [THEN conjunct2, THEN conjunct2, THEN conjunct2, THEN conjunct2, THEN conjunct2,
      THEN conjunct2, THEN conjunct1, rule_format]
  have a3: "releaseWatchLock test_host False (quiet_world (LockFile own_lock_text))
     = (True, \<lparr>lock_file = NoFile, others = [], fs_ops = [OpRead, OpUnlink]\<rparr>)"
    using R [of "quiet_world (LockFile own_lock_text)"]
    by (simp add: quiet_world_def lock_pid_own host_fields)
  have a4: "releaseWatchLock test_host False (quiet_world (LockFile (lock_text ''777'')))
     = (True, \<lparr>lock_file = LockFile (lock_text ''777''), others = [], fs_ops = [OpRead]\<rparr>)"
    using R [of "quiet_world (LockFile (lock_text ''777''))"]
    by (simp add: quiet_world_def lock_pid_777 host_fields)
  have opts: "codexHome watch_options = test_home"
    by (simp add: watch_options_def)
  show ?thesis
    using a1 a2 a3 a4 a5 a6 racing_acquire
    by (simp add: quiet_world_def own_descriptor read_two_rule opts)
qed

subsection \<open>Dedup cache\<close>

lemma update_fresh: "k \<notin> fst ` set al \<Longrightarrow> AList.update k v al = al @ [(k, v)]"
  by (induction al) auto

lemma update_known_length: "k \<in> fst ` set al \<Longrightarrow> length (AList.update k v al) = length al"
  by (induction al) auto

lemma evict_bound: "length (evict nowMs c) \<le> RECENT_EVENT_MAX"
  by (induction c) (auto simp: RECENT_EVENT_MAX_def)

lemma evict_suffix: "\<exists>n \<le> length c. evict nowMs c = drop n c"
proof (induction c)
  case Nil
  show ?case by simp
next
  case (Cons e c)
  obtain k t where e: "e = (k, t)" by (cases e)
  from Cons obtain n where n: "n \<le> length c" "evict nowMs c = drop n c" by blast
  show ?case
  proof (cases "nowMs - t > RECENT_EVENT_TTL_MS \<or> Suc (length c) > RECENT_EVENT_MAX")
    case True
    with e n have "evict nowMs (e # c) = drop (Suc n) (e # c)" by simp
    with n(1) show ?thesis by (intro exI [of _ "Suc n"]) simp
  next
    case False
    with e have "evict nowMs (e # c) = drop 0 (e # c)" by simp
    then show ?thesis by (intro exI [of _ 0]) simp
  qed
qed

lemma evict_keeps_last:
  "\<not> nowMs - t > RECENT_EVENT_TTL_MS \<Longrightarrow> \<exists>ys. evict nowMs (c @ [(k, t)]) = ys @ [(k, t)]"
proof (induction c)
  case Nil
  then show ?case by (simp add: RECENT_EVENT_MAX_def)
next
  case (Cons e c)
  obtain k' t' where e: "e = (k', t')" by (cases e)
  from Cons obtain ys where ys: "evict nowMs (c @ [(k, t)]) = ys @ [(k, t)]" by blast
  show ?case
  proof (cases "nowMs - t' > RECENT_EVENT_TTL_MS \<or> Suc (length (c @ [(k, t)])) > RECENT_EVENT_MAX")
    case True
    with e ys show ?thesis by auto
  next
    case False
    with e have "evict nowMs ((e # c) @ [(k, t)]) = (e # c) @ [(k, t)]" by simp
    then show ?thesis by blast
  qed
qed

lemma evict_distinct: "distinct (map fst c) \<Longrightarrow> distinct (map fst (evict nowMs c))"
  using evict_suffix [of c nowMs] by (auto simp: drop_map [symmetric])

lemma record_bound:
  "length (recentEvents (snd (recordAndCheckDuplicateEvent h st s))) \<le> RECENT_EVENT_MAX"
  by (simp add: recordAndCheckDuplicateEvent_def Let_def evict_bound)

lemma record_cache_ok:
  "distinct (map fst (recentEvents st)) \<Longrightarrow> cache_ok (snd (recordAndCheckDuplicateEvent h st s))"
  using record_bound [of h st s]
  by (simp add: cache_ok_def recordAndCheckDuplicateEvent_def Let_def evict_distinct
      distinct_update)

lemma record_result:
  "fst (recordAndCheckDuplicateEvent h st s) =
     (case map_of (recentEvents st) s of
        None \<Rightarrow> False
      | Some seen \<Rightarrow> Date_now h (clock_reads st) - seen \<le> RECENT_EVENT_TTL_MS)"
  by (simp add: recordAndCheckDuplicateEvent_def Let_def)

lemma record_reads:
  "clock_reads (snd (recordAndCheckDuplicateEvent h st s)) = Suc (clock_reads st)"
  by (simp add: recordAndCheckDuplicateEvent_def Let_def)

lemma record_no_eviction:
  assumes "length (AList.update s (Date_now h (clock_reads st)) (recentEvents st))
             \<le> RECENT_EVENT_MAX"
  shows "recentEvents (snd (recordAndCheckDuplicateEvent h st s))
           = AList.update s (Date_now h (clock_reads st)) (recentEvents st)"
  using assms by (simp add: recordAndCheckDuplicateEvent_def Let_def)

lemma record_slides:
  assumes "cache_ok st"
  shows "map_of (recentEvents (snd (recordAndCheckDuplicateEvent h st s))) s
           = Some (Date_now h (clock_reads st))"
proof (cases "s \<in> fst ` set (recentEvents st)")
  case True
  then have "length (AList.update s (Date_now h (clock_reads st)) (recentEvents st))
               \<le> RECENT_EVENT_MAX"
    using assms by (simp add: update_known_length cache_ok_def)
  from record_no_eviction [OF this] show ?thesis
    by (simp add: update_conv')
next
  case False
  let ?now = "Date_now h (clock_reads st)"
  let ?c = "recentEvents st"
  have upd: "AList.update s ?now ?c = ?c @ [(s, ?now)]"
    using False by (rule update_fresh)
  obtain ys where ys: "evict ?now (?c @ [(s, ?now)]) = ys @ [(s, ?now)]"
    using evict_keeps_last [of ?now ?now ?c s] by (auto simp: RECENT_EVENT_TTL_MS_def)
  obtain n where n: "evict ?now (?c @ [(s, ?now)]) = drop n (?c @ [(s, ?now)])"
    using evict_suffix by blast
  have "s \<notin> fst ` set ys"
  proof -
    have "distinct (map fst (ys @ [(s, ?now)]))"
      using evict_distinct [of "?c @ [(s, ?now)]" ?now] assms False ys
      by (simp add: cache_ok_def)
    then show ?thesis by auto
  qed
  then have m: "map_of (ys @ [(s, ?now)]) s = Some ?now"
    by (simp add: map_add_Some_iff map_of_eq_None_iff)
  have m0: "map_of (?c @ [(s, ?now)]) s = Some ?now"
    using False by (simp add: map_add_Some_iff map_of_eq_None_iff)
  show ?thesis
    using upd ys m m0 by (simp add: recordAndCheckDuplicateEvent_def Let_def)
qed


lemma update_keys: "fst ` set (AList.update k v al) = insert k (fst ` set al)"
  by (induction al) auto

lemma window_refines:
  assumes "distinct (map fst (recentEvents st))"
    and "card (fst ` set (recentEvents st) \<union> set sigs) \<le> RECENT_EVENT_MAX"
  shows "fst (check_all h st sigs)
           = spec_window (Date_now h) (clock_reads st) (map_of (recentEvents st)) sigs"
  using assms
proof (induction sigs arbitrary: st)
  case Nil
  show ?case by simp
next
  case (Cons s ss)
  let ?now = "Date_now h (clock_reads st)"
  let ?c = "recentEvents st"
  let ?u = "AList.update s ?now ?c"
  obtain d st1 where r: "recordAndCheckDuplicateEvent h st s = (d, st1)" by fastforce
  have du: "distinct (map fst ?u)"
    using Cons.prems(1) by (simp add: distinct_update)
  have "length ?u = card (fst ` set ?u)"
    using du by (metis distinct_card length_map list.set_map)
  also have "\<dots> \<le> card (fst ` set ?c \<union> set (s # ss))"
    by (rule card_mono) (auto simp: update_keys)
  finally have len: "length ?u \<le> RECENT_EVENT_MAX"
    using Cons.prems(2) by simp
  have c1: "recentEvents st1 = ?u"
    using record_no_eviction [OF len] r by simp
  have k1: "clock_reads st1 = Suc (clock_reads st)"
    using record_reads [of h st s] r by simp
  have d: "d = (case map_of ?c s of None \<Rightarrow> False
                | Some seen \<Rightarrow> ?now - seen \<le> RECENT_EVENT_TTL_MS)"
    using record_result [of h st s] r by simp
  have keys: "fst ` set (recentEvents st1) \<union> set ss = fst ` set ?c \<union> set (s # ss)"
    by (auto simp: c1 update_keys)
  have ih: "fst (check_all h st1 ss)
              = spec_window (Date_now h) (clock_reads st1) (map_of (recentEvents st1)) ss"
    using Cons.IH [of st1] du Cons.prems(2) keys by (simp add: c1)
  show ?case
    using ih by (cases "check_all h st1 ss") (simp add: r d c1 k1 update_conv')
qed

lemma adjacent_checks:
  assumes "cache_ok st"
  shows "fst (recordAndCheckDuplicateEvent h (snd (recordAndCheckDuplicateEvent h st s)) s)
           = (Date_now h (Suc (clock_reads st)) - Date_now h (clock_reads st)
                \<le> RECENT_EVENT_TTL_MS)"
  using record_slides [OF assms, of h s]
  by (simp add: record_result record_reads)

lemma since_skips_record:
  "since_skips (snd (recordAndCheckDuplicateEvent h st s)) ev = since_skips st ev"
  by (simp add: since_skips_def recordAndCheckDuplicateEvent_def Let_def)

lemma twin_lines:
  assumes "cache_ok st" and "\<not> is_blank l" and "parseCodexEvent h l = Some ev"
    and "\<not> since_skips st ev" and "executeEvent h m ev pr = (runs, None)"
    and "map_of (recentEvents st) l = None"
  shows "fst (snd (process_lines h m pr st [l, l]))
           = (if Date_now h (Suc (clock_reads st)) - Date_now h (clock_reads st)
                   \<le> RECENT_EVENT_TTL_MS
              then runs else runs @ runs)"
proof -
  obtain d1 st1 where r1: "recordAndCheckDuplicateEvent h st l = (d1, st1)" by fastforce
  obtain d2 st2 where r2: "recordAndCheckDuplicateEvent h st1 l = (d2, st2)" by fastforce
  have d1: "d1 = False"
    using record_result [of h st l] r1 assms(6) by simp
  have d2: "d2 = (Date_now h (Suc (clock_reads st)) - Date_now h (clock_reads st)
                \<le> RECENT_EVENT_TTL_MS)"
    using adjacent_checks [OF assms(1), of h l] r1 r2 by simp
  have sk: "\<not> since_skips st1 ev"
    using since_skips_record [of h st l ev] r1 assms(4) by simp
  show ?thesis
    using assms(2,3,4,5) sk by (simp add: r1 r2 d1 d2)
qed

lemma check_all_fresh:
  assumes "distinct ss" and "set ss \<inter> fst ` set (recentEvents st) = {}"
    and "length (recentEvents st) + length ss \<le> RECENT_EVENT_MAX"
  shows "check_all h st ss
           = (replicate (length ss) False,
              st\<lparr>recentEvents := recentEvents st
                    @ zip ss (map (Date_now h) [clock_reads st ..< clock_reads st + length ss]),
                 clock_reads := clock_reads st + length ss\<rparr>)"
  using assms
proof (induction ss arbitrary: st)
  case Nil
  show ?case by simp
next
  case (Cons s ss)
  let ?now = "Date_now h (clock_reads st)"
  let ?st1 = "st\<lparr>recentEvents := recentEvents st @ [(s, ?now)],
                  clock_reads := Suc (clock_reads st)\<rparr>"
  have fresh: "s \<notin> fst ` set (recentEvents st)"
    using Cons.prems(2) by auto
  have mn: "map_of (recentEvents st) s = None"
    using fresh by (simp add: map_of_eq_None_iff)
  have r: "recordAndCheckDuplicateEvent h st s = (False, ?st1)"
    using fresh Cons.prems(3)
    by (simp add: recordAndCheckDuplicateEvent_def Let_def update_fresh mn)
  have ih: "check_all h ?st1 ss
           = (replicate (length ss) False,
              ?st1\<lparr>recentEvents := recentEvents ?st1
                    @ zip ss (map (Date_now h) [clock_reads ?st1 ..< clock_reads ?st1 + length ss]),
                 clock_reads := clock_reads ?st1 + length ss\<rparr>)"
    using Cons.prems by (intro Cons.IH) auto
  have upt: "[clock_reads st ..< clock_reads st + length (s # ss)]
               = clock_reads st # [Suc (clock_reads st) ..< Suc (clock_reads st) + length ss]"
    using upt_conv_Cons [of "clock_reads st" "Suc (clock_reads st + length ss)"] by simp
  show ?case
    unfolding upt by (simp add: r ih)
qed

lemma check_all_append:
  "check_all h st (xs @ ys) =
     (case check_all h st xs of
        (ds, st1) \<Rightarrow> (case check_all h st1 ys of (es, st2) \<Rightarrow> (ds @ es, st2)))"
  by (induction xs arbitrary: st) (auto split: prod.splits)

lemma evict_expired_prefix:
  "list_all (\<lambda>e. nowMs - snd e > RECENT_EVENT_TTL_MS) xs \<Longrightarrow> evict nowMs (xs @ ys) = evict nowMs ys"
  by (induction xs) auto


lemma filler_inj: "filler i = filler j \<Longrightarrow> i = j"
  by (metis filler_def length_replicate nat.inject)

lemma warmup_distinct: "distinct (warmup_lines n)"
  by (auto simp: warmup_lines_def distinct_map filler_def intro!: inj_onI
      dest: arg_cong [where f = length])

lemma warmup_length: "length (warmup_lines n) = Suc n"
  by (simp add: warmup_lines_def)

lemma filler_fresh: "filler n \<notin> set (warmup_lines n)"
  by (auto simp: warmup_lines_def filler_def dest: arg_cong [where f = length])

lemma a_not_filler: "''a'' \<noteq> filler i"
  by (simp add: filler_def)

lemma evict_stops:
  "c \<noteq> [] \<Longrightarrow> \<not> nowMs - snd (hd c) > RECENT_EVENT_TTL_MS \<Longrightarrow> length c \<le> RECENT_EVENT_MAX
     \<Longrightarrow> evict nowMs c = c"
  by (cases c) auto

lemma empty_cache: "recentEvents (initial_state o1) = []" "clock_reads (initial_state o1) = 0"
  by (simp_all add: initial_state_def)

lemma warm_cache:
  assumes "Suc n = RECENT_EVENT_MAX"
  shows "check_all h (initial_state o1) (warmup_lines n)
           = (replicate (Suc n) False,
              (initial_state o1)
                \<lparr>recentEvents := zip (warmup_lines n) (map (Date_now h) [0..<Suc n]),
                 clock_reads := Suc n\<rparr>)"
  using check_all_fresh [of "warmup_lines n" "initial_state o1" h] assms
  by (simp add: warmup_distinct warmup_length empty_cache del: upt_Suc)

text \<open>The warm cache as a head entry followed by the fillers.\<close>

lemma warm_zip:
  "zip (warmup_lines n) (map f [0..<Suc n])
     = (''a'', f 0) # zip (map filler [0..<n]) (map f [Suc 0..<Suc n])"
  using upt_conv_Cons [of 0 "Suc n"] by (simp add: warmup_lines_def del: upt_Suc)

lemma filler_cache:
  "length (zip (map filler [0..<n]) (map f [Suc 0..<Suc n])) = n"
  "map fst (zip (map filler [0..<n]) (map f [Suc 0..<Suc n])) = map filler [0..<n]"
  "map snd (zip (map filler [0..<n]) (map f [Suc 0..<Suc n])) = map f [Suc 0..<Suc n]"
  by (simp_all del: upt_Suc)

lemma filler_keys:
  "fst ` set (zip (map filler [0..<n]) (map f [Suc 0..<Suc n])) = filler ` {0..<n}"
proof -
  let ?Z = "zip (map filler [0..<n]) (map f [Suc 0..<Suc n])"
  have "fst ` set ?Z = set (map fst ?Z)" by (simp only: set_map)
  also have "\<dots> = set (map filler [0..<n])" by (simp only: filler_cache(2))
  also have "\<dots> = filler ` {0..<n}" by (simp only: set_map set_upt)
  finally show ?thesis .
qed

lemma filler_times:
  assumes "e \<in> set (zip (map filler [0..<n]) (map f [Suc 0..<Suc n]))"
  shows "snd e \<in> f ` {Suc 0..<Suc n}"
proof -
  let ?Z = "zip (map filler [0..<n]) (map f [Suc 0..<Suc n])"
  have "snd e \<in> set (map snd ?Z)" using assms by (simp only: set_map) (rule imageI)
  also have "set (map snd ?Z) = set (map f [Suc 0..<Suc n])" by (simp only: filler_cache(3))
  also have "\<dots> = f ` {Suc 0..<Suc n}" by (simp only: set_map set_upt)
  finally show ?thesis .
qed

lemma overflow_evicts_head:
  assumes "recentEvents st = (a, t0) # R" and "length R = n" and "Suc n = RECENT_EVENT_MAX"
    and "R \<noteq> []" and "\<not> Date_now h (clock_reads st) - snd (hd R) > RECENT_EVENT_TTL_MS"
    and "s \<notin> fst ` set ((a, t0) # R)"
  shows "recordAndCheckDuplicateEvent h st s
           = (False, st\<lparr>recentEvents := R @ [(s, Date_now h (clock_reads st))],
                       clock_reads := Suc (clock_reads st)\<rparr>)"
proof -
  let ?now = "Date_now h (clock_reads st)"
  have mn: "map_of ((a, t0) # R) s = None"
    using assms(6) by (simp only: map_of_eq_None_iff) simp
  have hd: "hd (R @ [(s, ?now)]) = hd R"
    using assms(4) by simp
  have "evict ?now (((a, t0) # R) @ [(s, ?now)]) = evict ?now (R @ [(s, ?now)])"
    using assms(2,3) by simp
  also have "\<dots> = R @ [(s, ?now)]"
    using assms(2,3,5) hd by (intro evict_stops) simp_all
  finally have ev: "evict ?now (((a, t0) # R) @ [(s, ?now)]) = R @ [(s, ?now)]" .
  show ?thesis
    using update_fresh [OF assms(6), of ?now] ev mn assms(1,2,3)
    by (simp add: recordAndCheckDuplicateEvent_def Let_def)
qed

lemma fast_overflow:
  assumes "Suc n = RECENT_EVENT_MAX" and "0 < n" and "\<And>k. Date_now h k = int k"
  shows "fst (check_all h (initial_state o1) (warmup_lines n @ [filler n, ''a'']))
           = replicate (Suc n) False @ [False, False]"
proof -
  let ?R = "zip (map filler [0..<n]) (map (Date_now h) [Suc 0..<Suc n])"
  let ?st1 = "(initial_state o1)\<lparr>recentEvents := (''a'', Date_now h 0) # ?R,
                 clock_reads := Suc n\<rparr>"
  have w: "check_all h (initial_state o1) (warmup_lines n) = (replicate (Suc n) False, ?st1)"
    using warm_cache [OF assms(1), of h o1] by (simp only: warm_zip)
  have lenR: "length ?R = n"
    by (rule filler_cache)
  have keysR: "fst ` set ?R = filler ` {0..<n}"
    by (rule filler_keys)
  have ne: "?R \<noteq> []"
    using lenR assms(2) by auto
  then have "hd ?R \<in> set ?R" by simp
  then have "snd (hd ?R) \<in> Date_now h ` {Suc 0..<Suc n}"
    by (rule filler_times)
  then have notexp: "\<not> Date_now h (clock_reads ?st1) - snd (hd ?R) > RECENT_EVENT_TTL_MS"
    using assms(1,3) by (auto simp: RECENT_EVENT_MAX_def RECENT_EVENT_TTL_MS_def)
  have fresh: "filler n \<notin> fst ` set ((''a'', Date_now h 0) # ?R)"
    using a_not_filler [of n] by (auto simp: keysR simp del: upt_Suc dest!: filler_inj)
  let ?st2 = "?st1\<lparr>recentEvents := ?R @ [(filler n, Date_now h (clock_reads ?st1))],
                   clock_reads := Suc (clock_reads ?st1)\<rparr>"
  have r2: "recordAndCheckDuplicateEvent h ?st1 (filler n) = (False, ?st2)"
    by (rule overflow_evicts_head [OF _ lenR assms(1) ne notexp fresh]) simp
  have "''a'' \<notin> fst ` set (?R @ [(filler n, Date_now h (clock_reads ?st1))])"
    using a_not_filler by (auto simp: keysR simp del: upt_Suc)
  then have a_gone: "map_of (recentEvents ?st2) ''a'' = None"
    by (simp only: map_of_eq_None_iff) simp
  obtain d3 st3 where r3: "recordAndCheckDuplicateEvent h ?st2 ''a'' = (d3, st3)"
    by fastforce
  have "fst (recordAndCheckDuplicateEvent h ?st2 ''a'') = False"
    using a_gone by (simp only: record_result) simp
  then have d3: "d3 = False"
    by (simp only: r3 fst_conv)
  show ?thesis
    using r3 [unfolded d3] by (simp add: check_all_append w r2 del: upt_Suc)
qed


lemma evict_char:
  "\<exists>n \<le> length c. evict nowMs c = drop n c
      \<and> (\<forall>i<n. nowMs - snd (c ! i) > RECENT_EVENT_TTL_MS \<or> length c - i > RECENT_EVENT_MAX)
      \<and> (n < length c \<longrightarrow> \<not> nowMs - snd (c ! n) > RECENT_EVENT_TTL_MS
                           \<and> length c - n \<le> RECENT_EVENT_MAX)"
proof (induction c)
  case Nil
  show ?case by simp
next
  case (Cons e c)
  obtain k t where e: "e = (k, t)" by (cases e)
  from Cons obtain n where n: "n \<le> length c" "evict nowMs c = drop n c"
    "\<forall>i<n. nowMs - snd (c ! i) > RECENT_EVENT_TTL_MS \<or> length c - i > RECENT_EVENT_MAX"
    "n < length c \<longrightarrow> \<not> nowMs - snd (c ! n) > RECENT_EVENT_TTL_MS
                           \<and> length c - n \<le> RECENT_EVENT_MAX"
    by blast
  show ?case
  proof (cases "nowMs - t > RECENT_EVENT_TTL_MS \<or> Suc (length c) > RECENT_EVENT_MAX")
    case True
    have 1: "evict nowMs (e # c) = drop (Suc n) (e # c)"
      using True e n(2) by simp
    have 2: "\<forall>i<Suc n. nowMs - snd ((e # c) ! i) > RECENT_EVENT_TTL_MS
                \<or> length (e # c) - i > RECENT_EVENT_MAX"
    proof (intro allI impI)
      fix i assume "i < Suc n"
      then show "nowMs - snd ((e # c) ! i) > RECENT_EVENT_TTL_MS
                \<or> length (e # c) - i > RECENT_EVENT_MAX"
        using True e n(3) by (cases i) auto
    qed
    have 3: "Suc n < length (e # c) \<longrightarrow> \<not> nowMs - snd ((e # c) ! Suc n) > RECENT_EVENT_TTL_MS
                           \<and> length (e # c) - Suc n \<le> RECENT_EVENT_MAX"
      using n(4) by simp
    show ?thesis
      using n(1) 1 2 3 by (intro exI [of _ "Suc n"]) simp
  next
    case False
    then have "evict nowMs (e # c) = drop 0 (e # c)"
      using e by simp
    then show ?thesis
      using False e by (intro exI [of _ 0]) auto
  qed
qed

lemma spec_eviction_fresh:
  "list_all (\<lambda>e. \<not> nowMs - snd e > RECENT_EVENT_TTL_MS) c \<Longrightarrow>
     spec_eviction nowMs c = drop (length c - RECENT_EVENT_MAX) c"
proof -
  assume "list_all (\<lambda>e. \<not> nowMs - snd e > RECENT_EVENT_TTL_MS) c"
  then have "filter (\<lambda>e. \<not> nowMs - snd e > RECENT_EVENT_TTL_MS) c = c"
    by (simp add: list_all_iff)
  then show ?thesis by (simp add: spec_eviction_def)
qed

lemma evict_fresh:
  "list_all (\<lambda>e. \<not> nowMs - snd e > RECENT_EVENT_TTL_MS) c \<Longrightarrow>
     evict nowMs c = drop (length c - RECENT_EVENT_MAX) c"
proof (induction c)
  case Nil
  show ?case by simp
next
  case (Cons e c)
  obtain k t where e: "e = (k, t)" by (cases e)
  show ?case
  proof (cases "Suc (length c) > RECENT_EVENT_MAX")
    case True
    then have "length (e # c) - RECENT_EVENT_MAX = Suc (length c - RECENT_EVENT_MAX)"
      by simp
    with True Cons e show ?thesis by simp
  next
    case False
    with Cons.prems e show ?thesis by simp
  qed
qed

lemma evict_sorted:
  "sorted (map snd c) \<Longrightarrow> evict nowMs c = spec_eviction nowMs c"
proof (induction c)
  case Nil
  show ?case by (simp add: spec_eviction_def)
next
  case (Cons e c)
  obtain k t where e: "e = (k, t)" by (cases e)
  have sc: "sorted (map snd c)" using Cons.prems by simp
  show ?case
  proof (cases "nowMs - t > RECENT_EVENT_TTL_MS")
    case True
    have "spec_eviction nowMs (e # c) = spec_eviction nowMs c"
      using True e by (simp add: spec_eviction_def)
    with True e Cons.IH [OF sc] show ?thesis by simp
  next
    case False
    have "list_all (\<lambda>x. \<not> nowMs - snd x > RECENT_EVENT_TTL_MS) (e # c)"
      using False e Cons.prems by (auto simp: list_all_iff)
    then show ?thesis
      using evict_fresh spec_eviction_fresh by metis
  qed
qed

lemma refresh_overflow:
  assumes "Suc n = RECENT_EVENT_MAX" and "0 < n"
    and "\<And>k. k < Suc n \<Longrightarrow> Date_now h k = 0"
    and "Date_now h (Suc n) = 40000" and "Date_now h (Suc (Suc n)) = 40001"
  shows "recentEvents (snd (check_all h (initial_state o1) (warmup_lines n @ [''a''])))
           = (''a'', 40000) # zip (map filler [0..<n]) (map (Date_now h) [Suc 0..<Suc n])"
    and "recentEvents (snd (check_all h (initial_state o1) (warmup_lines n @ [''a'', filler n])))
           = [(filler n, 40001)]"
    and "spec_eviction 40001
           (AList.update (filler n) 40001
              (recentEvents (snd (check_all h (initial_state o1) (warmup_lines n @ [''a''])))))
           = [(''a'', 40000), (filler n, 40001)]"
proof -
  let ?R = "zip (map filler [0..<n]) (map (Date_now h) [Suc 0..<Suc n])"
  let ?st1 = "(initial_state o1)\<lparr>recentEvents := (''a'', Date_now h 0) # ?R,
                 clock_reads := Suc n\<rparr>"
  have w: "check_all h (initial_state o1) (warmup_lines n) = (replicate (Suc n) False, ?st1)"
    using warm_cache [OF assms(1), of h o1] by (simp only: warm_zip)
  have lenR: "length ?R = n"
    by (rule filler_cache)
  have keysR: "fst ` set ?R = filler ` {0..<n}"
    by (rule filler_keys)
  have old: "e \<in> set ?R \<Longrightarrow> snd e = 0" for e
    using filler_times [of e n "Date_now h"] assms(3) by auto
  let ?st2 = "(initial_state o1)\<lparr>recentEvents := (''a'', 40000) # ?R,
                 clock_reads := Suc (Suc n)\<rparr>"
  have r1: "snd (recordAndCheckDuplicateEvent h ?st1 ''a'') = ?st2"
    using assms(1,4) lenR by (simp add: recordAndCheckDuplicateEvent_def Let_def del: upt_Suc)
  obtain d1 where rx: "recordAndCheckDuplicateEvent h ?st1 ''a'' = (d1, ?st2)"
    using r1 by (metis prod.collapse)
  have c1: "snd (check_all h (initial_state o1) (warmup_lines n @ [''a''])) = ?st2"
    by (simp add: check_all_append w rx del: upt_Suc)
  show g1: "recentEvents (snd (check_all h (initial_state o1) (warmup_lines n @ [''a''])))
           = (''a'', 40000) # ?R"
    by (simp only: c1) simp
  have fresh: "filler n \<notin> fst ` set ((''a'', 40000) # ?R)"
    using a_not_filler [of n] by (auto simp: keysR simp del: upt_Suc dest!: filler_inj)
  have upd: "AList.update (filler n) 40001 ((''a'', 40000) # ?R)
               = ((''a'', 40000) # ?R) @ [(filler n, 40001)]"
    by (rule update_fresh [OF fresh])
  have expired: "list_all (\<lambda>e. 40001 - snd e > RECENT_EVENT_TTL_MS) ?R"
    using old by (auto simp: list_all_iff RECENT_EVENT_TTL_MS_def simp del: upt_Suc)
  have ev: "evict 40001 (((''a'', 40000) # ?R) @ [(filler n, 40001)]) = [(filler n, 40001)]"
  proof -
    have "evict 40001 (((''a'', 40000) # ?R) @ [(filler n, 40001)])
            = evict 40001 (?R @ [(filler n, 40001)])"
      using assms(1) lenR by (simp del: upt_Suc)
    also have "\<dots> = evict 40001 [(filler n, 40001)]"
      by (rule evict_expired_prefix [OF expired])
    also have "\<dots> = [(filler n, 40001)]"
      by (simp add: RECENT_EVENT_TTL_MS_def RECENT_EVENT_MAX_def)
    finally show ?thesis .
  qed
  have mn: "map_of ((''a'', 40000) # ?R) (filler n) = None"
    using fresh by (simp only: map_of_eq_None_iff) simp
  have r2: "recentEvents (snd (recordAndCheckDuplicateEvent h ?st2 (filler n)))
              = [(filler n, 40001)]"
    using upd ev assms(1,5) lenR
    by (simp add: recordAndCheckDuplicateEvent_def Let_def del: upt_Suc)
  have split: "warmup_lines n @ [''a'', filler n] = (warmup_lines n @ [''a'']) @ [filler n]"
    by simp
  show "recentEvents (snd (check_all h (initial_state o1) (warmup_lines n @ [''a'', filler n])))
           = [(filler n, 40001)]"
  proof -
    obtain ds where cx: "check_all h (initial_state o1) (warmup_lines n @ [''a'']) = (ds, ?st2)"
      using c1 by (metis prod.collapse)
    obtain d2 x2 where ry: "recordAndCheckDuplicateEvent h ?st2 (filler n) = (d2, x2)"
      by fastforce
    have "recentEvents x2 = [(filler n, 40001)]"
      using r2 by (simp only: ry snd_conv)
    then show ?thesis
      by (simp add: check_all_append w rx ry del: upt_Suc)
  qed
  have filt: "filter (\<lambda>e. \<not> 40001 - snd e > RECENT_EVENT_TTL_MS) ?R = []"
    using expired by (simp add: list_all_iff filter_empty_conv del: upt_Suc)
  show "spec_eviction 40001
           (AList.update (filler n) 40001
              (recentEvents (snd (check_all h (initial_state o1) (warmup_lines n @ [''a''])))))
           = [(''a'', 40000), (filler n, 40001)]"
    unfolding g1 upd using filt
    by (simp add: spec_eviction_def RECENT_EVENT_TTL_MS_def RECENT_EVENT_MAX_def del: upt_Suc)
qed

lemma initial_cache_ok: "cache_ok (initial_state opts)"
  by (simp add: cache_ok_def initial_state_def)

lemma fast_overflow_ends:
  assumes "Suc n = RECENT_EVENT_MAX" and "0 < n" and "\<And>k. Date_now h k = int k"
  shows "hd (warmup_lines n @ [filler n, ''a'']) = ''a''
    \<and> last (warmup_lines n @ [filler n, ''a'']) = ''a''
    \<and> hd (fst (check_all h (initial_state o1) (warmup_lines n @ [filler n, ''a'']))) = False
    \<and> last (fst (check_all h (initial_state o1) (warmup_lines n @ [filler n, ''a'']))) = False"
proof -
  have f: "fst (check_all h (initial_state o1) (warmup_lines n @ [filler n, ''a'']))
             = replicate (Suc n) False @ [False, False]"
    by (rule fast_overflow [OF assms])
  have a: "hd (warmup_lines n @ [filler n, ''a'']) = ''a''"
    "last (warmup_lines n @ [filler n, ''a'']) = ''a''"
    by (simp_all add: warmup_lines_def)
  have b: "hd (replicate (Suc n) False @ [False, False]) = False"
    "last (replicate (Suc n) False @ [False, False]) = False"
    by simp_all
  show ?thesis
    by (simp only: f a b)
qed

text \<open>
  C2, as stated: of every two checks of the same text within the TTL of each other, the
  second is suppressed. It fails when the capacity trim evicts the signature between
  the two checks. On a clock that advances one millisecond per check, the text \<open>a\<close> is
  checked first, then 2000 other texts, then \<open>a\<close> again, 2001 ms after its first check:
  the 2000th other text pushes the cache over its ceiling and the pass deletes the
  oldest entry, which is \<open>a\<close>; the last check finds no entry and is not suppressed.
\<close>

theorem dedup_miss_after_eviction:
  "hd (warmup_lines 1999 @ [filler 1999, ''a'']) = ''a''
   \<and> last (warmup_lines 1999 @ [filler 1999, ''a'']) = ''a''
   \<and> hd (fst (check_all fast_host (initial_state once_options)
               (warmup_lines 1999 @ [filler 1999, ''a'']))) = False
   \<and> last (fst (check_all fast_host (initial_state once_options)
               (warmup_lines 1999 @ [filler 1999, ''a'']))) = False
   \<and> Date_now fast_host 2001 - Date_now fast_host 0 \<le> RECENT_EVENT_TTL_MS"
proof -
  have n: "Suc 1999 = RECENT_EVENT_MAX" "0 < (1999::nat)"
    by (simp_all add: RECENT_EVENT_MAX_def)
  have clock: "Date_now fast_host k = int k" for k
    by (simp add: fast_host_def)
  have gap: "Date_now fast_host 2001 - Date_now fast_host 0 \<le> RECENT_EVENT_TTL_MS"
    by (simp add: clock RECENT_EVENT_TTL_MS_def)
  show ?thesis
    using fast_overflow_ends [OF n clock, of once_options] gap by blast
qed

text \<open>
  C2, amended. In a state whose cache has distinct keys and at most 2000 entries (the
  initial state is one, and every check leaves one): every check records the current
  time as the signature's last-seen time, hit or miss, so the window slides; the second
  of two consecutive checks of the same text is suppressed exactly when the clock
  advanced by at most the TTL between them; while the cache and the checked texts
  together hold at most 2000 different signatures, a sequence of checks gives exactly
  the answers of the sliding window over a plain map; and a file pass over two copies
  of a line that parses to an event, is not below the since floor and is new to the
  cache dispatches the event once when the two checks are at most the TTL apart and
  twice otherwise.
\<close>

theorem dedup_window:
  assumes "cache_ok st"
  shows
   "map_of (recentEvents (snd (recordAndCheckDuplicateEvent h st s))) s
      = Some (Date_now h (clock_reads st))
    \<and> cache_ok (snd (recordAndCheckDuplicateEvent h st s))
    \<and> fst (recordAndCheckDuplicateEvent h (snd (recordAndCheckDuplicateEvent h st s)) s)
        = (Date_now h (Suc (clock_reads st)) - Date_now h (clock_reads st)
             \<le> RECENT_EVENT_TTL_MS)
    \<and> (card (fst ` set (recentEvents st) \<union> set sigs) \<le> RECENT_EVENT_MAX
       \<longrightarrow> fst (check_all h st sigs)
             = spec_window (Date_now h) (clock_reads st) (map_of (recentEvents st)) sigs)
    \<and> (\<not> is_blank l \<and> parseCodexEvent h l = Some ev \<and> \<not> since_skips st ev
         \<and> executeEvent h m ev pr = (runs, None) \<and> map_of (recentEvents st) l = None
       \<longrightarrow> fst (snd (process_lines h m pr st [l, l]))
             = (if Date_now h (Suc (clock_reads st)) - Date_now h (clock_reads st)
                     \<le> RECENT_EVENT_TTL_MS
                then runs else runs @ runs))"
proof -
  have d: "distinct (map fst (recentEvents st))"
    using assms by (simp add: cache_ok_def)
  have win: "card (fst ` set (recentEvents st) \<union> set sigs) \<le> RECENT_EVENT_MAX
       \<longrightarrow> fst (check_all h st sigs)
             = spec_window (Date_now h) (clock_reads st) (map_of (recentEvents st)) sigs"
    using window_refines [OF d] by blast
  have twin: "\<not> is_blank l \<and> parseCodexEvent h l = Some ev \<and> \<not> since_skips st ev
         \<and> executeEvent h m ev pr = (runs, None) \<and> map_of (recentEvents st) l = None
       \<longrightarrow> fst (snd (process_lines h m pr st [l, l]))
             = (if Date_now h (Suc (clock_reads st)) - Date_now h (clock_reads st)
                     \<le> RECENT_EVENT_TTL_MS
                then runs else runs @ runs)"
    using twin_lines [OF assms] by blast
  show ?thesis
    by (intro conjI record_slides [OF assms] record_cache_ok [OF d]
        adjacent_checks [OF assms] win twin)
qed

lemma late_cache_ok: "cache_ok late_state"
  by (simp add: cache_ok_def late_state_def)

theorem dedup_window_witness:
  "map_of (recentEvents (snd (recordAndCheckDuplicateEvent test_host
        (initial_state once_options) line_complete))) line_complete = Some 0
   \<and> fst (recordAndCheckDuplicateEvent test_host
        (snd (recordAndCheckDuplicateEvent test_host (initial_state once_options)
           line_complete)) line_complete)
   \<and> \<not> fst (recordAndCheckDuplicateEvent test_host
        (snd (recordAndCheckDuplicateEvent test_host late_state line_complete)) line_complete)
   \<and> fst (check_all test_host (initial_state once_options)
        [line_complete, line_complete, line_started]) = [False, True, False]
   \<and> fst (snd (process_lines test_host two_rule_manifest None (initial_state once_options)
        [line_complete, line_complete])) = [stop_on_complete_run, complete_run]
   \<and> fst (snd (process_lines test_host two_rule_manifest None late_state
        [line_complete, line_complete]))
       = [stop_on_complete_run, complete_run, stop_on_complete_run, complete_run]"
proof -
  note T0 = dedup_window [OF initial_cache_ok [of once_options], where h = test_host]
  note T2 = dedup_window [OF late_cache_ok, where h = test_host]
  have i0: "recentEvents (initial_state once_options) = []"
    "clock_reads (initial_state once_options) = 0"
    "sinceEpochSec (initial_state once_options) = None"
    by (simp_all add: initial_state_def once_options_def)
  have i2: "recentEvents late_state = []" "clock_reads late_state = 2"
    "sinceEpochSec late_state = None"
    by (simp_all add: late_state_def)
  have a1: "map_of (recentEvents (snd (recordAndCheckDuplicateEvent test_host
        (initial_state once_options) line_complete))) line_complete = Some 0"
    using T0 [THEN conjunct1, of line_complete] by (simp add: i0 host_fields)
  have a2: "fst (recordAndCheckDuplicateEvent test_host
        (snd (recordAndCheckDuplicateEvent test_host (initial_state once_options)
           line_complete)) line_complete)"
    using T0 [THEN conjunct2, THEN conjunct2, THEN conjunct1, of line_complete]
    by (simp add: i0 host_fields RECENT_EVENT_TTL_MS_def)
  have a3: "\<not> fst (recordAndCheckDuplicateEvent test_host
        (snd (recordAndCheckDuplicateEvent test_host late_state line_complete)) line_complete)"
    using T2 [THEN conjunct2, THEN conjunct2, THEN conjunct1, of line_complete]
    by (simp add: i2 host_fields RECENT_EVENT_TTL_MS_def)
  have card3: "card (fst ` set (recentEvents (initial_state once_options))
                 \<union> set [line_complete, line_complete, line_started]) \<le> RECENT_EVENT_MAX"
    by (simp add: i0 RECENT_EVENT_MAX_def card_insert_if)
  have a4: "fst (check_all test_host (initial_state once_options)
        [line_complete, line_complete, line_started]) = [False, True, False]"
    using T0 [THEN conjunct2, THEN conjunct2, THEN conjunct2, THEN conjunct1, rule_format,
        OF card3] line_distinct
    by (simp add: i0 host_fields RECENT_EVENT_TTL_MS_def)
  have a5: "fst (snd (process_lines test_host two_rule_manifest None (initial_state once_options)
        [line_complete, line_complete])) = [stop_on_complete_run, complete_run]"
    using T0 [THEN conjunct2, THEN conjunct2, THEN conjunct2, THEN conjunct2, rule_format,
        where l = line_complete and ev = "simple_event ''task_complete'' 1772272803"
        and m = two_rule_manifest and pr = None
        and runs = "[stop_on_complete_run, complete_run]"]
    by (simp add: i0 host_fields RECENT_EVENT_TTL_MS_def not_blank_complete
        event_line_complete exec_complete since_skips_def del: process_lines.simps)
  have a6: "fst (snd (process_lines test_host two_rule_manifest None late_state
        [line_complete, line_complete]))
       = [stop_on_complete_run, complete_run, stop_on_complete_run, complete_run]"
    using T2 [THEN conjunct2, THEN conjunct2, THEN conjunct2, THEN conjunct2, rule_format,
        where l = line_complete and ev = "simple_event ''task_complete'' 1772272803"
        and m = two_rule_manifest and pr = None
        and runs = "[stop_on_complete_run, complete_run]"]
    by (simp add: i2 host_fields RECENT_EVENT_TTL_MS_def not_blank_complete
        event_line_complete exec_complete since_skips_def del: process_lines.simps)
  show ?thesis
    using a1 a2 a3 a4 a5 a6 by blast
qed

text \<open>
  C8, as stated: when the cache is over its ceiling, the entries older than the TTL are
  purged first, and only if the cache is still over capacity are entries evicted in
  insertion order. It fails where an entry at the front has been refreshed: \<open>a\<close> and
  1999 other texts are checked at time 0, \<open>a\<close> again at time 40000 (a \<open>Map\<close> keeps the
  place of a key that is set again), and a new text at time 40001. Purging the 1999
  expired entries would leave \<open>a\<close> and the new text; the code's pass meets \<open>a\<close> first,
  while the cache is still over the ceiling, and deletes it too.
\<close>

theorem refreshed_entry_evicted:
  "recentEvents (snd (check_all refresh_host (initial_state once_options)
       (warmup_lines 1999 @ [''a'', filler 1999])))
     = [(filler 1999, 40001)]
   \<and> spec_eviction 40001
       (AList.update (filler 1999) 40001
          (recentEvents (snd (check_all refresh_host (initial_state once_options)
             (warmup_lines 1999 @ [''a''])))))
     = [(''a'', 40000), (filler 1999, 40001)]"
proof -
  have n: "Suc 1999 = RECENT_EVENT_MAX" "0 < (1999::nat)"
    by (simp_all add: RECENT_EVENT_MAX_def)
  have c0: "k < Suc 1999 \<Longrightarrow> Date_now refresh_host k = 0" for k
    by (simp add: refresh_host_def)
  have c1: "Date_now refresh_host (Suc 1999) = 40000"
    "Date_now refresh_host (Suc (Suc 1999)) = 40001"
    by (simp_all add: refresh_host_def)
  show ?thesis
    using refresh_overflow(2) [OF n c0 c1, of once_options]
      refresh_overflow(3) [OF n c0 c1, of once_options]
    by blast
qed

text \<open>
  C8, amended. After every record-and-check operation the cache holds at most 2000
  entries. When the insertion leaves it over the ceiling, one pass in insertion order
  deletes a prefix of the entries: each deleted entry is older than the TTL or was met
  while the cache was still over the ceiling, and the pass stops at the first entry
  that is neither. When the last-seen times are in insertion order, the result is the
  same as purging the entries older than the TTL first and then evicting in insertion
  order down to the ceiling.
\<close>

theorem dedup_eviction:
  "length (recentEvents (snd (recordAndCheckDuplicateEvent h st s))) \<le> RECENT_EVENT_MAX
   \<and> (updated = AList.update s (Date_now h (clock_reads st)) (recentEvents st)
      \<longrightarrow> recentEvents (snd (recordAndCheckDuplicateEvent h st s))
            = (if length updated > RECENT_EVENT_MAX
               then evict (Date_now h (clock_reads st)) updated else updated))
   \<and> (\<exists>n \<le> length c. evict nowMs c = drop n c
        \<and> (\<forall>i<n. nowMs - snd (c ! i) > RECENT_EVENT_TTL_MS
                  \<or> length c - i > RECENT_EVENT_MAX)
        \<and> (n < length c \<longrightarrow> \<not> nowMs - snd (c ! n) > RECENT_EVENT_TTL_MS
                             \<and> length c - n \<le> RECENT_EVENT_MAX))
   \<and> (sorted (map snd c) \<longrightarrow> evict nowMs c = spec_eviction nowMs c)"
proof -
  have upd: "updated = AList.update s (Date_now h (clock_reads st)) (recentEvents st)
      \<longrightarrow> recentEvents (snd (recordAndCheckDuplicateEvent h st s))
            = (if length updated > RECENT_EVENT_MAX
               then evict (Date_now h (clock_reads st)) updated else updated)"
    by (simp add: recordAndCheckDuplicateEvent_def Let_def)
  have srt: "sorted (map snd c) \<longrightarrow> evict nowMs c = spec_eviction nowMs c"
    using evict_sorted by blast
  show ?thesis
    by (intro conjI record_bound upd evict_char srt)
qed


theorem dedup_eviction_witness:
  "length (recentEvents (snd (recordAndCheckDuplicateEvent test_host
       (initial_state once_options) line_complete))) \<le> RECENT_EVENT_MAX
   \<and> recentEvents (snd (recordAndCheckDuplicateEvent test_host
       (initial_state once_options) line_complete)) = [(line_complete, 0)]
   \<and> evict 40000 [(''a'', 0), (''b'', 39000)] = spec_eviction 40000 [(''a'', 0), (''b'', 39000)]
   \<and> spec_eviction 40000 [(''a'', 0), (''b'', 39000)] = [(''b'', 39000)]"
proof -
  note T = dedup_eviction [where h = test_host and st = "initial_state once_options"
      and s = line_complete and c = "[(''a'', 0), (''b'', 39000)]" and nowMs = 40000
      and updated = "[(line_complete, 0)]"]
  have a1: "length (recentEvents (snd (recordAndCheckDuplicateEvent test_host
       (initial_state once_options) line_complete))) \<le> RECENT_EVENT_MAX"
    by (rule T [THEN conjunct1])
  have a2: "recentEvents (snd (recordAndCheckDuplicateEvent test_host
       (initial_state once_options) line_complete)) = [(line_complete, 0)]"
    using T [THEN conjunct2, THEN conjunct1]
    by (simp add: initial_state_def host_fields RECENT_EVENT_MAX_def)
  have a3: "evict 40000 [(''a'', 0), (''b'', 39000)]
              = spec_eviction 40000 [(''a'', 0), (''b'', 39000)]"
    using T [THEN conjunct2, THEN conjunct2, THEN conjunct2] by simp
  have a4: "spec_eviction 40000 [(''a'', 0), (''b'', 39000)] = [(''b'', 39000)]"
    by (simp add: spec_eviction_def RECENT_EVENT_TTL_MS_def RECENT_EVENT_MAX_def)
  show ?thesis
    using a1 a2 a3 a4 by blast
qed

subsection \<open>Once-mode scenario\<close>

lemma record_fresh_miss:
  "s \<notin> fst ` set (recentEvents st) \<Longrightarrow> \<not> fst (recordAndCheckDuplicateEvent h st s)"
  by (simp add: record_result map_of_eq_None_iff [THEN iffD2])

lemma record_keys_subset:
  "fst ` set (recentEvents (snd (recordAndCheckDuplicateEvent h st s)))
     \<subseteq> insert s (fst ` set (recentEvents st))"
proof -
  let ?u = "AList.update s (Date_now h (clock_reads st)) (recentEvents st)"
  obtain n where "evict (Date_now h (clock_reads st)) ?u = drop n ?u"
    using evict_suffix by blast
  then have "set (evict (Date_now h (clock_reads st)) ?u) \<subseteq> set ?u"
    by (simp add: set_drop_subset)
  then have "set (recentEvents (snd (recordAndCheckDuplicateEvent h st s))) \<subseteq> set ?u"
    by (simp add: recordAndCheckDuplicateEvent_def Let_def)
  then have "fst ` set (recentEvents (snd (recordAndCheckDuplicateEvent h st s)))
               \<subseteq> fst ` set ?u"
    by (rule image_mono)
  then show ?thesis
    by (simp only: update_keys)
qed

lemma record_since:
  "sinceEpochSec (snd (recordAndCheckDuplicateEvent h st s)) = sinceEpochSec st"
  by (simp add: recordAndCheckDuplicateEvent_def Let_def)

lemma exec_single_rule:
  assumes "getAllHookSources m = [source]"
    and "get_prop source ''events'' = Some (JArr [rule])"
    and "get_prop rule ''eventName'' = Some (JStr n)"
    and "\<not> truthy_opt (get_prop rule ''matcher'')"
    and "get_prop rule ''commands'' = Some (JArr [cd])"
    and "mapEventNames (rawType ev) = Inr names"
  shows "executeEvent h m ev pr
           = (if n \<in> set names
              then run_command h source names ev (buildMatcherText h ev) pr cd else [], None)"
proof -
  have src: "source \<noteq> JNull"
    using assms(2) by auto
  have tr: "truthy rule"
    using get_prop_Some_obj [OF assms(3)] by simp
  show ?thesis
    using assms src tr
    by (simp add: executeEvent_def run_source_def run_rule_def rule_fires_def matchesRule_def)
qed

lemma process_lines_fresh:
  assumes "distinct ls" and "set ls \<inter> fst ` set (recentEvents st) = {}"
    and "sinceEpochSec st = None"
    and "list_all2 (\<lambda>l ev. \<not> is_blank l \<and> parseCodexEvent h l = Some ev
                           \<and> executeEvent h m ev pr = (f ev, None)) ls evs"
  shows "\<exists>st1. process_lines h m pr st ls = (st1, concat (map f evs), None)"
  using assms
proof (induction ls arbitrary: st evs)
  case Nil
  then show ?case by simp
next
  case (Cons l ls)
  from Cons.prems(4) obtain ev evs1 where evs: "evs = ev # evs1"
    and l: "\<not> is_blank l" "parseCodexEvent h l = Some ev" "executeEvent h m ev pr = (f ev, None)"
    and rest: "list_all2 (\<lambda>l ev. \<not> is_blank l \<and> parseCodexEvent h l = Some ev
                           \<and> executeEvent h m ev pr = (f ev, None)) ls evs1"
    by (auto simp: list_all2_Cons1)
  obtain d st1 where r: "recordAndCheckDuplicateEvent h st l = (d, st1)" by fastforce
  have fresh: "l \<notin> fst ` set (recentEvents st)"
    using Cons.prems(2) by auto
  have d: "\<not> d"
    using record_fresh_miss [OF fresh, of h] r by simp
  have keys: "fst ` set (recentEvents st1) \<subseteq> insert l (fst ` set (recentEvents st))"
    using record_keys_subset [of h st l] r by simp
  have k1: "set ls \<inter> fst ` set (recentEvents st1) = {}"
    using keys Cons.prems(1,2) by auto
  have s1: "sinceEpochSec st1 = None"
    using record_since [of h st l] r Cons.prems(3) by simp
  from Cons.IH [OF _ k1 s1 rest] Cons.prems(1)
  obtain st2 where ih: "process_lines h m pr st1 ls = (st2, concat (map f evs1), None)"
    by auto
  have ns: "\<not> since_skips st ev"
    using Cons.prems(3) by (simp add: since_skips_def)
  have "process_lines h m pr st (l # ls) = (st2, f ev @ concat (map f evs1), None)"
    using l r d ns ih by simp
  then show ?case
    using evs by simp
qed

lemma lines_text:
  "concat (map (\<lambda>l. l @ [CHR 0x0A]) ls) = js_join [CHR 0x0A] (ls @ [[]])"
proof (induction ls)
  case Nil
  show ?case by simp
next
  case (Cons l ls)
  then show ?case by (cases ls) simp_all
qed

lemma split_lines_text:
  assumes "\<forall>l\<in>set ls. CHR 0x0A \<notin> set l"
  shows "split_nl (concat (map (\<lambda>l. l @ [CHR 0x0A]) ls)) = ls @ [[]]"
proof -
  have "list_all (\<lambda>l. CHR 0x0A \<notin> set l) (ls @ [[]])"
    using assms by (simp add: list_all_iff)
  then show ?thesis
    using split_nl_unique [of "ls @ [[]]"] by (simp only: lines_text) simp
qed

lemma single_fire:
  assumes "length (filter P xs) = 1"
  shows "\<exists>x. x \<in> set xs \<and> P x \<and> concat (map (\<lambda>x. if P x then g x else []) xs) = g x"
  using assms
proof (induction xs)
  case Nil
  then show ?case by simp
next
  case (Cons a xs)
  show ?case
  proof (cases "P a")
    case True
    with Cons.prems have "filter P xs = []" by simp
    then have "\<forall>x\<in>set xs. \<not> P x" by (simp add: filter_empty_conv)
    then have "concat (map (\<lambda>x. if P x then g x else []) xs) = []"
      by (induction xs) simp_all
    with True show ?thesis by (intro exI [of _ a]) simp
  next
    case False
    with Cons.prems have "length (filter P xs) = 1" by simp
    from Cons.IH [OF this] obtain x where "x \<in> set xs" "P x"
      "concat (map (\<lambda>x. if P x then g x else []) xs) = g x" by blast
    with False show ?thesis by (intro exI [of _ x]) simp
  qed
qed

lemma parse_one_rule:
  "test_JSON_parse one_rule_manifest_text =
     Some (JObj [(''plugins'', JArr [one_rule_source]), (''topHooks'', JArr [])])"
  by (simp add: parse_simps one_rule_manifest_text_def one_rule_source_def one_rule_def
      one_command_def)

lemma read_one_rule:
  "readManifest test_host (fs_with_manifest one_rule_manifest_text files) test_home
     = Inr one_rule_manifest"
  using parse_one_rule
  by (simp add: readManifest_def readJsonIfExists_def fs_with_manifest_def path_join_def
      BRIDGE_MANIFEST_RELATIVE_PATH_def test_home_def test_manifest_path_def host_fields
      one_rule_manifest_def not_blank_first one_rule_manifest_text_def is_ws_def)

lemma session_lines_distinct: "distinct session_lines"
  by (simp add: session_lines_def line_started_def line_message1_def line_message2_def
      line_complete_def session_line_def)

lemma session_lines_plain: "\<forall>l\<in>set session_lines. CHR 0x0A \<notin> set l \<and> \<not> is_blank l"
  by (simp add: session_lines_def line_started_def line_message1_def line_message2_def
      line_complete_def not_blank_line) (simp add: session_line_def)

lemma session_lines_events: "map (parseCodexEvent test_host) session_lines = map Some session_events"
  by (simp add: session_lines_def session_events_def event_line_started event_line_message1
      event_line_message2 event_line_complete)

lemma session_log_found:
  "collectSessionFiles test_host (fs_with_manifest txt [session_log]) None = [session_path]"
  "stat_bytes (fs_with_manifest txt [session_log]) session_path
     = Some (concat (map (\<lambda>l. l @ [CHR 0x0A]) session_lines))"
  by (simp_all add: collectSessionFiles_def stat_bytes_def fs_with_manifest_def session_log_def
      ends_with_def host_fields)

lemma blank_command_skipped:
  "get_prop cd ''command'' = Some (JStr c) \<Longrightarrow> is_blank c \<Longrightarrow>
     run_command h source names ev mt pr cd = []"
  by (simp add: run_command_def)

lemma no_break_space_blank: "is_blank [CHR 0xA0]"
  by (simp add: is_blank_def js_trim_def is_ws_def)

text \<open>
  C5. A manifest whose only hook source has the single rule \<open>TaskComplete\<close>, with no
  matcher and one command \<open>c\<close> that is not blank; one session file, read from the start,
  whose lines are pairwise different, each ended by a newline, and parse to events of
  raw type \<open>task_started\<close>, \<open>agent_message\<close> or \<open>task_complete\<close>, exactly one of them
  \<open>task_complete\<close>; no since floor and no \<open>--emit-stop\<close>. Then the once-mode pass ends
  without an error and runs exactly one hook command: the command \<open>c\<close>, dispatched for
  the \<open>task_complete\<close> event under the names \<open>TaskComplete\<close>, \<open>Stop\<close> and \<open>task_complete\<close>.
  The scenario of the claim (one \<open>task_started\<close> line, two \<open>agent_message\<close> lines, one
  \<open>task_complete\<close> line) is the instance evaluated after the theorem.
\<close>

theorem once_mode_scenario:
  assumes "readManifest h fs (codexHome opts) = Inr m"
    and "getAllHookSources m = [source]"
    and "get_prop source ''events'' = Some (JArr [rule])"
    and "get_prop rule ''eventName'' = Some (JStr ''TaskComplete'')"
    and "\<not> truthy_opt (get_prop rule ''matcher'')"
    and "get_prop rule ''commands'' = Some (JArr [cd])"
    and "get_prop cd ''command'' = Some (JStr c)" and "\<not> is_blank c"
    and "since opts = None" and "\<not> emitStop opts"
    and "collectSessionFiles h fs None = [p]"
    and "stat_bytes fs p = Some (concat (map (\<lambda>l. l @ [CHR 0x0A]) ls))"
    and "distinct ls" and "\<forall>l\<in>set ls. CHR 0x0A \<notin> set l \<and> \<not> is_blank l"
    and "map (parseCodexEvent h) ls = map Some evs"
    and "set (map rawType evs) \<subseteq> {''task_started'', ''agent_message'', ''task_complete''}"
    and "length (filter (\<lambda>ev. rawType ev = ''task_complete'') evs) = 1"
  shows "\<exists>ev run. runOnce h fs opts = ([run], None) \<and> command run = c
           \<and> ev \<in> set evs \<and> rawType ev = ''task_complete''
           \<and> run_command h source [''TaskComplete'', ''Stop'', ''task_complete''] ev
                (buildMatcherText h ev) (projectRoot opts) cd = [run]"
proof -
  let ?names = "[''TaskComplete'', ''Stop'', ''task_complete'']"
  let ?P = "\<lambda>ev. rawType ev = ''task_complete''"
  let ?g = "\<lambda>ev. run_command h source ?names ev (buildMatcherText h ev) (projectRoot opts) cd"
  let ?f = "\<lambda>ev. if ?P ev then ?g ev else []"
  let ?st = "initial_state opts"
  let ?bytes = "concat (map (\<lambda>l. l @ [CHR 0x0A]) ls)"
  have ex: "executeEvent h m ev (projectRoot opts) = (?f ev, None)" if "ev \<in> set evs" for ev
  proof -
    from that assms(16) consider "rawType ev = ''task_started''"
      | "rawType ev = ''agent_message''" | "rawType ev = ''task_complete''"
      by auto
    then show ?thesis
    proof cases
      case 1
      then show ?thesis
        using exec_single_rule [OF assms(2-6), of ev "[''TaskStarted'', ''task_started'']" h
            "projectRoot opts"]
        by (simp add: mapEventNames_task_started)
    next
      case 2
      then show ?thesis
        using exec_single_rule [OF assms(2-6), of ev "[''agent_message'']" h "projectRoot opts"]
        by (simp add: mapEventNames_agent_message)
    next
      case 3
      then show ?thesis
        using exec_single_rule [OF assms(2-6), of ev ?names h "projectRoot opts"]
        by (simp add: mapEventNames_task_complete)
    qed
  qed
  have len: "length ls = length evs"
    using assms(15) by (metis length_map)
  have all2: "list_all2 (\<lambda>l ev. \<not> is_blank l \<and> parseCodexEvent h l = Some ev
                 \<and> executeEvent h m ev (projectRoot opts) = (?f ev, None)) ls evs"
  proof (rule list_all2_all_nthI [OF len])
    fix n assume n: "n < length ls"
    have "map (parseCodexEvent h) ls ! n = map Some evs ! n"
      using assms(15) by simp
    then have pe: "parseCodexEvent h (ls ! n) = Some (evs ! n)"
      using n len by simp
    have "ls ! n \<in> set ls" "evs ! n \<in> set evs"
      using n len by simp_all
    then show "\<not> is_blank (ls ! n) \<and> parseCodexEvent h (ls ! n) = Some (evs ! n)
                 \<and> executeEvent h m (evs ! n) (projectRoot opts) = (?f (evs ! n), None)"
      using assms(14) pe ex by blast
  qed
  have st: "recentEvents ?st = []" "sinceEpochSec ?st = None" "offsets ?st p = None"
    "remainders ?st p = None"
    using assms(9) by (simp_all add: initial_state_def)
  obtain st1 where pl: "process_lines h m (projectRoot opts) ?st ls
                          = (st1, concat (map ?f evs), None)"
    using process_lines_fresh [OF assms(13) _ st(2) all2] st(1) by auto
  from single_fire [OF assms(17), of ?g]
  obtain ev where ev: "ev \<in> set evs" "?P ev" "concat (map ?f evs) = ?g ev"
    by blast
  have tc: "truthy cd"
    using get_prop_Some_obj [OF assms(7)] by simp
  obtain run where run: "?g ev = [run]" "command run = c"
    using assms(7,8) tc by (simp add: run_command_def)
  have ne: "ls \<noteq> []"
    using ev(1) len by auto
  then have bne: "?bytes \<noteq> []"
    by (cases ls) simp_all
  have sp: "split_nl ?bytes = ls @ [[]]"
    using split_lines_text assms(14) by blast
  have psf: "processSessionFile h p ?bytes ?st m (projectRoot opts)
               = (st1\<lparr>offsets := (offsets st1)(p \<mapsto> length ?bytes),
                      remainders := (remainders st1)(p \<mapsto> [])\<rparr>, [run], None)"
    using bne st(3,4) pl ev(3) run(1)
    by (simp add: processSessionFile_def Let_def sp del: process_lines.simps)
  have "runOnce h fs opts = ([run], None)"
    using assms(1,9,10,11,12) psf by (simp add: runOnce_def)
  then show ?thesis
    using ev(1,2) run by blast
qed

theorem once_mode_scenario_witness:
  "runOnce test_host (fs_with_manifest one_rule_manifest_text [session_log]) once_options
     = ([out_log_run], None)"
proof -
  have opts: "codexHome once_options = test_home" "since once_options = None"
    "\<not> emitStop once_options" "projectRoot once_options = None"
    by (simp_all add: once_options_def)
  have m: "readManifest test_host (fs_with_manifest one_rule_manifest_text [session_log])
             (codexHome once_options) = Inr one_rule_manifest"
    by (simp only: opts read_one_rule)
  have src: "getAllHookSources one_rule_manifest = [one_rule_source]"
    "get_prop one_rule_source ''events'' = Some (JArr [one_rule])"
    by (simp_all add: getAllHookSources_def one_rule_manifest_def one_rule_source_def)
  have rule: "get_prop one_rule ''eventName'' = Some (JStr ''TaskComplete'')"
    "\<not> truthy_opt (get_prop one_rule ''matcher'')"
    "get_prop one_rule ''commands'' = Some (JArr [one_command])"
    by (simp_all add: one_rule_def truthy_opt_def)
  have cmd: "get_prop one_command ''command'' = Some (JStr ''echo complete >> out.log'')"
    "\<not> is_blank ''echo complete >> out.log''"
    by (simp_all add: one_command_def not_blank_first is_ws_def)
  have types: "set (map rawType session_events)
                 \<subseteq> {''task_started'', ''agent_message'', ''task_complete''}"
    "length (filter (\<lambda>ev. rawType ev = ''task_complete'') session_events) = 1"
    by (simp_all add: session_events_def simple_event_def)
  from once_mode_scenario [OF m src rule cmd opts(2,3) session_log_found
      session_lines_distinct session_lines_plain session_lines_events types]
  obtain ev run where r: "runOnce test_host (fs_with_manifest one_rule_manifest_text [session_log])
        once_options = ([run], None)"
    and ev: "ev \<in> set session_events" "rawType ev = ''task_complete''"
    and run: "run_command test_host one_rule_source [''TaskComplete'', ''Stop'', ''task_complete'']
                ev (buildMatcherText test_host ev) (projectRoot once_options) one_command = [run]"
    by blast
  have "ev = simple_event ''task_complete'' 1772272803"
    using ev by (auto simp: session_events_def simple_event_def)
  then have "run = out_log_run"
    using run
    by (simp add: opts simple_event_def one_command_def one_rule_source_def out_log_run_def
        dispatch_simps)
  with r show ?thesis by simp
qed

end
